(* ===== verification/GoPrelude.thy ===== *)
theory GoPrelude
  imports Main "HOL-Library.Word" "HOL-Library.Sublist" "HOL-Library.Char_ord"
begin

text \<open>
  Shared ground of the development: the result types in which the Go functions that
  return a value and an error are modelled, the collections of rewrite rules that carry
  the component proofs, and the generic facts on lists, options and maps that several
  components use.

  Conventions.  A Go \<^verbatim>\<open>string\<close> is a sequence of bytes and is modelled by \<^typ>\<open>string\<close>
  (Isabelle's \<^typ>\<open>char\<close> is a byte).  A function that returns \<open>(T, error)\<close> is modelled by a
  function into \<open>('e, 'a) result\<close>, \<open>Inl\<close> carrying the error.  A Go \<^verbatim>\<open>time.Duration\<close> is an
  \<^typ>\<open>int\<close> counting nanoseconds; where the source computes with it the values are far from
  the limits of 64 bits, and the parser that produces it enforces those limits.
\<close>

named_theorems go_simps "rewrite rules for the modelled part of Go's standard library"
named_theorems sdp_simps "rewrite rules for SDP lines and sections"
named_theorems sess_simps "rewrite rules for the session state and its operations"

type_synonym ('e, 'a) result = "'e + 'a"
type_synonym duration = int
type_synonym bytes = "8 word list"

abbreviation CR :: char where "CR \<equiv> CHR 0x0D"
abbreviation NL :: char where "NL \<equiv> CHR 0x0A"
abbreviation TAB :: char where "TAB \<equiv> CHR 0x09"
abbreviation CRLF :: string where "CRLF \<equiv> [CR, NL]"
abbreviation LF :: string where "LF \<equiv> [NL]"

abbreviation millisecond :: duration where "millisecond \<equiv> 1000000"
abbreviation second :: duration where "second \<equiv> 1000000000"
abbreviation minute :: duration where "minute \<equiv> 60000000000"

section \<open>Results\<close>

definition is_ok :: "('e, 'a) result \<Rightarrow> bool" where
  "is_ok r = (case r of Inl _ \<Rightarrow> False | Inr _ \<Rightarrow> True)"

lemma is_ok_simps [simp]: "is_ok (Inr x)" "\<not> is_ok (Inl e)"
  by (simp_all add: is_ok_def)

lemma is_ok_iff: "is_ok r \<longleftrightarrow> (\<exists>x. r = Inr x)"
  by (cases r) (auto simp: is_ok_def)

text \<open>The idiom \<^verbatim>\<open>if err != nil { return err }\<close>: go on with the value unless there is an error.\<close>

definition andThen :: "('e, 'a) result \<Rightarrow> ('a \<Rightarrow> ('e, 'b) result) \<Rightarrow> ('e, 'b) result" where
  "andThen r f = (case r of Inl e \<Rightarrow> Inl e | Inr x \<Rightarrow> f x)"

definition require :: "bool \<Rightarrow> 'e \<Rightarrow> ('e, unit) result" where
  "require b e = (if b then Inr () else Inl e)"

lemma andThen_simps [simp]: "andThen (Inl e) f = Inl e" "andThen (Inr x) f = f x"
  by (simp_all add: andThen_def)

lemma andThen_Inr: "andThen r f = Inr y \<longleftrightarrow> (\<exists>x. r = Inr x \<and> f x = Inr y)"
  by (cases r) simp_all

lemma require_simps [simp]: "require True e = Inr ()" "require False e = Inl e"
  by (simp_all add: require_def)

lemma require_Inr: "require b e = Inr x \<longleftrightarrow> b"
  by (cases b) simp_all

section \<open>Lists\<close>

lemma takeWhile_dropWhile_split:
  "xs = takeWhile P xs @ dropWhile P xs"
  by simp

lemma dropWhile_hd_not: "dropWhile P xs = y # ys \<Longrightarrow> \<not> P y"
  by (induction xs) (auto split: if_splits)

lemma takeWhile_all_in: "x \<in> set (takeWhile P xs) \<Longrightarrow> P x \<and> x \<in> set xs"
  by (auto dest: set_takeWhileD)

lemma length_takeWhile_le' [simp]: "length (takeWhile P xs) \<le> length xs"
  by (rule length_takeWhile_le)

lemma drop_length_takeWhile [simp]: "drop (length (takeWhile P xs)) xs = dropWhile P xs"
  by (simp add: dropWhile_eq_drop)

lemma take_length_takeWhile [simp]: "take (length (takeWhile P xs)) xs = takeWhile P xs"
  by (simp add: takeWhile_eq_take [symmetric])

lemma takeWhile_append_stop:
  "(\<And>x. x \<in> set xs \<Longrightarrow> P x) \<Longrightarrow> ys = [] \<or> \<not> P (hd ys) \<Longrightarrow> takeWhile P (xs @ ys) = xs"
  by (cases ys) (simp_all add: takeWhile_append)

lemma dropWhile_append_stop:
  "(\<And>x. x \<in> set xs \<Longrightarrow> P x) \<Longrightarrow> ys = [] \<or> \<not> P (hd ys) \<Longrightarrow> dropWhile P (xs @ ys) = ys"
  by (cases ys) (simp_all add: dropWhile_append)

lemma list_ex_map: "list_ex P (map f xs) = list_ex (\<lambda>x. P (f x)) xs"
  by (induction xs) simp_all

lemma map_nth_middle: "map ((!) (pre @ xs @ post)) [length pre..<length pre + length xs] = xs"
  by (rule nth_equalityI) (simp_all add: nth_append)

text \<open>Inserting one element at a position, as the Go idiom of appending an empty slot and
  copying the tail one place to the right does.\<close>

definition insert_at :: "nat \<Rightarrow> 'a \<Rightarrow> 'a list \<Rightarrow> 'a list" where
  "insert_at i x xs = take i xs @ x # drop i xs"

lemma length_insert_at [simp]: "i \<le> length xs \<Longrightarrow> length (insert_at i x xs) = Suc (length xs)"
  by (simp add: insert_at_def)

lemma insert_at_append [simp]:
  "insert_at (length xs) x (xs @ ys) = xs @ x # ys"
  by (simp add: insert_at_def)

lemma insert_at_append_right:
  "length xs \<le> i \<Longrightarrow> insert_at i x (xs @ ys) = xs @ insert_at (i - length xs) x ys"
  by (simp add: insert_at_def)

lemma subseq_insert_at: "subseq xs (insert_at i x xs)"
proof -
  have "subseq (take i xs @ drop i xs) (take i xs @ x # drop i xs)"
    by (rule list_emb_append_mono) auto
  then show ?thesis by (simp add: insert_at_def)
qed

lemma set_insert_at [simp]: "set (insert_at i x xs) = insert x (set xs)"
proof -
  have "set (insert_at i x xs) = insert x (set (take i xs @ drop i xs))"
    unfolding insert_at_def set_append by auto
  then show ?thesis by simp
qed

end
