(* ===== verification/GoStrings.thy ===== *)
theory GoStrings
  imports GoPrelude
begin

text \<open>
  The part of Go's packages \<^verbatim>\<open>strings\<close>, \<^verbatim>\<open>strconv\<close> and \<^verbatim>\<open>unicode/utf8\<close> that the program
  calls, as executable functions on byte strings, with the laws the components use:
  splitting and joining are inverse to each other, fields are non-empty and free of white
  space, and the number parsers return exactly the values in range.
\<close>

section \<open>UTF-8\<close>

abbreviation byte_of :: "char \<Rightarrow> int" where "byte_of c \<equiv> of_char c"

definition RuneError :: int where "RuneError = 0xFFFD"

definition is_cont :: "char \<Rightarrow> bool" where
  "is_cont c = (0x80 \<le> byte_of c \<and> byte_of c \<le> 0xBF)"

text \<open>\<^verbatim>\<open>utf8.DecodeRuneInString\<close>: the first rune and the number of bytes it takes.  An invalid
  sequence gives \<^const>\<open>RuneError\<close> and takes one byte.  The second byte's range depends on
  the first, which rules out overlong forms, surrogates and values beyond U+10FFFF.\<close>

definition second_ok :: "int \<Rightarrow> char \<Rightarrow> bool" where
  "second_ok b0 c =
     (let b1 = byte_of c in
      if b0 = 0xE0 then 0xA0 \<le> b1 \<and> b1 \<le> 0xBF
      else if b0 = 0xED then 0x80 \<le> b1 \<and> b1 \<le> 0x9F
      else if b0 = 0xF0 then 0x90 \<le> b1 \<and> b1 \<le> 0xBF
      else if b0 = 0xF4 then 0x80 \<le> b1 \<and> b1 \<le> 0x8F
      else 0x80 \<le> b1 \<and> b1 \<le> 0xBF)"

fun DecodeRune :: "string \<Rightarrow> int \<times> nat" where
  "DecodeRune [] = (RuneError, 0)"
| "DecodeRune (c0 # cs) =
     (let b0 = byte_of c0 in
      if b0 < 0x80 then (b0, 1)
      else if 0xC2 \<le> b0 \<and> b0 \<le> 0xDF then
        (case cs of
           c1 # _ \<Rightarrow> if is_cont c1
             then ((b0 - 0xC0) * 64 + (byte_of c1 - 0x80), 2) else (RuneError, 1)
         | [] \<Rightarrow> (RuneError, 1))
      else if 0xE0 \<le> b0 \<and> b0 \<le> 0xEF then
        (case cs of
           c1 # c2 # _ \<Rightarrow> if second_ok b0 c1 \<and> is_cont c2
             then ((b0 - 0xE0) * 4096 + (byte_of c1 - 0x80) * 64 + (byte_of c2 - 0x80), 3)
             else (RuneError, 1)
         | _ \<Rightarrow> (RuneError, 1))
      else if 0xF0 \<le> b0 \<and> b0 \<le> 0xF4 then
        (case cs of
           c1 # c2 # c3 # _ \<Rightarrow> if second_ok b0 c1 \<and> is_cont c2 \<and> is_cont c3
             then ((b0 - 0xF0) * 262144 + (byte_of c1 - 0x80) * 4096 +
                   (byte_of c2 - 0x80) * 64 + (byte_of c3 - 0x80), 4)
             else (RuneError, 1)
         | _ \<Rightarrow> (RuneError, 1))
      else (RuneError, 1))"

lemma DecodeRune_width: "s \<noteq> [] \<Longrightarrow> 0 < snd (DecodeRune s) \<and> snd (DecodeRune s) \<le> length s"
  by (cases s) (auto simp: Let_def split: list.splits)

lemma DecodeRune_ascii [go_simps]: "byte_of c < 0x80 \<Longrightarrow> DecodeRune (c # cs) = (byte_of c, 1)"
  by simp

declare DecodeRune.simps(2) [simp del]

text \<open>The runes of a string with their bytes, in the order a \<^verbatim>\<open>for range\<close> loop visits them.\<close>

function runes :: "string \<Rightarrow> (int \<times> string) list" where
  "runes [] = []"
| "runes (c # cs) =
     (let (r, w) = DecodeRune (c # cs)
      in (r, take w (c # cs)) # runes (drop w (c # cs)))"
  by pat_completeness auto
termination
proof (relation "measure length")
  show "wf (measure length)" by simp
next
  fix c cs x r w
  assume "x = DecodeRune (c # cs)" and "(r, w) = x"
  then have "0 < w" using DecodeRune_width [of "c # cs"] by (metis list.distinct(1) snd_conv)
  then show "(drop w (c # cs), c # cs) \<in> measure length" by simp
qed

lemma concat_runes [go_simps]: "concat (map snd (runes s)) = s"
  by (induction s rule: runes.induct) (simp_all add: Let_def split: prod.splits)

lemma runes_ascii_Cons: "byte_of c < 0x80 \<Longrightarrow> runes (c # cs) = (byte_of c, [c]) # runes cs"
  by (simp add: DecodeRune_ascii)

declare runes.simps(2) [simp del]

lemma runes_ascii:
  "(\<And>c. c \<in> set s \<Longrightarrow> byte_of c < 0x80) \<Longrightarrow> runes s = map (\<lambda>c. (byte_of c, [c])) s"
  by (induction s) (simp_all add: runes_ascii_Cons)

lemma runes_Nil_iff [simp]: "runes s = [] \<longleftrightarrow> s = []"
  by (cases s) (simp_all add: runes.simps(2) split: prod.splits)

text \<open>\<^verbatim>\<open>unicode.IsSpace\<close>.\<close>

definition IsSpace :: "int \<Rightarrow> bool" where
  "IsSpace r = (r \<in> {0x09, 0x0A, 0x0B, 0x0C, 0x0D, 0x20, 0x85, 0xA0, 0x1680, 0x2028, 0x2029,
      0x202F, 0x205F, 0x3000} \<or> (0x2000 \<le> r \<and> r \<le> 0x200A))"

section \<open>Prefixes, splitting and joining\<close>

definition HasPrefix :: "string \<Rightarrow> string \<Rightarrow> bool" where
  "HasPrefix s p = (length p \<le> length s \<and> take (length p) s = p)"

definition TrimPrefix :: "string \<Rightarrow> string \<Rightarrow> string" where
  "TrimPrefix s p = (if HasPrefix s p then drop (length p) s else s)"

fun Contains :: "string \<Rightarrow> string \<Rightarrow> bool" where
  "Contains [] sub = (sub = [])"
| "Contains (c # cs) sub = (HasPrefix (c # cs) sub \<or> Contains cs sub)"

lemma HasPrefix_iff: "HasPrefix s p \<longleftrightarrow> (\<exists>r. s = p @ r)"
  by (auto simp: HasPrefix_def) (metis append_take_drop_id)

lemma HasPrefix_append [simp]: "HasPrefix (p @ s) p"
  by (simp add: HasPrefix_def)

lemma HasPrefix_Nil2 [simp]: "HasPrefix s []"
  by (simp add: HasPrefix_def)

lemma HasPrefix_Nil1 [simp]: "HasPrefix [] p \<longleftrightarrow> p = []"
  by (auto simp: HasPrefix_def)

lemma HasPrefix_Cons [simp]: "HasPrefix (c # s) (d # p) \<longleftrightarrow> c = d \<and> HasPrefix s p"
  by (auto simp: HasPrefix_def)

lemma HasPrefix_trans: "HasPrefix s p \<Longrightarrow> HasPrefix p q \<Longrightarrow> HasPrefix s q"
  by (auto simp: HasPrefix_iff)

lemma TrimPrefix_append [simp]: "TrimPrefix (p @ s) p = s"
  by (simp add: TrimPrefix_def)

lemma Contains_iff: "Contains s sub \<longleftrightarrow> (\<exists>a b. s = a @ sub @ b)"
proof (induction s)
  case Nil
  then show ?case by simp
next
  case (Cons c cs)
  show ?case
  proof
    assume "Contains (c # cs) sub"
    then show "\<exists>a b. c # cs = a @ sub @ b"
    proof (simp, elim disjE)
      assume "HasPrefix (c # cs) sub"
      then obtain r where "c # cs = [] @ sub @ r" by (auto simp: HasPrefix_iff)
      then show ?thesis by blast
    next
      assume "Contains cs sub"
      then obtain a b where "c # cs = (c # a) @ sub @ b" using Cons.IH by auto
      then show ?thesis by blast
    qed
  next
    assume "\<exists>a b. c # cs = a @ sub @ b"
    then obtain a b where ab: "c # cs = a @ sub @ b" by blast
    show "Contains (c # cs) sub"
    proof (cases a)
      case Nil
      with ab have "HasPrefix (c # cs) sub" by (auto simp: HasPrefix_iff)
      then show ?thesis by simp
    next
      case (Cons d ds)
      with ab have "cs = ds @ sub @ b" by simp
      then have "Contains cs sub" using Cons.IH by blast
      then show ?thesis by simp
    qed
  qed
qed

text \<open>\<^verbatim>\<open>strings.Split\<close> for a non-empty separator, the only ones the program uses.\<close>

function Split :: "string \<Rightarrow> string \<Rightarrow> string list" where
  "Split [] sep = [[]]"
| "Split (c # cs) sep =
     (if sep \<noteq> [] \<and> HasPrefix (c # cs) sep then [] # Split (drop (length sep) (c # cs)) sep
      else (case Split cs sep of [] \<Rightarrow> [[c]] | x # xs \<Rightarrow> (c # x) # xs))"
  by pat_completeness auto
termination
  by (relation "measure (\<lambda>(s, sep). length s)") auto

fun Join :: "string list \<Rightarrow> string \<Rightarrow> string" where
  "Join [] sep = []"
| "Join [x] sep = x"
| "Join (x # y # ys) sep = x @ sep @ Join (y # ys) sep"

text \<open>\<^verbatim>\<open>strings.ReplaceAll\<close> for a non-empty pattern.\<close>

function ReplaceAll :: "string \<Rightarrow> string \<Rightarrow> string \<Rightarrow> string" where
  "ReplaceAll [] old new = []"
| "ReplaceAll (c # cs) old new =
     (if old \<noteq> [] \<and> HasPrefix (c # cs) old
      then new @ ReplaceAll (drop (length old) (c # cs)) old new
      else c # ReplaceAll cs old new)"
  by pat_completeness auto
termination
  by (relation "measure (\<lambda>(s, old, new). length s)") auto

lemma Split_not_Nil [simp]: "Split s sep \<noteq> []"
  by (cases s) (auto split: list.splits)

lemma Join_Cons: "xs \<noteq> [] \<Longrightarrow> Join (x # xs) sep = x @ sep @ Join xs sep"
  by (cases xs) simp_all

lemma Join_Split [go_simps]: "sep \<noteq> [] \<Longrightarrow> Join (Split s sep) sep = s"
proof (induction s sep rule: Split.induct)
  case (2 c cs sep)
  show ?case
  proof (cases "HasPrefix (c # cs) sep")
    case True
    with "2.IH"(1) "2.prems" show ?thesis
      by (auto simp: Join_Cons HasPrefix_iff simp del: append_take_drop_id)
  next
    case False
    obtain x xs where xs: "Split cs sep = x # xs" by (cases "Split cs sep") auto
    from "2.IH"(2) False "2.prems" have "Join (x # xs) sep = cs" by (simp add: xs)
    with False xs show ?thesis by (cases xs) auto
  qed
qed simp


text \<open>Splitting undoes joining for the two line separators: neither overlaps itself.\<close>

lemma Split_free: "sep \<noteq> [] \<Longrightarrow> \<not> Contains s sep \<Longrightarrow> Split s sep = [s]"
  by (induction s) simp_all

lemma Split_append_char: "c \<notin> set x \<Longrightarrow> Split (x @ c # rest) [c] = x # Split rest [c]"
  by (induction x) auto

lemma Split_append_LF: "NL \<notin> set x \<Longrightarrow> Split (x @ NL # rest) LF = x # Split rest LF"
  by (induction x) auto

lemma Split_append_CRLF:
  "\<not> Contains x CRLF \<Longrightarrow> Split (x @ CR # NL # rest) CRLF = x # Split rest CRLF"
proof (induction x)
  case (Cons c x)
  then have free: "\<not> Contains x CRLF" and np: "\<not> HasPrefix (c # x) CRLF" by auto
  have "\<not> HasPrefix (c # x @ CR # NL # rest) CRLF"
    using np by (cases x) auto
  with Cons.IH [OF free] show ?case by simp
qed simp

definition sep_ok :: "string \<Rightarrow> bool" where
  "sep_ok sep = (sep = LF \<or> sep = CRLF)"

lemma sep_ok_simps [simp]: "sep_ok LF" "sep_ok CRLF"
  by (simp_all add: sep_ok_def)

lemma Contains_single [simp]: "Contains s [c] \<longleftrightarrow> c \<in> set s"
  by (induction s) auto

lemma Split_append_sep:
  "sep_ok sep \<Longrightarrow> \<not> Contains x sep \<Longrightarrow> Split (x @ sep @ rest) sep = x # Split rest sep"
  by (auto simp: sep_ok_def Split_append_LF Split_append_CRLF)

lemma Split_Join [go_simps]:
  "sep_ok sep \<Longrightarrow> xs \<noteq> [] \<Longrightarrow> list_all (\<lambda>x. \<not> Contains x sep) xs \<Longrightarrow> Split (Join xs sep) sep = xs"
proof (induction xs sep rule: Join.induct)
  case (2 x sep)
  then show ?case by (auto simp: sep_ok_def Split_free)
next
  case (3 x y ys sep)
  from "3.prems" have "\<not> Contains x sep" by simp
  from Split_append_sep [OF "3.prems"(1) this, of "Join (y # ys) sep"] "3.IH" "3.prems"
  show ?case by simp
qed simp

lemma Contains_Cons_LF: "Contains (c # x) LF \<longleftrightarrow> c = NL \<or> Contains x LF"
  by auto

lemma Split_pieces_free:
  "sep_ok sep \<Longrightarrow> list_all (\<lambda>x. \<not> Contains x sep) (Split s sep)"
proof (induction s sep rule: Split.induct)
  case (1 sep)
  then show ?case by (auto simp: sep_ok_def)
next
  case (2 c cs sep)
  then have ne: "sep \<noteq> []" by (auto simp: sep_ok_def)
  show ?case
  proof (cases "HasPrefix (c # cs) sep")
    case True
    with "2.IH"(1) "2.prems" ne show ?thesis by simp
  next
    case False
    obtain x xs where xs: "Split cs sep = x # xs" by (cases "Split cs sep") auto
    from "2.IH"(2) False "2.prems" have free: "\<not> Contains x sep" and rest:
      "list_all (\<lambda>x. \<not> Contains x sep) xs" by (simp_all add: xs)
    have "cs = Join (x # xs) sep" using Join_Split [OF ne, of cs] xs by simp
    then obtain r where cs: "cs = x @ r" by (cases xs) auto
    have "\<not> HasPrefix (c # x) sep"
      using False by (auto simp: cs HasPrefix_iff) (metis append_Cons append_assoc)
    with free rest False xs show ?thesis by simp
  qed
qed

lemma Split_pieces_set: "x \<in> set (Split s sep) \<Longrightarrow> set x \<subseteq> set s"
proof (induction s sep arbitrary: x rule: Split.induct)
  case (2 c cs sep)
  show ?case
  proof (cases "sep \<noteq> [] \<and> HasPrefix (c # cs) sep")
    case True
    with "2.prems" consider "x = []" | "x \<in> set (Split (drop (length sep) (c # cs)) sep)"
      by auto
    then show ?thesis
    proof cases
      case 2
      then have "set x \<subseteq> set (drop (length sep) (c # cs))" using "2.IH"(1) True by blast
      then show ?thesis using set_drop_subset by fast
    qed simp
  next
    case False
    obtain y ys where ys: "Split cs sep = y # ys" by (cases "Split cs sep") auto
    with "2.IH"(2) False have sub: "set z \<subseteq> set cs" if "z \<in> set (y # ys)" for z
      using that by auto
    from "2.prems" False ys have "x = c # y \<or> x \<in> set ys"
      by (auto split: if_splits)
    then show ?thesis using sub [of y] sub [of x] by auto
  qed
qed simp

text \<open>The line separator the answer normalisers detect: CRLF if it occurs at all, else LF.\<close>

definition lineSeparatorOf :: "string \<Rightarrow> string" where
  "lineSeparatorOf s = (if Contains s CRLF then CRLF else LF)"

lemma lineSeparatorOf_ok [simp]: "sep_ok (lineSeparatorOf s)"
  by (simp add: lineSeparatorOf_def)

lemma lineSeparatorOf_not_Nil [simp]: "lineSeparatorOf s \<noteq> []"
  by (simp add: lineSeparatorOf_def)


section \<open>White space and fields\<close>

text \<open>\<^verbatim>\<open>strings.Fields\<close>: the maximal runs of runes that are not white space.\<close>

fun fields_from :: "(int \<times> string) list \<Rightarrow> string \<Rightarrow> string list" where
  "fields_from [] cur = (if cur = [] then [] else [cur])"
| "fields_from ((r, b) # rs) cur =
     (if IsSpace r then (if cur = [] then fields_from rs [] else cur # fields_from rs [])
      else fields_from rs (cur @ b))"

definition Fields :: "string \<Rightarrow> string list" where
  "Fields s = fields_from (runes s) []"

lemma fields_from_nonempty:
  "f \<in> set (fields_from rs cur) \<Longrightarrow> f \<noteq> []"
  by (induction rs cur rule: fields_from.induct) (auto split: if_splits)

lemma Fields_nonempty: "f \<in> set (Fields s) \<Longrightarrow> f \<noteq> []"
  unfolding Fields_def by (rule fields_from_nonempty)

lemma fields_from_chars:
  "f \<in> set (fields_from rs cur) \<Longrightarrow> set f \<subseteq> set cur \<union> set (concat (map snd rs))"
proof (induction rs cur rule: fields_from.induct)
  case (2 r b rs cur)
  show ?case
  proof (cases "IsSpace r")
    case True
    with 2 show ?thesis by (cases "cur = []") auto
  next
    case False
    with 2 show ?thesis by auto
  qed
qed (auto split: if_splits)

lemma Fields_chars: "f \<in> set (Fields s) \<Longrightarrow> set f \<subseteq> set s"
  using fields_from_chars [of f "runes s" "[]"] concat_runes [of s] by (simp add: Fields_def)

text \<open>\<^verbatim>\<open>strings.TrimSpace\<close>.  The program only compares the result with the empty string.\<close>

definition TrimSpace :: "string \<Rightarrow> string" where
  "TrimSpace s =
     concat (map snd (rev (dropWhile (\<lambda>(r, b). IsSpace r)
       (rev (dropWhile (\<lambda>(r, b). IsSpace r) (runes s))))))"

text \<open>\<^verbatim>\<open>strings.Trim\<close> with an ASCII cutset, and \<^verbatim>\<open>strings.TrimRight\<close>.\<close>

definition TrimRight :: "string \<Rightarrow> string \<Rightarrow> string" where
  "TrimRight s cutset = rev (dropWhile (\<lambda>c. c \<in> set cutset) (rev s))"

definition Trim :: "string \<Rightarrow> string \<Rightarrow> string" where
  "Trim s cutset = TrimRight (dropWhile (\<lambda>c. c \<in> set cutset) s) cutset"

lemma TrimRight_last: "TrimRight s cs \<noteq> [] \<Longrightarrow> last (TrimRight s cs) \<notin> set cs"
proof -
  assume "TrimRight s cs \<noteq> []"
  then obtain y ys where y: "dropWhile (\<lambda>c. c \<in> set cs) (rev s) = y # ys"
    by (cases "dropWhile (\<lambda>c. c \<in> set cs) (rev s)") (auto simp: TrimRight_def)
  then have "y \<notin> set cs" by (rule dropWhile_hd_not)
  with y show ?thesis by (simp add: TrimRight_def)
qed

lemma TrimRight_prefix: "\<exists>t. s = TrimRight s cs @ t"
proof -
  have "rev (rev s) = rev (takeWhile (\<lambda>c. c \<in> set cs) (rev s) @ dropWhile (\<lambda>c. c \<in> set cs) (rev s))"
    by simp
  then show ?thesis unfolding rev_append TrimRight_def by auto
qed

lemma Trim_hd: "Trim s cs \<noteq> [] \<Longrightarrow> hd (Trim s cs) \<notin> set cs"
proof -
  assume ne: "Trim s cs \<noteq> []"
  let ?t = "dropWhile (\<lambda>c. c \<in> set cs) s"
  obtain u where u: "?t = Trim s cs @ u" using TrimRight_prefix [of ?t cs] by (auto simp: Trim_def)
  with ne have "hd (Trim s cs) = hd ?t" and "?t \<noteq> []" by auto
  then show ?thesis using hd_dropWhile [of "\<lambda>c. c \<in> set cs" s] by simp
qed

lemma Trim_last: "Trim s cs \<noteq> [] \<Longrightarrow> last (Trim s cs) \<notin> set cs"
  unfolding Trim_def by (rule TrimRight_last)

lemma TrimRight_subset: "set (TrimRight s cs) \<subseteq> set s"
  using TrimRight_prefix [of s cs] by (metis Un_upper1 set_append)

lemma Trim_subset: "set (Trim s cs) \<subseteq> set s"
  unfolding Trim_def using TrimRight_subset set_dropWhileD by fastforce

section \<open>Letter case\<close>

text \<open>
  \<^verbatim>\<open>strings.ToLower\<close> rune by rune.  The program compares its result with ASCII constants
  only.  Two runes beyond ASCII have an ASCII lower case (U+0130 and U+212A); every other
  one maps to a rune beyond ASCII, which no comparison can tell from the rune itself, so
  the model keeps its bytes.
\<close>

definition lower_char :: "char \<Rightarrow> char" where
  "lower_char c = (if 65 \<le> byte_of c \<and> byte_of c \<le> 90 then char_of (byte_of c + 32) else c)"

definition lower_rune :: "int \<times> string \<Rightarrow> string" where
  "lower_rune rb = (let (r, b) = rb in
     if r = 0x130 then ''i'' else if r = 0x212A then ''k''
     else if r < 0x80 then map lower_char b else b)"

definition ToLower :: "string \<Rightarrow> string" where
  "ToLower s = concat (map lower_rune (runes s))"

text \<open>\<^verbatim>\<open>strings.EqualFold\<close> against an ASCII constant: simple case folding also identifies
  U+017F with the letter s and U+212A with the letter k.\<close>

definition fold_rune :: "int \<times> string \<Rightarrow> string" where
  "fold_rune rb = (let (r, b) = rb in
     if r = 0x17F then ''s'' else if r = 0x212A then ''k''
     else if r < 0x80 then map lower_char b else b)"

definition EqualFold :: "string \<Rightarrow> string \<Rightarrow> bool" where
  "EqualFold s t = (concat (map fold_rune (runes s)) = concat (map fold_rune (runes t)))"

section \<open>Numbers\<close>

definition is_digit :: "char \<Rightarrow> bool" where
  "is_digit c = (48 \<le> byte_of c \<and> byte_of c \<le> 57)"

definition digit_val :: "char \<Rightarrow> int" where
  "digit_val c = byte_of c - 48"

definition decimal :: "string \<Rightarrow> int" where
  "decimal s = foldl (\<lambda>n c. 10 * n + digit_val c) 0 s"

text \<open>\<^verbatim>\<open>strconv.ParseUint(s, 10, bits)\<close>: the empty string, a sign or any other character that is
  not a digit is a syntax error; a value that does not fit is a range error.\<close>

definition ParseUint :: "string \<Rightarrow> nat \<Rightarrow> int option" where
  "ParseUint s bits =
     (if s = [] \<or> \<not> list_all is_digit s then None
      else if 2 ^ bits \<le> decimal s then None else Some (decimal s))"

text \<open>\<^verbatim>\<open>strconv.Atoi\<close>: one optional sign, then digits, within 64 bits.\<close>

definition Atoi :: "string \<Rightarrow> int option" where
  "Atoi s =
     (let neg = HasPrefix s ''-''; ds = (if neg \<or> HasPrefix s ''+'' then tl s else s) in
      if ds = [] \<or> \<not> list_all is_digit ds then None
      else if neg then (if decimal ds \<le> 2 ^ 63 then Some (- decimal ds) else None)
      else if decimal ds < 2 ^ 63 then Some (decimal ds) else None)"

definition ParseBool :: "string \<Rightarrow> bool option" where
  "ParseBool s =
     (if s \<in> {''1'', ''t'', ''T'', ''TRUE'', ''true'', ''True''} then Some True
      else if s \<in> {''0'', ''f'', ''F'', ''FALSE'', ''false'', ''False''} then Some False
      else None)"

lemma ParseUint_bound: "ParseUint s bits = Some n \<Longrightarrow> n < 2 ^ bits"
  by (auto simp: ParseUint_def split: if_splits)

lemma ParseUint_nonempty: "ParseUint s bits = Some n \<Longrightarrow> s \<noteq> []"
  by (auto simp: ParseUint_def split: if_splits)


lemma digit_val_nonneg: "is_digit c \<Longrightarrow> 0 \<le> digit_val c"
  by (simp add: is_digit_def digit_val_def)

lemma decimal_snoc: "decimal (s @ [c]) = 10 * decimal s + digit_val c"
  by (simp add: decimal_def)

lemma decimal_nonneg: "list_all is_digit s \<Longrightarrow> 0 \<le> decimal s"
proof (induction s rule: rev_induct)
  case Nil
  then show ?case by (simp add: decimal_def)
next
  case (snoc c s)
  then show ?case using digit_val_nonneg [of c] by (simp add: decimal_snoc)
qed

lemma ParseUint_nonneg: "ParseUint s bits = Some n \<Longrightarrow> 0 \<le> n"
  by (auto simp: ParseUint_def decimal_nonneg split: if_splits)

section \<open>Fields hold no white space\<close>

lemma DecodeRune_bytes:
  assumes "DecodeRune (c # cs) = (r, w)" "d \<in> set (take w (c # cs))" "byte_of d < 0x80"
  shows "take w (c # cs) = [d] \<and> r = byte_of d"
  using assms
  by (auto simp: DecodeRune.simps(2) Let_def is_cont_def second_ok_def
      split: list.splits if_splits)

lemma runes_ascii_byte:
  "(r, b) \<in> set (runes s) \<Longrightarrow> d \<in> set b \<Longrightarrow> byte_of d < 0x80 \<Longrightarrow> b = [d] \<and> r = byte_of d"
proof (induction s rule: runes.induct)
  case (2 c cs)
  obtain r' w where rw: "DecodeRune (c # cs) = (r', w)" by (cases "DecodeRune (c # cs)")
  show ?case
  proof (cases "(r, b) = (r', take w (c # cs))")
    case True
    then show ?thesis using DecodeRune_bytes [OF rw, of d] 2 by simp
  next
    case False
    then have "(r, b) \<in> set (runes (drop w (c # cs)))"
      using "2.prems"(1) rw by (auto simp: runes.simps(2))
    then show ?thesis using "2.IH" [of "(r', w)" r' w] rw "2.prems" by simp
  qed
qed simp

lemma fields_from_no_space:
  assumes "f \<in> set (fields_from rs cur)" "d \<in> set f"
    "\<And>r b. (r, b) \<in> set rs \<Longrightarrow> d \<in> set b \<Longrightarrow> IsSpace r" "d \<notin> set cur"
  shows False
  using assms
proof (induction rs cur rule: fields_from.induct)
  case (2 r b rs cur)
  have rest: "\<And>r b. (r, b) \<in> set rs \<Longrightarrow> d \<in> set b \<Longrightarrow> IsSpace r" using "2.prems"(3) by auto
  show ?case
  proof (cases "IsSpace r")
    case True
    with 2 rest show ?thesis by (cases "cur = []") auto
  next
    case False
    then have "d \<notin> set (cur @ b)" using "2.prems"(3) [of r b] "2.prems"(4) by auto
    with False 2 rest show ?thesis by auto
  qed
qed (auto split: if_splits)

lemma Fields_no_space:
  assumes "f \<in> set (Fields s)" "d \<in> set f" "byte_of d < 0x80"
  shows "\<not> IsSpace (byte_of d)"
proof
  assume sp: "IsSpace (byte_of d)"
  have "\<And>r b. (r, b) \<in> set (runes s) \<Longrightarrow> d \<in> set b \<Longrightarrow> IsSpace r"
    using runes_ascii_byte [of _ _ s d] assms(3) sp by blast
  then show False using fields_from_no_space [of f "runes s" "[]" d] assms by (simp add: Fields_def)
qed

section \<open>Occurrences across a boundary\<close>

lemma Contains_append_LF: "Contains (a @ b) LF \<longleftrightarrow> Contains a LF \<or> Contains b LF"
  by simp

lemma Contains_CRLF_Cons:
  "Contains (c # s) CRLF \<longleftrightarrow> (c = CR \<and> s \<noteq> [] \<and> hd s = NL) \<or> Contains s CRLF"
  by (cases s) auto

lemma Contains_append_CRLF:
  "Contains (a @ b) CRLF \<longleftrightarrow>
   Contains a CRLF \<or> Contains b CRLF \<or> (a \<noteq> [] \<and> last a = CR \<and> b \<noteq> [] \<and> hd b = NL)"
proof (induction a)
  case (Cons c a)
  then show ?case by (cases a) (auto simp: Contains_CRLF_Cons simp del: Contains.simps(2))
qed simp

lemma Contains_append_clean:
  "sep_ok sep \<Longrightarrow> \<not> Contains a sep \<Longrightarrow> \<not> Contains b sep \<Longrightarrow>
   (a = [] \<or> last a \<noteq> CR) \<or> (b = [] \<or> hd b \<noteq> NL) \<Longrightarrow> \<not> Contains (a @ b) sep"
  unfolding sep_ok_def using Contains_append_LF Contains_append_CRLF by auto

lemma Contains_prefix: "Contains a sep \<Longrightarrow> Contains (a @ b) sep"
  by (auto simp: Contains_iff) (metis append_assoc)

lemma no_NL_clean: "sep_ok sep \<Longrightarrow> NL \<notin> set s \<Longrightarrow> \<not> Contains s sep"
  by (auto simp: sep_ok_def Contains_iff)

end
