(* ===== verification/SdpLines.thy ===== *)
theory SdpLines
  imports GoStrings
begin

text \<open>
  SDP as lines: media lines, the scan for the end of a media section that every
  normaliser performs, and the decomposition of a description into its session-level
  preamble and its media sections.  The normalisers of \<^verbatim>\<open>internal/rtc/server.go\<close> work with
  line indices; their proofs relate them to functions on sections through the facts
  collected here.
\<close>

section \<open>Definitions\<close>

abbreviation isMLine :: "string \<Rightarrow> bool" where
  "isMLine l \<equiv> HasPrefix l ''m=''"

text \<open>The inner loop \<open>for sectionEnd < len(lines) && !HasPrefix(lines[sectionEnd], "m=")\<close>.\<close>

function scanSection :: "string list \<Rightarrow> nat \<Rightarrow> nat" where
  "scanSection lines i =
     (if i < length lines \<and> \<not> HasPrefix (lines ! i) ''m='' then scanSection lines (Suc i) else i)"
  by pat_completeness auto
termination
  by (relation "measure (\<lambda>(lines, i). length lines - i)") auto

declare scanSection.simps [simp del]

text \<open>The session-level preamble and the media sections of a list of lines.\<close>

definition preamble :: "string list \<Rightarrow> string list" where
  "preamble ls = takeWhile (\<lambda>l. \<not> isMLine l) ls"

definition mediaPart :: "string list \<Rightarrow> string list" where
  "mediaPart ls = dropWhile (\<lambda>l. \<not> isMLine l) ls"

function sections :: "string list \<Rightarrow> string list list" where
  "sections [] = []"
| "sections (l # ls) =
     (if isMLine l
      then (l # takeWhile (\<lambda>l. \<not> isMLine l) ls) # sections (dropWhile (\<lambda>l. \<not> isMLine l) ls)
      else sections ls)"
  by pat_completeness auto
termination
  by (relation "measure length") (auto simp: length_dropWhile_le le_imp_less_Suc)

text \<open>A list of lines that is empty or starts with a media line.\<close>

definition starts_section :: "string list \<Rightarrow> bool" where
  "starts_section ls = (ls = [] \<or> isMLine (hd ls))"

definition plain :: "string list \<Rightarrow> bool" where
  "plain ls = list_all (\<lambda>l. \<not> isMLine l) ls"

section \<open>Sections\<close>

lemma plain_simps [simp, sdp_simps]:
  "plain []" "plain (l # ls) \<longleftrightarrow> \<not> isMLine l \<and> plain ls"
  "plain (ls @ ks) \<longleftrightarrow> plain ls \<and> plain ks"
  by (auto simp: plain_def)

lemma plainD: "plain ls \<Longrightarrow> l \<in> set ls \<Longrightarrow> \<not> isMLine l"
  by (simp add: plain_def list_all_iff)

lemma starts_section_simps [simp, sdp_simps]:
  "starts_section []" "starts_section (l # ls) \<longleftrightarrow> isMLine l"
  by (auto simp: starts_section_def)

lemma plain_preamble [simp]: "plain (preamble ls)"
  by (auto simp: plain_def preamble_def list_all_iff dest: set_takeWhileD)

lemma starts_mediaPart [simp]: "starts_section (mediaPart ls)"
  unfolding starts_section_def mediaPart_def
  using hd_dropWhile [of "\<lambda>l. \<not> isMLine l" ls] by blast

lemma preamble_mediaPart: "preamble ls @ mediaPart ls = ls"
  by (simp add: preamble_def mediaPart_def)

lemma preamble_append [sdp_simps]:
  "plain pre \<Longrightarrow> starts_section ls \<Longrightarrow> preamble (pre @ ls) = pre"
  unfolding preamble_def plain_def starts_section_def
  by (rule takeWhile_append_stop) (auto simp: list_all_iff)

lemma mediaPart_append [sdp_simps]:
  "plain pre \<Longrightarrow> starts_section ls \<Longrightarrow> mediaPart (pre @ ls) = ls"
  unfolding mediaPart_def plain_def starts_section_def
  by (rule dropWhile_append_stop) (auto simp: list_all_iff)

lemma sections_plain [sdp_simps]: "plain pre \<Longrightarrow> sections (pre @ ls) = sections ls"
  by (induction pre) auto

lemma sections_Cons [sdp_simps]:
  "isMLine m \<Longrightarrow> plain body \<Longrightarrow> starts_section rest \<Longrightarrow>
   sections (m # body @ rest) = (m # body) # sections rest"
  using preamble_append [of body rest] mediaPart_append [of body rest]
  by (simp add: preamble_def mediaPart_def)

declare sections.simps(2) [simp del]

lemma sections_preamble: "sections ls = sections (mediaPart ls)"
  using sections_plain [OF plain_preamble, of ls "mediaPart ls"] by (simp add: preamble_mediaPart)

text \<open>Induction over the media sections of a description.\<close>

lemma section_induct [consumes 1, case_names Nil Section]:
  assumes "starts_section ls" and nil: "P []"
    and sec: "\<And>m body rest. isMLine m \<Longrightarrow> plain body \<Longrightarrow> starts_section rest \<Longrightarrow>
      P rest \<Longrightarrow> P (m # body @ rest)"
  shows "P ls"
  using assms(1)
proof (induction "length ls" arbitrary: ls rule: less_induct)
  case less
  show ?case
  proof (cases ls)
    case Nil
    then show ?thesis using nil by simp
  next
    case (Cons m tl)
    let ?b = "preamble tl" and ?r = "mediaPart tl"
    have tl: "tl = ?b @ ?r" by (simp add: preamble_mediaPart)
    then have "length ?r \<le> length tl" by (metis le_add2 length_append)
    then have "P ?r" using less.hyps [of ?r] Cons by simp
    moreover have "isMLine m" using less.prems Cons by simp
    ultimately have "P (m # ?b @ ?r)" by (intro sec) simp_all
    then show ?thesis using Cons tl by simp
  qed
qed

lemma concat_sections: "starts_section ls \<Longrightarrow> concat (sections ls) = ls"
  by (induction rule: section_induct) (simp_all only: sections_Cons, simp_all)

theorem lines_decompose: "preamble ls @ concat (sections ls) = ls"
  using concat_sections [OF starts_mediaPart, of ls]
  by (simp add: sections_preamble [of ls] preamble_mediaPart)

definition section_ok :: "string list \<Rightarrow> bool" where
  "section_ok sec = (case sec of [] \<Rightarrow> False | m # body \<Rightarrow> isMLine m \<and> plain body)"

lemma section_ok_simps [simp, sdp_simps]:
  "\<not> section_ok []" "section_ok (m # body) \<longleftrightarrow> isMLine m \<and> plain body"
  by (auto simp: section_ok_def)

lemma sections_ok: "list_all section_ok (sections ls)"
proof -
  have "list_all section_ok (sections (mediaPart ls))"
    by (rule section_induct [OF starts_mediaPart])
      (simp_all only: sections_Cons, simp_all)
  then show ?thesis by (simp add: sections_preamble [of ls])
qed

lemma starts_section_concat: "list_all section_ok secs \<Longrightarrow> starts_section (concat secs)"
  by (cases secs) (auto simp: section_ok_def split: list.splits)

text \<open>A description reassembled from well-formed sections has exactly those sections.\<close>

lemma sections_reassemble [sdp_simps]:
  "plain pre \<Longrightarrow> list_all section_ok secs \<Longrightarrow> sections (pre @ concat secs) = secs"
proof (induction secs)
  case Nil
  then show ?case using sections_plain [of pre "[]"] by simp
next
  case (Cons sec secs)
  then obtain m body where sec: "sec = m # body" "isMLine m" "plain body"
    by (cases sec) auto
  from Cons have "sections (concat secs) = secs"
    using sections_plain [of pre "concat secs"] by simp
  moreover have "starts_section (concat secs)" using Cons.prems by (simp add: starts_section_concat)
  ultimately show ?case
    using sections_Cons [of m body "concat secs"] Cons.prems(1) sec
      sections_plain [of pre "concat (sec # secs)"] by simp
qed

lemma preamble_reassemble [sdp_simps]:
  "plain pre \<Longrightarrow> list_all section_ok secs \<Longrightarrow> preamble (pre @ concat secs) = pre"
  by (simp add: preamble_append starts_section_concat)

section \<open>The scan for the end of a section\<close>

lemma scanSection_eq: "scanSection lines i = i + length (preamble (drop i lines))"
proof (induction lines i rule: scanSection.induct)
  case (1 lines i)
  show ?case
  proof (cases "i < length lines \<and> \<not> isMLine (lines ! i)")
    case True
    then have "drop i lines = lines ! i # drop (Suc i) lines" by (simp add: Cons_nth_drop_Suc)
    with True "1.IH" show ?thesis
      by (simp add: scanSection.simps [of lines i] preamble_def)
  next
    case False
    then have "preamble (drop i lines) = []"
      by (cases "i < length lines") (simp_all add: Cons_nth_drop_Suc [symmetric] preamble_def)
    with False show ?thesis by (auto simp: scanSection.simps [of lines i])
  qed
qed

lemma scanSection_ge: "i \<le> scanSection lines i"
  by (simp add: scanSection_eq)

lemma scanSection_le: "i \<le> length lines \<Longrightarrow> scanSection lines i \<le> length lines"
proof -
  assume "i \<le> length lines"
  moreover have "length (preamble (drop i lines)) \<le> length (drop i lines)"
    unfolding preamble_def by (rule length_takeWhile_le)
  ultimately show ?thesis by (simp add: scanSection_eq)
qed

lemma scanSection_append [sdp_simps]:
  "plain body \<Longrightarrow> starts_section rest \<Longrightarrow>
   scanSection (pre @ m # body @ rest) (Suc (length pre)) = Suc (length pre) + length body"
  by (simp add: scanSection_eq preamble_append)


section \<open>The contract of an answer rewriter\<close>

text \<open>
  The three Alexa normalisers rewrite the lines of an answer.  What the server relies on
  when it chains them: the session-level part is untouched, no section is added, dropped
  or reordered, a media line changes only if it is a video line and stays one, and no line
  separator gets into a line if the strings the normaliser inserts are free of it.
\<close>

definition mline_kept :: "string \<Rightarrow> string \<Rightarrow> bool" where
  "mline_kept a b = (a = b \<or> (HasPrefix a ''m=video '' \<and> HasPrefix b ''m=video ''))"

lemma mline_kept_refl [simp]: "mline_kept a a"
  by (simp add: mline_kept_def)

lemma mline_kept_trans: "mline_kept a b \<Longrightarrow> mline_kept b c \<Longrightarrow> mline_kept a c"
  by (auto simp: mline_kept_def)

lemma mlines_kept_filter:
  "list_all2 mline_kept xs ys \<Longrightarrow>
   filter (\<lambda>m. \<not> HasPrefix m ''m=video '') ys = filter (\<lambda>m. \<not> HasPrefix m ''m=video '') xs"
  by (induction rule: list_all2_induct) (auto simp: mline_kept_def)

definition clean :: "string \<Rightarrow> string list \<Rightarrow> bool" where
  "clean sep ls = list_all (\<lambda>l. \<not> Contains l sep) ls"

lemma clean_Split: "sep_ok sep \<Longrightarrow> clean sep (Split s sep)"
  unfolding clean_def by (rule Split_pieces_free)

locale sdp_rewriter =
  fixes rewrite :: "string list \<Rightarrow> string list"
    and inserted :: "string set"
  assumes keeps_preamble: "preamble (rewrite ls) = preamble ls"
    and keeps_mlines: "list_all2 mline_kept (map hd (sections ls)) (map hd (sections (rewrite ls)))"
    and keeps_clean: "sep_ok sep \<Longrightarrow> clean sep ls \<Longrightarrow> (\<And>l. l \<in> inserted \<Longrightarrow> \<not> Contains l sep) \<Longrightarrow>
      clean sep (rewrite ls)"
begin

lemma keeps_section_count: "length (sections (rewrite ls)) = length (sections ls)"
  using list_all2_lengthD [OF keeps_mlines [of ls]] by simp

lemma rewrite_nonempty: "ls \<noteq> [] \<Longrightarrow> rewrite ls \<noteq> []"
proof
  assume "ls \<noteq> []" and "rewrite ls = []"
  then have "preamble ls = []" and "sections ls = []"
    using keeps_preamble [of ls] keeps_section_count [of ls] by (simp_all add: preamble_def)
  then have "ls = []" using lines_decompose [of ls] by simp
  with \<open>ls \<noteq> []\<close> show False by simp
qed


text \<open>Joining the rewritten lines and splitting them again gives the rewritten lines, so a
  later stage sees exactly the lines an earlier stage produced.\<close>

lemma resplit:
  assumes "sep_ok sep" "ls \<noteq> []" "clean sep ls" "\<And>l. l \<in> inserted \<Longrightarrow> \<not> Contains l sep"
  shows "Split (Join (rewrite ls) sep) sep = rewrite ls"
  using Split_Join [OF assms(1) rewrite_nonempty [OF assms(2)]] keeps_clean [OF assms(1,3,4)]
  by (simp add: clean_def)

lemma keeps_plain_mlines:
  "filter (\<lambda>m. \<not> HasPrefix m ''m=video '') (map hd (sections (rewrite ls))) =
   filter (\<lambda>m. \<not> HasPrefix m ''m=video '') (map hd (sections ls))"
  by (rule mlines_kept_filter [OF keeps_mlines])

end

text \<open>Two rewriters in a row are a rewriter.\<close>

locale sdp_pipeline = one: sdp_rewriter rewrite1 inserted1 + two: sdp_rewriter rewrite2 inserted2
  for rewrite1 inserted1 rewrite2 inserted2
begin

sublocale both: sdp_rewriter "\<lambda>ls. rewrite2 (rewrite1 ls)" "inserted1 \<union> inserted2"
proof unfold_locales
  fix ls
  show "preamble (rewrite2 (rewrite1 ls)) = preamble ls"
    by (simp add: one.keeps_preamble two.keeps_preamble)
  show "list_all2 mline_kept (map hd (sections ls)) (map hd (sections (rewrite2 (rewrite1 ls))))"
    by (rule list_all2_trans [OF mline_kept_trans one.keeps_mlines two.keeps_mlines])
next
  fix sep ls
  assume "sep_ok sep" "clean sep ls" "\<And>l. l \<in> inserted1 \<union> inserted2 \<Longrightarrow> \<not> Contains l sep"
  then show "clean sep (rewrite2 (rewrite1 ls))"
    by (intro two.keeps_clean one.keeps_clean) auto
qed

end

end
