(* ===== verification/SdpMux.thy ===== *)
theory SdpMux
  imports SdpLines "HOL-Library.Sublist"
begin

text \<open>
  \<^verbatim>\<open>normalizeAlexaRTCPMuxCandidates\<close> (\<^verbatim>\<open>internal/rtc/server.go\<close>): from an accepted audio section
  that multiplexes RTCP, the ICE candidates of component 2 are removed.  The model keeps
  the boolean slice \<open>remove\<close> and the index loops of the code; \<^verbatim>\<open>ice.UnmarshalCandidate\<close>, which
  is not part of this repository, is the parameter \<open>unmarshalOk\<close> (true when it returns no
  error).  The main lemma shows that the index loops compute a filter on each media section.
\<close>

section \<open>Definitions\<close>

text \<open>The body of the loop over the lines of a section: whether \<open>remove[lineIndex]\<close> is set.\<close>

definition candidateRemovable :: "(string \<Rightarrow> bool) \<Rightarrow> string \<Rightarrow> bool" where
  "candidateRemovable unmarshalOk line =
     (if \<not> HasPrefix line ''a=candidate:'' then False
      else let candidateFields = Fields line in
        if length candidateFields < 2 \<or> candidateFields ! 1 \<noteq> ''2'' then False
        else if candidateFields ! 0 = ''a=candidate:'' then False
        else unmarshalOk (TrimPrefix (Join candidateFields '' '') ''a=''))"

text \<open>The media line of an accepted audio section: \<open>m=audio\<close> with a positive port.\<close>

definition acceptedAudioLine :: "string \<Rightarrow> bool" where
  "acceptedAudioLine line =
     (let mediaFields = Fields line in
      if length mediaFields < 2 \<or> mediaFields ! 0 \<noteq> ''m=audio'' then False
      else case Atoi (mediaFields ! 1) of None \<Rightarrow> False | Some port \<Rightarrow> \<not> port \<le> 0)"

definition hasRTCPMux :: "string list \<Rightarrow> nat \<Rightarrow> nat \<Rightarrow> bool" where
  "hasRTCPMux lines sectionStart sectionEnd =
     list_ex (\<lambda>lineIndex. lines ! lineIndex = ''a=rtcp-mux'') [Suc sectionStart..<sectionEnd]"

definition markCandidates ::
  "(string \<Rightarrow> bool) \<Rightarrow> string list \<Rightarrow> nat \<Rightarrow> nat \<Rightarrow> bool list \<Rightarrow> bool list" where
  "markCandidates unmarshalOk lines sectionStart sectionEnd remove =
     fold (\<lambda>lineIndex remove. if candidateRemovable unmarshalOk (lines ! lineIndex)
             then remove[lineIndex := True] else remove)
       [Suc sectionStart..<sectionEnd] remove"

text \<open>One iteration of the outer loop.\<close>

definition muxStep ::
  "(string \<Rightarrow> bool) \<Rightarrow> string list \<Rightarrow> nat \<Rightarrow> bool list \<Rightarrow> bool list" where
  "muxStep unmarshalOk lines sectionStart remove =
     (if \<not> HasPrefix (lines ! sectionStart) ''m='' then remove
      else let sectionEnd = scanSection lines (sectionStart + 1) in
        if \<not> acceptedAudioLine (lines ! sectionStart) then remove
        else if \<not> hasRTCPMux lines sectionStart sectionEnd then remove
        else markCandidates unmarshalOk lines sectionStart sectionEnd remove)"

definition muxRemove :: "(string \<Rightarrow> bool) \<Rightarrow> string list \<Rightarrow> bool list" where
  "muxRemove unmarshalOk lines =
     fold (muxStep unmarshalOk lines) [0..<length lines] (replicate (length lines) False)"

definition keepUnmarked :: "string list \<Rightarrow> bool list \<Rightarrow> string list" where
  "keepUnmarked lines remove = map fst (filter (\<lambda>(line, marked). \<not> marked) (zip lines remove))"

definition normalizeAlexaRTCPMuxCandidates :: "(string \<Rightarrow> bool) \<Rightarrow> string \<Rightarrow> string" where
  "normalizeAlexaRTCPMuxCandidates unmarshalOk answer =
     (let lineSeparator = lineSeparatorOf answer;
          lines = Split answer lineSeparator;
          remove = muxRemove unmarshalOk lines
      in Join (keepUnmarked lines remove) lineSeparator)"

section \<open>Reference on sections\<close>

text \<open>What the routine means: in an accepted audio section with the attribute
  \<open>a=rtcp-mux\<close> the removable candidates are filtered out; every other section stays.\<close>

definition muxEligible :: "string list \<Rightarrow> bool" where
  "muxEligible sec = (acceptedAudioLine (hd sec) \<and> ''a=rtcp-mux'' \<in> set (tl sec))"

definition muxSection :: "(string \<Rightarrow> bool) \<Rightarrow> string list \<Rightarrow> string list" where
  "muxSection unmarshalOk sec =
     (if muxEligible sec
      then hd sec # filter (\<lambda>l. \<not> candidateRemovable unmarshalOk l) (tl sec) else sec)"

definition muxLines :: "(string \<Rightarrow> bool) \<Rightarrow> string list \<Rightarrow> string list" where
  "muxLines unmarshalOk lines =
     preamble lines @ concat (map (muxSection unmarshalOk) (sections lines))"

definition sectionMarks :: "(string \<Rightarrow> bool) \<Rightarrow> string list \<Rightarrow> bool list" where
  "sectionMarks unmarshalOk sec =
     False # map (\<lambda>l. muxEligible sec \<and> candidateRemovable unmarshalOk l) (tl sec)"

section \<open>The index loops mark the removable lines of the eligible sections\<close>

lemma fold_mark_range:
  "fold (\<lambda>i r. if p (xs ! i) then r[i := True] else r)
     [length as..<length as + length bs] (rs @ replicate (length bs) False @ ts) =
   rs @ map p bs @ ts"
  if "xs = as @ bs @ cs" and "length rs = length as"
  using that
proof (induction bs arbitrary: as rs)
  case (Cons b bs)
  let ?rs = "rs @ [p b]"
  have step: "(if p (xs ! length as)
      then (rs @ replicate (length (b # bs)) False @ ts)[length as := True]
      else rs @ replicate (length (b # bs)) False @ ts) = ?rs @ replicate (length bs) False @ ts"
    using Cons.prems by (auto simp: nth_append list_update_append)
  have "fold (\<lambda>i r. if p (xs ! i) then r[i := True] else r)
      [length (as @ [b])..<length (as @ [b]) + length bs] (?rs @ replicate (length bs) False @ ts) =
      ?rs @ map p bs @ ts"
    using Cons.prems by (intro Cons.IH) auto
  moreover have "[length as..<length as + length (b # bs)] =
      length as # [length (as @ [b])..<length (as @ [b]) + length bs]"
    by (simp add: upt_conv_Cons del: upt_Suc)
  ultimately show ?case by (simp only: fold_simps step) simp
qed simp

lemma markCandidates_append:
  assumes "length rs = Suc (length pre)"
  shows "markCandidates U (pre @ m # body @ rest) (length pre) (Suc (length pre) + length body)
      (rs @ replicate (length body) False @ ts) =
    rs @ map (candidateRemovable U) body @ ts"
  unfolding markCandidates_def
  using fold_mark_range [where as = "pre @ [m]" and bs = body and cs = rest and rs = rs
      and p = "candidateRemovable U" and ts = ts and xs = "pre @ m # body @ rest"] assms
  by simp

lemma hasRTCPMux_append:
  "hasRTCPMux (pre @ m # body @ rest) (length pre) (Suc (length pre) + length body) \<longleftrightarrow>
   ''a=rtcp-mux'' \<in> set body"
proof -
  have "map ((!) (pre @ m # body @ rest)) [Suc (length pre)..<Suc (length pre) + length body] = body"
    by (rule nth_equalityI) (auto simp: nth_append simp del: upt_Suc)
  moreover have "hasRTCPMux (pre @ m # body @ rest) (length pre) (Suc (length pre) + length body) =
      list_ex (\<lambda>l. l = ''a=rtcp-mux'')
        (map ((!) (pre @ m # body @ rest)) [Suc (length pre)..<Suc (length pre) + length body])"
    by (simp only: hasRTCPMux_def list_ex_map)
  ultimately show ?thesis by (auto simp: list_ex_iff)
qed

lemma muxStep_section:
  assumes "isMLine m" "plain body" "starts_section rest" "length rs = Suc (length pre)"
  shows "muxStep U (pre @ m # body @ rest) (length pre) (rs @ replicate (length body) False @ ts) =
    rs @ tl (sectionMarks U (m # body)) @ ts"
proof -
  have no: "replicate (length body) False = map (\<lambda>l. False) body"
    by (simp add: map_replicate_const)
  show ?thesis
    using assms markCandidates_append [of rs pre U m body rest ts] hasRTCPMux_append [of pre m body rest]
    by (auto simp: muxStep_def Let_def scanSection_append sectionMarks_def muxEligible_def no)
qed

lemma muxStep_plain: "\<not> isMLine (lines ! i) \<Longrightarrow> muxStep U lines i remove = remove"
  by (simp add: muxStep_def)

lemma fold_muxStep_plain:
  "plain body \<Longrightarrow> fold (muxStep U (pre @ body @ rest)) [length pre..<length pre + length body] r = r"
proof (induction body arbitrary: pre)
  case (Cons b body)
  have "fold (muxStep U ((pre @ [b]) @ body @ rest))
      [length (pre @ [b])..<length (pre @ [b]) + length body] r = r"
    using Cons.prems by (intro Cons.IH) simp
  moreover have "muxStep U (pre @ (b # body) @ rest) (length pre) r = r"
    using Cons.prems by (intro muxStep_plain) simp
  ultimately show ?case by (simp add: upt_conv_Cons [of "length pre"] del: upt_Suc)
qed simp

lemma fold_muxStep_sections:
  assumes "starts_section ls" "length rs = length pre"
  shows "fold (muxStep U (pre @ ls)) [length pre..<length pre + length ls]
      (rs @ replicate (length ls) False) = rs @ concat (map (sectionMarks U) (sections ls))"
  using assms
proof (induction arbitrary: pre rs rule: section_induct)
  case (Section m body rest)
  let ?L = "pre @ m # body @ rest" and ?R = "replicate (length rest) False"
  let ?n = "length pre"
  have idx: "[?n..<?n + length (m # body @ rest)] = ?n # [Suc ?n..<Suc ?n + length body] @
      [Suc ?n + length body..<Suc ?n + length body + length rest]"
    using upt_add_eq_append [of "Suc ?n" "Suc ?n + length body" "length rest"]
    by (simp add: upt_conv_Cons add.assoc del: upt_Suc)
  have init: "rs @ replicate (length (m # body @ rest)) False =
      (rs @ [False]) @ replicate (length body) False @ ?R"
    by (simp add: replicate_add)
  have first: "muxStep U ?L ?n ((rs @ [False]) @ replicate (length body) False @ ?R) =
      (rs @ sectionMarks U (m # body)) @ ?R"
    using muxStep_section [of m body rest "rs @ [False]" pre U ?R] Section
    by (simp add: sectionMarks_def)
  have body: "fold (muxStep U ?L) [Suc ?n..<Suc ?n + length body] r = r" for r
    using fold_muxStep_plain [of body U "pre @ [m]" rest r] Section.hyps by simp
  have len: "length (rs @ sectionMarks U (m # body)) = length (pre @ m # body)"
    using Section.prems by (simp add: sectionMarks_def)
  have rest: "fold (muxStep U ?L) [Suc ?n + length body..<Suc ?n + length body + length rest]
      ((rs @ sectionMarks U (m # body)) @ ?R) =
      (rs @ sectionMarks U (m # body)) @ concat (map (sectionMarks U) (sections rest))"
    using Section.IH [OF len] by simp
  show ?case
    unfolding idx init fold_simps fold_append o_def first body rest
    using Section.hyps by (simp add: sections_Cons)
qed simp

lemma muxRemove_eq:
  "muxRemove U lines =
   replicate (length (preamble lines)) False @ concat (map (sectionMarks U) (sections lines))"
proof -
  let ?p = "preamble lines" and ?m = "mediaPart lines"
  have len: "length lines = length ?p + length ?m"
    using arg_cong [OF preamble_mediaPart [of lines], of length] by simp
  have idx: "[0..<length lines] = [0..<length ?p] @ [length ?p..<length ?p + length ?m]"
    unfolding len by (rule upt_add_eq_append) simp
  have "fold (muxStep U lines) [0..<length ?p] r = r" for r
    using fold_muxStep_plain [of ?p U "[]" ?m r] by (simp add: preamble_mediaPart)
  moreover have "fold (muxStep U lines) [length ?p..<length ?p + length ?m]
      (replicate (length ?p) False @ replicate (length ?m) False) =
      replicate (length ?p) False @ concat (map (sectionMarks U) (sections ?m))"
    using fold_muxStep_sections [of ?m "replicate (length ?p) False" ?p U]
    by (simp add: preamble_mediaPart)
  moreover have "replicate (length lines) False =
      replicate (length ?p) False @ replicate (length ?m) False"
    unfolding len by (rule replicate_add)
  ultimately show ?thesis
    by (simp add: muxRemove_def idx sections_preamble [of lines])
qed


section \<open>Equivalence with the reference\<close>

lemma keepUnmarked_append:
  "length xs = length rs \<Longrightarrow> keepUnmarked (xs @ ys) (rs @ ss) = keepUnmarked xs rs @ keepUnmarked ys ss"
  by (simp add: keepUnmarked_def)

lemma keepUnmarked_Cons:
  "keepUnmarked (x # xs) (r # rs) = (if r then keepUnmarked xs rs else x # keepUnmarked xs rs)"
  by (simp add: keepUnmarked_def)

lemma keepUnmarked_filter: "keepUnmarked xs (map p xs) = filter (\<lambda>x. \<not> p x) xs"
  by (induction xs) (simp_all add: keepUnmarked_Cons, simp add: keepUnmarked_def)

lemma keepUnmarked_none: "keepUnmarked xs (replicate (length xs) False) = xs"
  using keepUnmarked_filter [of xs "\<lambda>_. False"] by (simp add: map_replicate_const)

lemma keepUnmarked_section:
  "section_ok sec \<Longrightarrow> keepUnmarked sec (sectionMarks U sec) = muxSection U sec"
  by (cases sec) (auto simp: sectionMarks_def muxSection_def keepUnmarked_Cons keepUnmarked_filter)

lemma keepUnmarked_sections:
  "list_all section_ok secs \<Longrightarrow>
   keepUnmarked (concat secs) (concat (map (sectionMarks U) secs)) = concat (map (muxSection U) secs)"
proof (induction secs)
  case (Cons sec secs)
  then have "length sec = length (sectionMarks U sec)"
    by (cases sec) (simp_all add: sectionMarks_def)
  with Cons show ?case by (simp add: keepUnmarked_append keepUnmarked_section)
qed (simp add: keepUnmarked_def)

lemma keepUnmarked_muxRemove: "keepUnmarked lines (muxRemove U lines) = muxLines U lines"
proof -
  have "keepUnmarked (preamble lines @ concat (sections lines))
      (replicate (length (preamble lines)) False @ concat (map (sectionMarks U) (sections lines))) =
      muxLines U lines"
    by (simp add: keepUnmarked_append keepUnmarked_none keepUnmarked_sections sections_ok muxLines_def)
  then show ?thesis by (simp add: muxRemove_eq lines_decompose)
qed

lemma normalizeAlexaRTCPMuxCandidates_eq:
  "normalizeAlexaRTCPMuxCandidates U answer =
   Join (muxLines U (Split answer (lineSeparatorOf answer))) (lineSeparatorOf answer)"
  by (simp add: normalizeAlexaRTCPMuxCandidates_def Let_def keepUnmarked_muxRemove)

section \<open>The result, section by section\<close>

lemma muxSection_ok: "section_ok sec \<Longrightarrow> section_ok (muxSection U sec)"
  by (cases sec) (auto simp: muxSection_def plain_def list_all_iff)

lemma muxSections_ok: "list_all section_ok (map (muxSection U) (sections lines))"
  using sections_ok [of lines] by (auto simp: list_all_iff intro: muxSection_ok)

lemma sections_muxLines: "sections (muxLines U lines) = map (muxSection U) (sections lines)"
  unfolding muxLines_def by (rule sections_reassemble [OF plain_preamble muxSections_ok])

lemma preamble_muxLines: "preamble (muxLines U lines) = preamble lines"
  unfolding muxLines_def by (rule preamble_reassemble [OF plain_preamble muxSections_ok])

lemma muxEligible_muxSection: "muxEligible sec \<Longrightarrow> muxEligible (muxSection U sec)"
proof -
  assume "muxEligible sec"
  moreover have "\<not> candidateRemovable U ''a=rtcp-mux''" by (simp add: candidateRemovable_def)
  ultimately show ?thesis by (simp add: muxEligible_def muxSection_def)
qed

lemma muxSection_idem: "muxSection U (muxSection U sec) = muxSection U sec"
proof (cases "muxEligible sec")
  case True
  then show ?thesis using muxEligible_muxSection [OF True, of U] by (simp add: muxSection_def)
qed (simp add: muxSection_def)

lemma muxLines_idem: "muxLines U (muxLines U lines) = muxLines U lines"
  by (simp add: muxLines_def [of U "muxLines U lines"] preamble_muxLines sections_muxLines o_def
      muxSection_idem) (simp add: muxLines_def)

lemma set_muxLines: "set (muxLines U lines) \<subseteq> set lines"
proof -
  have "set (muxSection U sec) \<subseteq> set sec" if "section_ok sec" for sec
    using that by (cases sec) (auto simp: muxSection_def)
  then have "set (concat (map (muxSection U) (sections lines))) \<subseteq> set (concat (sections lines))"
    using sections_ok [of lines] by (fastforce simp: list_all_iff)
  then have "set (muxLines U lines) \<subseteq> set (preamble lines @ concat (sections lines))"
    by (auto simp: muxLines_def)
  then show ?thesis by (simp only: lines_decompose)
qed

lemma muxSection_hd: "hd (muxSection U sec) = hd sec"
  by (simp add: muxSection_def)


interpretation mux: sdp_rewriter "muxLines U" "{}"
  for U
proof unfold_locales
  fix ls
  show "preamble (muxLines U ls) = preamble ls" by (rule preamble_muxLines)
  show "list_all2 mline_kept (map hd (sections ls)) (map hd (sections (muxLines U ls)))"
    by (simp add: sections_muxLines o_def muxSection_hd list.rel_refl mline_kept_def)
next
  fix sep ls
  assume "clean sep ls"
  then show "clean sep (muxLines U ls)"
    using set_muxLines [of U ls] by (auto simp: clean_def list_all_iff)
qed

section \<open>Running the normaliser twice\<close>

text \<open>The separator is detected anew on each run, so idempotence needs that removing lines never
  changes the detected separator.\<close>

lemma Contains_Join_LF:
  "list_all (\<lambda>x. NL \<notin> set x) xs \<Longrightarrow>
   Contains (Join xs LF) CRLF \<longleftrightarrow> (\<exists>x \<in> set (butlast xs). x \<noteq> [] \<and> last x = CR)"
proof (induction xs LF rule: Join.induct)
  case (2 x)
  then show ?case using no_NL_clean [of CRLF x] by simp
next
  case (3 x y ys)
  have "Contains (x @ NL # s) CRLF \<longleftrightarrow> (x \<noteq> [] \<and> last x = CR) \<or> Contains s CRLF"
    if "NL \<notin> set x" for s
    using that no_NL_clean [of CRLF x]
    by (auto simp: Contains_append_CRLF Contains_CRLF_Cons simp del: Contains.simps(2))
  with 3 show ?case by auto
qed simp

lemma butlast_subseq: "subseq ys xs \<Longrightarrow> set (butlast ys) \<subseteq> set (butlast xs)"
proof (induction rule: list_emb.induct)
  case (list_emb_Cons xs ys y)
  then show ?case by (auto dest: in_set_butlastD)
next
  case (list_emb_Cons2 x y xs ys)
  then show ?case by (cases "xs = []") auto
qed simp

lemma muxSection_subseq: "section_ok sec \<Longrightarrow> subseq (muxSection U sec) sec"
  by (cases sec) (auto simp: muxSection_def)

lemma muxLines_subseq: "subseq (muxLines U ls) ls"
proof -
  have "subseq (concat (map (muxSection U) secs)) (concat secs)" if "list_all section_ok secs" for secs
    using that by (induction secs) (auto intro: list_emb_append_mono muxSection_subseq)
  then have "subseq (muxLines U ls) (preamble ls @ concat (sections ls))"
    unfolding muxLines_def by (intro list_emb_append_mono) (simp_all add: sections_ok)
  then show ?thesis by (simp only: lines_decompose)
qed

lemma muxLines_two:
  assumes "muxLines U ls \<noteq> ls"
  shows "2 \<le> length (muxLines U ls)"
proof -
  have "\<exists>sec \<in> set (sections ls). muxEligible sec"
  proof (rule ccontr)
    assume "\<not> (\<exists>sec \<in> set (sections ls). muxEligible sec)"
    then have "map (muxSection U) (sections ls) = sections ls" by (intro map_idI) (simp add: muxSection_def)
    with assms show False by (simp add: muxLines_def lines_decompose)
  qed
  then obtain sec where sec: "sec \<in> set (sections ls)" "muxEligible (muxSection U sec)"
    using muxEligible_muxSection by blast
  then have "2 \<le> length (muxSection U sec)"
    by (cases "muxSection U sec"; cases "tl (muxSection U sec)") (auto simp: muxEligible_def)
  also have "\<dots> \<le> length (concat (map (muxSection U) (sections ls)))"
    using sec(1) by (auto simp: length_concat intro!: member_le_sum_list)
  finally show ?thesis by (simp add: muxLines_def)
qed

lemma lineSeparatorOf_mux:
  "lineSeparatorOf (normalizeAlexaRTCPMuxCandidates U answer) = lineSeparatorOf answer"
proof (cases "muxLines U (Split answer (lineSeparatorOf answer)) = Split answer (lineSeparatorOf answer)")
  case True
  then show ?thesis by (simp add: normalizeAlexaRTCPMuxCandidates_eq Join_Split)
next
  case changed: False
  let ?ls = "muxLines U (Split answer (lineSeparatorOf answer))"
  show ?thesis
  proof (cases "Contains answer CRLF")
    case True
    obtain x y ys where "?ls = x # y # ys"
      using muxLines_two [OF changed] by (cases ?ls; cases "tl ?ls") auto
    moreover have "Contains (x @ CRLF @ s) CRLF" for s by (auto simp: Contains_iff)
    ultimately show ?thesis using True
      by (simp add: normalizeAlexaRTCPMuxCandidates_eq lineSeparatorOf_def)
  next
    case False
    then have nl: "list_all (\<lambda>x. NL \<notin> set x) (Split answer LF)" using Split_pieces_free [of LF answer] by simp
    then have "list_all (\<lambda>x. NL \<notin> set x) (muxLines U (Split answer LF))"
      using set_muxLines [of U "Split answer LF"] by (auto simp: list_all_iff)
    moreover have "\<not> (\<exists>x \<in> set (butlast (Split answer LF)). x \<noteq> [] \<and> last x = CR)"
      using False Contains_Join_LF [OF nl] by (simp add: Join_Split)
    ultimately show ?thesis
      using False butlast_subseq [OF muxLines_subseq [of U "Split answer LF"]] Contains_Join_LF
      by (auto simp: normalizeAlexaRTCPMuxCandidates_eq lineSeparatorOf_def subset_iff)
  qed
qed

text \<open>Running the RTCP candidate normaliser on its own output changes nothing, for every
  answer, also one with mixed line endings.\<close>

lemma normalizeAlexaRTCPMuxCandidates_idem:
  "normalizeAlexaRTCPMuxCandidates U (normalizeAlexaRTCPMuxCandidates U answer) =
   normalizeAlexaRTCPMuxCandidates U answer"
proof -
  let ?sep = "lineSeparatorOf answer"
  have "Split (Join (muxLines U (Split answer ?sep)) ?sep) ?sep = muxLines U (Split answer ?sep)"
    by (rule mux.resplit) (simp_all add: clean_Split)
  then show ?thesis
    by (simp add: normalizeAlexaRTCPMuxCandidates_eq [of U "normalizeAlexaRTCPMuxCandidates U answer"]
        lineSeparatorOf_mux) (simp add: normalizeAlexaRTCPMuxCandidates_eq muxLines_idem)
qed

end
