(* ===== verification/SdpMid.thy ===== *)
theory SdpMid
  imports SdpLines
begin

text \<open>
  \<^verbatim>\<open>normalizeAlexaRejectedMediaMIDs\<close> and its helpers (\<^verbatim>\<open>internal/rtc/server.go\<close>): a rejected
  section of the answer gets back the \<open>a=mid:\<close> line of the offer's section at the same
  position.  The model follows the code's index arithmetic; the result of
  \<^verbatim>\<open>alexaRejectedMediaMIDInsertAt\<close> is an option, \<open>None\<close> for the code's \<open>-1\<close>.  The lemmas
  show that the routine inserts at most one line per section and what that line is.
\<close>

section \<open>Definitions\<close>

record alexaOfferMediaSection =
  mediaType :: string
  mid :: string

definition alexaMediaLineFields :: "string \<Rightarrow> string list option" where
  "alexaMediaLineFields line =
     (let fields = Fields line in
      if length fields < 4 \<or> \<not> HasPrefix (fields ! 0) ''m='' \<or> TrimPrefix (fields ! 0) ''m='' = ''''
      then None
      else let portParts = Split (fields ! 1) ''/'' in
        if length portParts = 0 \<or> 2 < length portParts \<or> portParts ! 0 = '''' then None
        else if ParseUint (portParts ! 0) 16 = None then None
        else if length portParts = 2 \<and>
          (case ParseUint (portParts ! 1) 32 of None \<Rightarrow> True | Some portCount \<Rightarrow> portCount = 0)
        then None
        else Some fields)"

text \<open>The loop that looks for the first \<open>a=mid:\<close> line between two indices.\<close>

definition firstMid :: "string list \<Rightarrow> nat \<Rightarrow> nat \<Rightarrow> string" where
  "firstMid lines from to =
     (case find (\<lambda>i. HasPrefix (lines ! i) ''a=mid:'') [from..<to] of
        None \<Rightarrow> '''' | Some i \<Rightarrow> TrimPrefix (lines ! i) ''a=mid:'')"

definition lineMediaType :: "string \<Rightarrow> string" where
  "lineMediaType line =
     (case alexaMediaLineFields line of
        None \<Rightarrow> '''' | Some fs \<Rightarrow> TrimPrefix (fs ! 0) ''m='')"

function offerSectionsFrom :: "string list \<Rightarrow> nat \<Rightarrow> alexaOfferMediaSection list" where
  "offerSectionsFrom lines lineIndex =
     (if lineIndex < length lines then
        if \<not> HasPrefix (lines ! lineIndex) ''m='' then offerSectionsFrom lines (lineIndex + 1)
        else let sectionEnd = scanSection lines (lineIndex + 1) in
          \<lparr>mediaType = lineMediaType (lines ! lineIndex),
           mid = firstMid lines (lineIndex + 1) sectionEnd\<rparr>
          # offerSectionsFrom lines (sectionEnd - 1 + 1)
      else [])"
  by pat_completeness auto
termination
proof (relation "measure (\<lambda>(lines, i). length lines - i)")
  fix lines i x
  assume "i < length lines" "x = scanSection lines (i + 1)"
  then show "((lines, x - 1 + 1), (lines, i)) \<in> measure (\<lambda>(lines, i). length lines - i)"
    using scanSection_ge [of "i + 1" lines] by simp
qed auto

declare offerSectionsFrom.simps [simp del]

definition alexaOfferMediaSections :: "string \<Rightarrow> alexaOfferMediaSection list" where
  "alexaOfferMediaSections offer =
     offerSectionsFrom (Split offer (lineSeparatorOf offer)) 0"

definition alexaRejectedMediaMIDInsertAt ::
  "string list \<Rightarrow> nat \<Rightarrow> alexaOfferMediaSection list \<Rightarrow> nat option" where
  "alexaRejectedMediaMIDInsertAt sec sectionIndex offerSections =
     (if sec = [] \<or> length offerSections \<le> sectionIndex then None
      else case alexaMediaLineFields (sec ! 0) of None \<Rightarrow> None | Some answerFields \<Rightarrow>
        if answerFields ! 1 \<noteq> ''0'' then None
        else let answerMediaType = TrimPrefix (answerFields ! 0) ''m='';
                 offerSection = offerSections ! sectionIndex in
          if answerMediaType = '''' \<or> answerMediaType \<noteq> mediaType offerSection
             \<or> mid offerSection = '''' then None
          else if list_ex (\<lambda>i. HasPrefix (sec ! i) ''a=mid:'') [1..<length sec] then None
          else case find (\<lambda>i. HasPrefix (sec ! i) ''a='') [1..<length sec] of
            Some i \<Rightarrow> Some i
          | None \<Rightarrow>
              let insertAt = length sec in
              if 1 < insertAt \<and> sec ! (insertAt - 1) = '''' then Some (insertAt - 1)
              else Some insertAt)"

text \<open>The loop over the sections of the answer, each a slice between two section starts.\<close>

definition midSlice :: "string list \<Rightarrow> nat list \<Rightarrow> nat \<Rightarrow> string list" where
  "midSlice lines sectionStarts sectionIndex =
     (let sectionStart = sectionStarts ! sectionIndex;
          sectionEnd = (if sectionIndex + 1 < length sectionStarts
            then sectionStarts ! (sectionIndex + 1) else length lines)
      in drop sectionStart (take sectionEnd lines))"

definition midSection ::
  "alexaOfferMediaSection list \<Rightarrow> nat \<Rightarrow> string list \<Rightarrow> string list" where
  "midSection offerSections sectionIndex sec =
     (case alexaRejectedMediaMIDInsertAt sec sectionIndex offerSections of
        None \<Rightarrow> sec
      | Some insertAt \<Rightarrow>
          take insertAt sec @ (''a=mid:'' @ mid (offerSections ! sectionIndex)) # drop insertAt sec)"

definition normalizeAlexaRejectedMediaMIDs :: "string \<Rightarrow> string \<Rightarrow> string" where
  "normalizeAlexaRejectedMediaMIDs offer answer =
     (let offerSections = alexaOfferMediaSections offer in
      if length offerSections = 0 then answer
      else let lineSeparator = lineSeparatorOf answer;
               lines = Split answer lineSeparator;
               sectionStarts = filter (\<lambda>i. HasPrefix (lines ! i) ''m='') [0..<length lines] in
        if length sectionStarts = 0 then answer
        else Join (take (sectionStarts ! 0) lines @
               concat (map (\<lambda>k. midSection offerSections k (midSlice lines sectionStarts k))
                 [0..<length sectionStarts])) lineSeparator)"

section \<open>Reference on sections\<close>

definition midLines :: "alexaOfferMediaSection list \<Rightarrow> string list \<Rightarrow> string list" where
  "midLines offers lines =
     preamble lines @ concat (map (\<lambda>(k, sec). midSection offers k sec) (enumerate 0 (sections lines)))"

definition sectionMid :: "string list \<Rightarrow> string" where
  "sectionMid body =
     (case find (\<lambda>l. HasPrefix l ''a=mid:'') body of
        None \<Rightarrow> '''' | Some l \<Rightarrow> TrimPrefix l ''a=mid:'')"

definition offerSection :: "string list \<Rightarrow> alexaOfferMediaSection" where
  "offerSection sec = \<lparr>mediaType = lineMediaType (hd sec), mid = sectionMid (tl sec)\<rparr>"

section \<open>The index loops follow the sections\<close>

lemma find_map: "map_option f (find (P \<circ> f) xs) = find P (map f xs)"
  by (induction xs) auto

lemma firstMid_append:
  "firstMid (pre @ body @ rest) (length pre) (length pre + length body) = sectionMid body"
proof -
  let ?xs = "pre @ body @ rest"
  have "find (\<lambda>l. HasPrefix l ''a=mid:'') body =
      map_option ((!) ?xs) (find ((\<lambda>l. HasPrefix l ''a=mid:'') \<circ> (!) ?xs) [length pre..<length pre + length body])"
    by (subst find_map) (simp only: map_nth_middle)
  then show ?thesis
    by (simp add: sectionMid_def firstMid_def o_def split: option.splits)
qed

lemma offerSectionsFrom_plain:
  "plain body \<Longrightarrow>
   offerSectionsFrom (pre @ body @ rest) (length pre) =
   offerSectionsFrom (pre @ body @ rest) (length pre + length body)"
proof (induction body arbitrary: pre)
  case (Cons b body)
  have "offerSectionsFrom (pre @ (b # body) @ rest) (length pre) =
      offerSectionsFrom ((pre @ [b]) @ body @ rest) (length (pre @ [b]))"
    using Cons.prems by (subst offerSectionsFrom.simps) simp
  also have "\<dots> = offerSectionsFrom ((pre @ [b]) @ body @ rest) (length (pre @ [b]) + length body)"
    using Cons.prems by (intro Cons.IH) simp
  finally show ?case by simp
qed simp

lemma offerSectionsFrom_sections:
  "starts_section ls \<Longrightarrow> offerSectionsFrom (pre @ ls) (length pre) = map offerSection (sections ls)"
proof (induction arbitrary: pre rule: section_induct)
  case Nil
  then show ?case by (simp add: offerSectionsFrom.simps)
next
  case (Section m body rest)
  have "firstMid (pre @ m # body @ rest) (Suc (length pre)) (Suc (length pre + length body)) =
      sectionMid body"
    using firstMid_append [of "pre @ [m]" body rest] by simp
  moreover have "offerSectionsFrom (pre @ m # body @ rest) (Suc (length pre + length body)) =
      map offerSection (sections rest)"
    using Section.IH [of "pre @ m # body"] by simp
  ultimately show ?case using Section.hyps
    by (subst offerSectionsFrom.simps)
      (simp add: scanSection_append sections_Cons offerSection_def)
qed

lemma alexaOfferMediaSections_eq:
  "alexaOfferMediaSections offer =
   map offerSection (sections (Split offer (lineSeparatorOf offer)))"
proof -
  let ?L = "Split offer (lineSeparatorOf offer)"
  have "offerSectionsFrom (preamble ?L @ mediaPart ?L) 0 =
      offerSectionsFrom (preamble ?L @ mediaPart ?L) (length (preamble ?L))"
    using offerSectionsFrom_plain [OF plain_preamble, of "[]" ?L "mediaPart ?L"] by simp
  then show ?thesis
    using offerSectionsFrom_sections [OF starts_mediaPart, of "preamble ?L" ?L]
    by (simp add: alexaOfferMediaSections_def preamble_mediaPart sections_preamble [of ?L])
qed


fun slices :: "string list \<Rightarrow> nat list \<Rightarrow> string list list" where
  "slices lines [] = []"
| "slices lines [s] = [drop s lines]"
| "slices lines (s # t # ss) = drop s (take t lines) # slices lines (t # ss)"

lemma midSlice_Cons_Suc: "midSlice lines (s # ss) (Suc k) = midSlice lines ss k"
  by (simp add: midSlice_def)

lemma midSlice_slices: "map (midSlice lines ss) [0..<length ss] = slices lines ss"
proof (induction lines ss rule: slices.induct)
  case (2 lines s)
  then show ?case by (simp add: midSlice_def)
next
  case (3 lines s t ss)
  have "map (midSlice lines (s # t # ss)) [0..<length (s # t # ss)] =
      midSlice lines (s # t # ss) 0 # map (\<lambda>k. midSlice lines (s # t # ss) (Suc k)) [0..<length (t # ss)]"
    by (simp only: length_Cons map_upt_Suc)
  then show ?case using 3 by (simp add: midSlice_Cons_Suc midSlice_def [of _ _ 0] del: upt_Suc)
qed simp

lemma starts_plain:
  "plain body \<Longrightarrow> filter (\<lambda>i. isMLine ((pre @ body @ rest) ! i)) [length pre..<length pre + length body] = []"
  by (auto simp: filter_empty_conv nth_append plain_def list_all_iff)

lemma starts_sections:
  "starts_section ls \<Longrightarrow>
   slices (pre @ ls) (filter (\<lambda>i. isMLine ((pre @ ls) ! i)) [length pre..<length pre + length ls])
     = sections ls \<and>
   (ls \<noteq> [] \<longrightarrow> hd (filter (\<lambda>i. isMLine ((pre @ ls) ! i)) [length pre..<length pre + length ls])
     = length pre \<and> filter (\<lambda>i. isMLine ((pre @ ls) ! i)) [length pre..<length pre + length ls] \<noteq> [])"
proof (induction arbitrary: pre rule: section_induct)
  case (Section m body rest)
  let ?L = "pre @ m # body @ rest" and ?n = "length pre"
  let ?F = "filter (\<lambda>i. isMLine (?L ! i)) [Suc ?n + length body..<Suc ?n + length body + length rest]"
  have idx: "[?n..<?n + length (m # body @ rest)] = ?n # [Suc ?n..<Suc ?n + length body] @
      [Suc ?n + length body..<Suc ?n + length body + length rest]"
    using upt_add_eq_append [of "Suc ?n" "Suc ?n + length body" "length rest"]
    by (simp add: upt_conv_Cons add.assoc del: upt_Suc)
  have F: "filter (\<lambda>i. isMLine (?L ! i)) [?n..<?n + length (m # body @ rest)] = ?n # ?F"
    unfolding idx using starts_plain [of body "pre @ [m]" rest] Section.hyps(1,2) by simp
  have IH: "slices ?L ?F = sections rest"
    "rest \<noteq> [] \<Longrightarrow> hd ?F = Suc ?n + length body \<and> ?F \<noteq> []"
    using Section.IH [of "pre @ m # body"] by simp_all
  have "slices ?L (?n # ?F) = sections (m # body @ rest)"
  proof (cases rest)
    case Nil
    then show ?thesis using Section.hyps sections_Cons [of m body "[]"] by simp
  next
    case (Cons r rs)
    with IH(2) obtain fs where fs: "?F = (Suc ?n + length body) # fs"
      by (metis list.distinct(1) list.exhaust_sel)
    show ?thesis using IH(1) Section.hyps unfolding fs by (simp add: sections_Cons)
  qed
  then show ?case unfolding F by simp
qed simp

lemma filter_upt_prefix:
  "plain pre \<Longrightarrow> filter (\<lambda>i. isMLine ((pre @ ls) ! i)) [0..<length (pre @ ls)] =
   filter (\<lambda>i. isMLine ((pre @ ls) ! i)) [length pre..<length pre + length ls]"
  using starts_plain [of pre "[]" ls] upt_add_eq_append [of 0 "length pre" "length ls"] by simp

definition sectionStarts :: "string list \<Rightarrow> nat list" where
  "sectionStarts lines = filter (\<lambda>i. isMLine (lines ! i)) [0..<length lines]"

lemma sectionStarts_media:
  "sectionStarts lines = filter (\<lambda>i. isMLine (lines ! i))
     [length (preamble lines)..<length (preamble lines) + length (mediaPart lines)]"
  using filter_upt_prefix [OF plain_preamble, of lines "mediaPart lines"]
  by (simp add: preamble_mediaPart sectionStarts_def)

lemma slices_sectionStarts: "slices lines (sectionStarts lines) = sections lines"
  using starts_sections [OF starts_mediaPart, of "preamble lines" lines]
  by (simp add: sectionStarts_media [symmetric] preamble_mediaPart sections_preamble [of lines])

lemma sectionStarts_hd:
  assumes "sectionStarts lines \<noteq> []"
  shows "take (sectionStarts lines ! 0) lines = preamble lines"
proof -
  from assms have "mediaPart lines \<noteq> []" by (auto simp: sectionStarts_media)
  then have "hd (sectionStarts lines) = length (preamble lines)"
    using starts_sections [OF starts_mediaPart, of "preamble lines" lines]
    by (simp add: sectionStarts_media [symmetric] preamble_mediaPart)
  then have "sectionStarts lines ! 0 = length (preamble lines)"
    using assms by (simp add: hd_conv_nth)
  then show ?thesis by (metis append_eq_conv_conj preamble_mediaPart)
qed

section \<open>Equivalence with the reference\<close>

lemma map_enumerate:
  "map (\<lambda>k. f k (g k)) [0..<n] = map (\<lambda>(k, x). f k x) (enumerate 0 (map g [0..<n]))"
  by (rule nth_equalityI) (simp_all add: nth_enumerate_eq)

lemma midLines_unchanged:
  assumes "\<And>k sec. midSection offers k sec = sec"
  shows "midLines offers lines = lines"
proof -
  have "map (\<lambda>(k, sec). midSection offers k sec) (enumerate 0 (sections lines)) = sections lines"
    using assms by (simp add: case_prod_unfold)
  then show ?thesis by (simp add: midLines_def lines_decompose)
qed

lemma midLines_no_offer: "midLines [] lines = lines"
  by (rule midLines_unchanged) (simp add: midSection_def alexaRejectedMediaMIDInsertAt_def)

lemma midLoop_eq:
  assumes "sectionStarts lines \<noteq> []"
  shows "take (sectionStarts lines ! 0) lines @
      concat (map (\<lambda>k. midSection offers k (midSlice lines (sectionStarts lines) k))
        [0..<length (sectionStarts lines)]) = midLines offers lines"
  by (simp only: map_enumerate [of "midSection offers"] midSlice_slices slices_sectionStarts
      sectionStarts_hd [OF assms] midLines_def)

lemma midLines_no_section: "sectionStarts lines = [] \<Longrightarrow> midLines offers lines = lines"
  using slices_sectionStarts [of lines] lines_decompose [of lines] by (simp add: midLines_def)

lemma normalizeAlexaRejectedMediaMIDs_eq:
  "normalizeAlexaRejectedMediaMIDs offer answer =
   Join (midLines (alexaOfferMediaSections offer) (Split answer (lineSeparatorOf answer)))
     (lineSeparatorOf answer)"
  by (simp add: normalizeAlexaRejectedMediaMIDs_def Let_def midLines_no_offer midLines_no_section
      sectionStarts_def [symmetric] midLoop_eq Join_Split del: upt_Suc)

section \<open>The result, section by section\<close>

definition midLine :: "alexaOfferMediaSection \<Rightarrow> string" where
  "midLine off = ''a=mid:'' @ mid off"

lemma midLine_simps [simp]:
  "\<not> isMLine (midLine off)" "HasPrefix (midLine off) ''a=mid:''"
  "TrimPrefix (midLine off) ''a=mid:'' = mid off"
  by (simp_all add: midLine_def TrimPrefix_def)

text \<open>When a line is inserted: a rejected section, same media type as the offer's section at
  that position, an offered MID, and none in the answer yet.\<close>

definition midEligible :: "alexaOfferMediaSection list \<Rightarrow> nat \<Rightarrow> string list \<Rightarrow> bool" where
  "midEligible offers k sec =
     (k < length offers \<and> sec \<noteq> [] \<and>
      (case alexaMediaLineFields (hd sec) of None \<Rightarrow> False | Some fs \<Rightarrow> fs ! 1 = ''0'') \<and>
      lineMediaType (hd sec) \<noteq> '''' \<and> lineMediaType (hd sec) = mediaType (offers ! k) \<and>
      mid (offers ! k) \<noteq> '''' \<and>
      \<not> list_ex (\<lambda>l. HasPrefix l ''a=mid:'') (tl sec))"

lemma list_ex_tl: "list_ex (\<lambda>i. P (xs ! i)) [Suc 0..<length xs] = list_ex P (tl xs)"
proof (cases xs)
  case (Cons y ys)
  have "map ((!) ([y] @ ys @ [])) [length [y]..<length [y] + length ys] = ys"
    by (rule map_nth_middle)
  then have "map ((!) xs) [1..<length xs] = ys" by (simp add: Cons del: upt_Suc)
  then show ?thesis using list_ex_map [of P "(!) xs" "[1..<length xs]"] by (simp add: Cons del: upt_Suc)
qed simp

lemma insertAt_Some_iff:
  "alexaRejectedMediaMIDInsertAt sec k offers \<noteq> None \<longleftrightarrow> midEligible offers k sec"
proof (cases "sec = []")
  case False
  then have "sec ! 0 = hd sec" by (simp add: hd_conv_nth)
  with False show ?thesis
    using list_ex_tl [of "\<lambda>l. HasPrefix l ''a=mid:''" sec]
    by (auto simp: alexaRejectedMediaMIDInsertAt_def midEligible_def lineMediaType_def
        Let_def split: option.splits)
qed (simp add: alexaRejectedMediaMIDInsertAt_def midEligible_def)

lemma insertAt_bounds:
  assumes "alexaRejectedMediaMIDInsertAt sec k offers = Some i"
  shows "1 \<le> i \<and> i \<le> length sec"
proof -
  have found: "Suc 0 \<le> j \<and> j \<le> length sec" if "find P [Suc 0..<length sec] = Some j" for P j
    using that by (auto simp: find_Some_iff)
  have "Suc 0 \<le> length sec" if "sec \<noteq> []" using that by (cases sec) auto
  with assms found show ?thesis
    by (fastforce simp: alexaRejectedMediaMIDInsertAt_def Let_def split: option.splits if_splits)
qed

lemma midSection_cases:
  obtains (Same) "\<not> midEligible offers k sec" "midSection offers k sec = sec"
  | (Inserted) m b1 b2 where "midEligible offers k sec" "sec = m # b1 @ b2"
      "midSection offers k sec = m # b1 @ midLine (offers ! k) # b2"
proof (cases "alexaRejectedMediaMIDInsertAt sec k offers")
  case None
  then show ?thesis using insertAt_Some_iff [of sec k offers] by (intro Same) (auto simp: midSection_def)
next
  case (Some i)
  then have el: "midEligible offers k sec" using insertAt_Some_iff [of sec k offers] by simp
  from Some have b: "1 \<le> i" "i \<le> length sec" using insertAt_bounds by blast+
  then obtain m body where sec: "sec = m # body" by (cases sec) auto
  with b obtain j where j: "i = Suc j" "j \<le> length body" by (cases i) auto
  show ?thesis
  proof (rule Inserted [OF el, of m "take j body" "drop j body"])
    show "sec = m # take j body @ drop j body" by (simp add: sec)
    show "midSection offers k sec = m # take j body @ midLine (offers ! k) # drop j body"
      using Some by (simp add: midSection_def sec j midLine_def)
  qed
qed

lemma midSection_ok: "section_ok sec \<Longrightarrow> section_ok (midSection offers k sec)"
  by (rule midSection_cases [of offers k sec]) auto

lemma midSection_hd: "sec \<noteq> [] \<Longrightarrow> hd (midSection offers k sec) = hd sec"
  by (rule midSection_cases [of offers k sec]) auto

lemma midSection_lines: "set (midSection offers k sec) \<subseteq> set sec \<union> midLine ` set offers"
  by (rule midSection_cases [of offers k sec]) (auto simp: midEligible_def)

lemma find_first: "\<not> list_ex P xs \<Longrightarrow> P y \<Longrightarrow> find P (xs @ y # ys) = Some y"
  by (induction xs) auto

text \<open>After the rewrite an eligible section carries the offered MID.\<close>

lemma midSection_mid:
  assumes "midEligible offers k sec"
  shows "sectionMid (tl (midSection offers k sec)) = mid (offers ! k)"
proof (rule midSection_cases [of offers k sec])
  fix m b1 b2
  assume sec: "sec = m # b1 @ b2" and
    res: "midSection offers k sec = m # b1 @ midLine (offers ! k) # b2"
  from assms sec have "\<not> list_ex (\<lambda>l. HasPrefix l ''a=mid:'') b1"
    by (auto simp: midEligible_def)
  then have "find (\<lambda>l. HasPrefix l ''a=mid:'') (b1 @ midLine (offers ! k) # b2) =
      Some (midLine (offers ! k))" by (rule find_first) simp
  then show ?thesis by (simp add: res sectionMid_def)
qed (use assms in simp)

lemma midSection_done: "\<not> midEligible offers k (midSection offers k sec)"
  by (rule midSection_cases [of offers k sec]) (auto simp: midEligible_def)

lemma midSection_not_eligible: "\<not> midEligible offers k sec \<Longrightarrow> midSection offers k sec = sec"
  by (rule midSection_cases [of offers k sec]) auto

lemma midSection_idem: "midSection offers k (midSection offers k sec) = midSection offers k sec"
  by (rule midSection_not_eligible [OF midSection_done])

definition midSections :: "alexaOfferMediaSection list \<Rightarrow> string list list \<Rightarrow> string list list" where
  "midSections offers secs = map (\<lambda>(k, sec). midSection offers k sec) (enumerate 0 secs)"

lemma length_midSections [simp]: "length (midSections offers secs) = length secs"
  by (simp add: midSections_def)

lemma nth_midSections [simp]:
  "k < length secs \<Longrightarrow> midSections offers secs ! k = midSection offers k (secs ! k)"
  by (simp add: midSections_def nth_enumerate_eq)

lemma midSections_ok: "list_all section_ok secs \<Longrightarrow> list_all section_ok (midSections offers secs)"
  by (simp add: list_all_length midSection_ok)

lemma sections_midLines: "sections (midLines offers lines) = midSections offers (sections lines)"
  unfolding midLines_def midSections_def [symmetric]
  by (rule sections_reassemble [OF plain_preamble midSections_ok [OF sections_ok]])

lemma preamble_midLines: "preamble (midLines offers lines) = preamble lines"
  unfolding midLines_def midSections_def [symmetric]
  by (rule preamble_reassemble [OF plain_preamble midSections_ok [OF sections_ok]])

lemma midSections_idem: "midSections offers (midSections offers secs) = midSections offers secs"
  by (rule nth_equalityI) (simp_all add: midSection_idem)

lemma midLines_idem: "midLines offers (midLines offers lines) = midLines offers lines"
  using midSections_idem [of offers "sections lines"]
  by (simp add: midLines_def [of offers "midLines offers lines"] preamble_midLines sections_midLines
      midSections_def [symmetric]) (simp add: midLines_def midSections_def)

lemma midSections_subset:
  "set (concat (midSections offers secs)) \<subseteq> set (concat secs) \<union> midLine ` set offers"
proof
  fix l
  assume "l \<in> set (concat (midSections offers secs))"
  then obtain sec where "sec \<in> set (midSections offers secs)" "l \<in> set sec" by auto
  then obtain k where k: "k < length secs" "l \<in> set (midSection offers k (secs ! k))"
    by (metis in_set_conv_nth length_midSections nth_midSections)
  then have "l \<in> set (secs ! k) \<union> midLine ` set offers" using midSection_lines by blast
  then show "l \<in> set (concat secs) \<union> midLine ` set offers" using k(1) nth_mem by fastforce
qed

lemma set_midLines: "set (midLines offers lines) \<subseteq> set lines \<union> midLine ` set offers"
proof -
  have "set (midLines offers lines) \<subseteq>
      set (preamble lines @ concat (sections lines)) \<union> midLine ` set offers"
    using midSections_subset [of offers "sections lines"]
    by (auto simp: midLines_def midSections_def [symmetric])
  then show ?thesis by (simp only: lines_decompose)
qed

interpretation mids: sdp_rewriter "midLines offers" "midLine ` set offers"
  for offers
proof unfold_locales
  fix ls
  show "preamble (midLines offers ls) = preamble ls" by (rule preamble_midLines)
  have ne: "sections ls ! i \<noteq> []" if "i < length (sections ls)" for i
    using sections_ok [of ls] that by (auto simp: list_all_length)
  have "map hd (sections (midLines offers ls)) = map hd (sections ls)"
    by (rule nth_equalityI) (simp_all add: sections_midLines midSection_hd ne)
  then show "list_all2 mline_kept (map hd (sections ls)) (map hd (sections (midLines offers ls)))"
    by (simp add: list.rel_refl)
next
  fix sep ls
  assume "clean sep ls" "\<And>l. l \<in> midLine ` set offers \<Longrightarrow> \<not> Contains l sep"
  then show "clean sep (midLines offers ls)"
    using set_midLines [of offers ls] by (auto simp: clean_def list_all_iff)
qed

end
