(* ===== verification/SdpVideo.thy ===== *)
theory SdpVideo
  imports SdpLines
begin

text \<open>
  \<^verbatim>\<open>normalizeAlexaRejectedVideoPayloads\<close> and its helpers (\<^verbatim>\<open>internal/rtc/server.go\<close>): the
  rejected video sections of an answer get back an offered payload type, the offered
  \<open>a=rtpmap:\<close> line for it and the direction \<open>a=inactive\<close>.  The Go loop inserts lines into the
  slice it runs over and advances its index by hand; \<open>videoLoop\<close> is that loop, with a proof
  that it ends.  The main lemma shows that it rewrites each video section on its own.
\<close>

section \<open>Definitions\<close>

record alexaOfferedVideoPayload =
  payload :: string
  rtpmap :: string

abbreviation noPayload :: alexaOfferedVideoPayload where
  "noPayload \<equiv> \<lparr>payload = '''', rtpmap = ''''\<rparr>"

text \<open>The byte scan \<open>for index < len(line) && P(line[index]) { index++ }\<close>.\<close>

function scanChars :: "(char \<Rightarrow> bool) \<Rightarrow> string \<Rightarrow> nat \<Rightarrow> nat" where
  "scanChars P line index =
     (if index < length line \<and> P (line ! index) then scanChars P line (index + 1) else index)"
  by pat_completeness auto
termination
  by (relation "measure (\<lambda>(P, line, index). length line - index)") auto

declare scanChars.simps [simp del]

definition isBlank :: "char \<Rightarrow> bool" where
  "isBlank c = (c = CHR '' '' \<or> c = TAB)"

lemma scanChars_ge: "index \<le> scanChars P line index"
proof (induction P line index rule: scanChars.induct)
  case (1 P line index)
  then show ?case by (subst scanChars.simps) auto
qed

lemma scanChars_le: "index \<le> length line \<Longrightarrow> scanChars P line index \<le> length line"
proof (induction P line index rule: scanChars.induct)
  case (1 P line index)
  then show ?case by (subst scanChars.simps) auto
qed

lemma scanChars_stop:
  "scanChars P line index < length line \<Longrightarrow> \<not> P (line ! scanChars P line index)"
proof (induction P line index rule: scanChars.induct)
  case (1 P line index)
  then show ?case
    by (cases "index < length line \<and> P (line ! index)") (simp_all add: scanChars.simps [of P line index])
qed

lemma scanChars_step: "index < length line \<Longrightarrow> P (line ! index) \<Longrightarrow> index < scanChars P line index"
  using scanChars_ge [of "index + 1" P line] by (subst scanChars.simps) simp

lemma scanChars_end:
  assumes "index < length line" "scanChars isBlank line index \<noteq> length line"
  shows "scanChars isBlank line index <
    scanChars (\<lambda>c. \<not> isBlank c) line (scanChars isBlank line index)"
proof (rule scanChars_step)
  show "scanChars isBlank line index < length line"
    using assms scanChars_le [of index line isBlank] by simp
  then show "\<not> isBlank (line ! scanChars isBlank line index)" by (rule scanChars_stop)
qed

function sdpFieldSpansFrom :: "string \<Rightarrow> nat \<Rightarrow> (nat \<times> nat) list" where
  "sdpFieldSpansFrom line index =
     (if index < length line then
        let start = scanChars isBlank line index in
        if start = length line then []
        else let index' = scanChars (\<lambda>c. \<not> isBlank c) line start in
          (start, index') # sdpFieldSpansFrom line index'
      else [])"
  by pat_completeness auto
termination
proof (relation "measure (\<lambda>(line, index). length line - index)")
  fix line index start index'
  assume "index < length line" "start = scanChars isBlank line index" "start \<noteq> length line"
    "index' = scanChars (\<lambda>c. \<not> isBlank c) line start"
  then show "((line, index'), (line, index)) \<in> measure (\<lambda>(line, index). length line - index)"
    using scanChars_end [of index line] scanChars_ge [of index isBlank line] by simp
qed simp

declare sdpFieldSpansFrom.simps [simp del]

definition sdpFieldSpans :: "string \<Rightarrow> (nat \<times> nat) list" where
  "sdpFieldSpans line = sdpFieldSpansFrom line 0"

text \<open>The slice \<open>line[span[0]:span[1]]\<close>.\<close>

definition spanText :: "string \<Rightarrow> nat \<times> nat \<Rightarrow> string" where
  "spanText line span = drop (fst span) (take (snd span) line)"

definition normalizeAlexaRejectedVideoMLine :: "string \<Rightarrow> string \<Rightarrow> string \<times> bool" where
  "normalizeAlexaRejectedVideoMLine line pay =
     (if pay = '''' then (line, False)
      else let spans = sdpFieldSpans line in
        if length spans < 3 \<or> 4 < length spans \<or> spanText line (spans ! 0) \<noteq> ''m=video''
           \<or> spanText line (spans ! 1) \<noteq> ''0'' then (line, False)
        else if length spans = 4 then
          if spanText line (spans ! 3) \<noteq> ''0'' then (line, False)
          else (take (fst (spans ! 3)) line @ pay @ drop (snd (spans ! 3)) line, True)
        else let trailingWhitespace = drop (snd (spans ! 2)) line;
                 separator = (if trailingWhitespace \<noteq> '''' then trailingWhitespace else '' '')
          in (take (snd (spans ! 2)) line @ separator @ pay, True))"

definition alexaRTPMapPayload :: "string \<Rightarrow> string option" where
  "alexaRTPMapPayload line =
     (if \<not> HasPrefix line ''a=rtpmap:'' then None
      else let value = TrimPrefix line ''a=rtpmap:''; spans = sdpFieldSpans value in
        if length spans < 2 then None else Some (spanText value (spans ! 0)))"

definition alexaSectionHasRTPMap :: "string list \<Rightarrow> string \<Rightarrow> bool" where
  "alexaSectionHasRTPMap lines pay = list_ex (\<lambda>line. alexaRTPMapPayload line = Some pay) lines"

text \<open>The payload a video section of the offer contributes: 102 if it is offered, else the
  first; with the first \<open>a=rtpmap:\<close> line for it up to the next media line.\<close>

definition selectedPayload :: "string list \<Rightarrow> string" where
  "selectedPayload flds = (if ''102'' \<in> set (drop 3 flds) then ''102'' else flds ! 3)"

definition offeredPayloadAt :: "string list \<Rightarrow> nat \<Rightarrow> alexaOfferedVideoPayload" where
  "offeredPayloadAt lines lineIndex =
     (let flds = Fields (lines ! lineIndex) in
      if length flds < 4 then noPayload
      else let selected = selectedPayload flds in
        \<lparr>payload = selected,
         rtpmap = (case find (\<lambda>i. alexaRTPMapPayload (lines ! i) = Some selected)
             [lineIndex + 1..<scanSection lines (lineIndex + 1)] of
           None \<Rightarrow> '''' | Some i \<Rightarrow> lines ! i)\<rparr>)"

definition alexaOfferedVideoPayloads :: "string \<Rightarrow> alexaOfferedVideoPayload list" where
  "alexaOfferedVideoPayloads offer =
     (let lines = Split (ReplaceAll offer CRLF LF) LF in
      map (offeredPayloadAt lines)
        (filter (\<lambda>i. HasPrefix (lines ! i) ''m=video '') [0..<length lines]))"

text \<open>The rewrite of one eligible section inside the slice of all lines: the media line is
  replaced, the \<open>rtpmap\<close> line inserted before the first attribute unless the section has
  one for the payload, active directions are turned into \<open>a=inactive\<close>, which is added at
  the end of the section if no direction was found.  A final empty line stays last.\<close>

definition beforeTrailing :: "string list \<Rightarrow> nat \<Rightarrow> nat" where
  "beforeTrailing lines insertAt =
     (if insertAt = length lines \<and> 0 < insertAt \<and> lines ! (insertAt - 1) = ''''
      then insertAt - 1 else insertAt)"

definition insertRTPMap ::
  "alexaOfferedVideoPayload \<Rightarrow> nat \<Rightarrow> nat \<Rightarrow> string list \<Rightarrow> string list \<times> nat" where
  "insertRTPMap offered lineIndex sectionEnd lines =
     (if rtpmap offered \<noteq> '''' \<and>
         \<not> alexaSectionHasRTPMap (drop (lineIndex + 1) (take sectionEnd lines)) (payload offered)
      then
        let insertAt = (case find (\<lambda>i. HasPrefix (lines ! i) ''a='') [lineIndex + 1..<sectionEnd] of
              Some i \<Rightarrow> i | None \<Rightarrow> sectionEnd)
        in (insert_at (beforeTrailing lines insertAt) (rtpmap offered) lines, sectionEnd + 1)
      else (lines, sectionEnd))"

definition isActiveDirection :: "string \<Rightarrow> bool" where
  "isActiveDirection l = (l = ''a=sendrecv'' \<or> l = ''a=sendonly'' \<or> l = ''a=recvonly'')"

definition inactivate :: "nat \<Rightarrow> nat \<Rightarrow> string list \<Rightarrow> string list \<times> bool" where
  "inactivate from to lines =
     fold (\<lambda>i (lines, hasDirection).
         if lines ! i = ''a=inactive'' then (lines, True)
         else if isActiveDirection (lines ! i) then (lines[i := ''a=inactive''], True)
         else (lines, hasDirection))
       [from..<to] (lines, False)"

definition rewriteSection ::
  "alexaOfferedVideoPayload \<Rightarrow> string \<Rightarrow> nat \<Rightarrow> string list \<Rightarrow> string list \<times> nat" where
  "rewriteSection offered normalizedLine lineIndex lines0 =
     (let lines1 = lines0[lineIndex := normalizedLine];
          (lines2, sectionEnd) =
            insertRTPMap offered lineIndex (scanSection lines1 (lineIndex + 1)) lines1;
          (lines3, hasDirection) = inactivate (lineIndex + 1) sectionEnd lines2
      in if \<not> hasDirection
         then (insert_at (beforeTrailing lines3 sectionEnd) ''a=inactive'' lines3, lineIndex + 1)
         else (lines3, lineIndex))"

lemma noPayload_not_eligible: "\<not> snd (normalizeAlexaRejectedVideoMLine line '''')"
  by (simp add: normalizeAlexaRejectedVideoMLine_def)

definition offeredAt :: "alexaOfferedVideoPayload list \<Rightarrow> nat \<Rightarrow> alexaOfferedVideoPayload" where
  "offeredAt offeredPayloads videoIndex =
     (if videoIndex < length offeredPayloads then offeredPayloads ! videoIndex else noPayload)"

function videoLoop ::
  "alexaOfferedVideoPayload list \<Rightarrow> string list \<Rightarrow> nat \<Rightarrow> nat \<Rightarrow> string list" where
  "videoLoop offeredPayloads lines lineIndex videoIndex =
     (if lineIndex < length lines then
        if \<not> HasPrefix (lines ! lineIndex) ''m=video ''
        then videoLoop offeredPayloads lines (lineIndex + 1) videoIndex
        else let offered = offeredAt offeredPayloads videoIndex;
                 ne = normalizeAlexaRejectedVideoMLine (lines ! lineIndex) (payload offered) in
          if \<not> snd ne then videoLoop offeredPayloads lines (lineIndex + 1) (videoIndex + 1)
          else let res = rewriteSection offered (fst ne) lineIndex lines in
            videoLoop offeredPayloads (fst res) (snd res + 1) (videoIndex + 1)
      else lines)"
  by pat_completeness auto
termination
proof (relation "measures [\<lambda>(offers, lines, i, k). length offers - k, \<lambda>(offers, lines, i, k). length lines - i]",
    goal_cases)
  case (4 offers lines i k x y z)
  then have "k < length offers"
    using noPayload_not_eligible by (cases "k < length offers") (auto simp: offeredAt_def)
  then have "length offers - (k + 1) < length offers - k" by arith
  then show ?case by simp
qed auto

declare videoLoop.simps [simp del]

definition normalizeAlexaRejectedVideoPayloads :: "string \<Rightarrow> string \<Rightarrow> string" where
  "normalizeAlexaRejectedVideoPayloads offer answer =
     (let offeredPayloads = alexaOfferedVideoPayloads offer in
      if length offeredPayloads = 0 then answer
      else let lineSeparator = lineSeparatorOf answer in
        Join (videoLoop offeredPayloads (Split answer lineSeparator) 0 0) lineSeparator)"

section \<open>Reference on sections\<close>

definition endPos :: "bool \<Rightarrow> string list \<Rightarrow> nat" where
  "endPos isLast body =
     (if isLast \<and> body \<noteq> [] \<and> last body = '''' then length body - 1 else length body)"

definition addRTPMap :: "alexaOfferedVideoPayload \<Rightarrow> bool \<Rightarrow> string list \<Rightarrow> string list" where
  "addRTPMap offered isLast body =
     (if rtpmap offered \<noteq> '''' \<and> \<not> alexaSectionHasRTPMap body (payload offered)
      then insert_at (case find (\<lambda>i. HasPrefix (body ! i) ''a='') [0..<length body] of
             Some i \<Rightarrow> i | None \<Rightarrow> endPos isLast body) (rtpmap offered) body
      else body)"

definition toInactive :: "string \<Rightarrow> string" where
  "toInactive l = (if isActiveDirection l then ''a=inactive'' else l)"

definition isDirection :: "string \<Rightarrow> bool" where
  "isDirection l = (l = ''a=inactive'' \<or> isActiveDirection l)"

definition setInactive :: "bool \<Rightarrow> string list \<Rightarrow> string list" where
  "setInactive isLast body =
     (if list_ex isDirection body then map toInactive body
      else insert_at (endPos isLast body) ''a=inactive'' body)"

definition videoSection :: "alexaOfferedVideoPayload \<Rightarrow> bool \<Rightarrow> string list \<Rightarrow> string list" where
  "videoSection offered isLast sec =
     (let (m, eligible) = normalizeAlexaRejectedVideoMLine (hd sec) (payload offered) in
      if \<not> eligible then sec
      else m # setInactive isLast (addRTPMap offered isLast (tl sec)))"

fun videoSections ::
  "alexaOfferedVideoPayload list \<Rightarrow> nat \<Rightarrow> string list list \<Rightarrow> string list list" where
  "videoSections offers k [] = []"
| "videoSections offers k (sec # secs) =
     (if HasPrefix (hd sec) ''m=video ''
      then videoSection (offeredAt offers k) (secs = []) sec # videoSections offers (k + 1) secs
      else sec # videoSections offers k secs)"

definition videoLines :: "alexaOfferedVideoPayload list \<Rightarrow> string list \<Rightarrow> string list" where
  "videoLines offers lines = preamble lines @ concat (videoSections offers 0 (sections lines))"

text \<open>The \<open>rtpmap\<close> lines found in an offer.\<close>

definition offered_ok :: "alexaOfferedVideoPayload \<Rightarrow> bool" where
  "offered_ok off = (rtpmap off = '''' \<or> HasPrefix (rtpmap off) ''a=rtpmap:'')"

section \<open>One section inside the slice\<close>

lemma find_shift:
  "find (\<lambda>i. P ((pre @ body @ rest) ! i)) [length pre..<length pre + length body] =
   map_option ((+) (length pre)) (find (\<lambda>i. P (body ! i)) [0..<length body])"
proof -
  have up: "[length pre..<length pre + length body] = map ((+) (length pre)) [0..<length body]"
    by (rule nth_equalityI) simp_all
  have "find (\<lambda>i. P ((pre @ body @ rest) ! i)) (map ((+) (length pre)) is) =
      map_option ((+) (length pre)) (find (\<lambda>i. P (body ! i)) is)"
    if "set is \<subseteq> {..<length body}" for "is"
    using that by (induction "is") (auto simp: nth_append)
  from this [of "[0..<length body]"] show ?thesis unfolding up by (simp add: subset_iff)
qed

lemma beforeTrailing_append:
  assumes "m \<noteq> ''''"
  shows "beforeTrailing (pre @ m # body @ rest) (Suc (length pre) + length body) =
    Suc (length pre) + endPos (rest = []) body"
  using assms
  by (cases body rule: rev_cases) (auto simp: beforeTrailing_def endPos_def nth_append)

lemma beforeTrailing_inside: "i < length lines \<Longrightarrow> beforeTrailing lines i = i"
  by (simp add: beforeTrailing_def)

lemma insert_at_section:
  "i \<le> length body \<Longrightarrow>
   insert_at (Suc (length pre) + i) x (pre @ m # body @ rest) = pre @ m # insert_at i x body @ rest"
  by (simp add: insert_at_def)

lemma endPos_le [simp]: "endPos b body \<le> length body"
  by (simp add: endPos_def)

lemma find_upt_less: "find P [0..<n] = Some i \<Longrightarrow> i < n"
  by (auto simp: find_Some_iff)

lemma insertRTPMap_append:
  assumes "m \<noteq> ''''"
  shows "insertRTPMap offered (length pre) (Suc (length pre) + length body) (pre @ m # body @ rest) =
    (pre @ m # addRTPMap offered (rest = []) body @ rest,
     Suc (length pre) + length (addRTPMap offered (rest = []) body))"
proof (cases "find (\<lambda>i. HasPrefix (body ! i) ''a='') [0..<length body]")
  case None
  have "find (\<lambda>i. HasPrefix ((pre @ m # body @ rest) ! i) ''a='')
      [Suc (length pre)..<Suc (length pre) + length body] = None"
    using find_shift [where P = "\<lambda>l. HasPrefix l ''a=''" and pre = "pre @ [m]" and body = body and rest = rest]
      None by simp
  then show ?thesis using None beforeTrailing_append [OF assms, of pre body rest]
    insert_at_section [OF endPos_le [of "rest = []" body], of pre "rtpmap offered" m rest]
    by (simp add: insertRTPMap_def addRTPMap_def)
next
  case (Some i)
  then have i: "i < length body" by (rule find_upt_less)
  have "find (\<lambda>i. HasPrefix ((pre @ m # body @ rest) ! i) ''a='')
      [Suc (length pre)..<Suc (length pre) + length body] = Some (Suc (length pre) + i)"
    using find_shift [where P = "\<lambda>l. HasPrefix l ''a=''" and pre = "pre @ [m]" and body = body and rest = rest]
      Some by simp
  moreover have "beforeTrailing (pre @ m # body @ rest) (Suc (length pre) + i) = Suc (length pre) + i"
    using i by (intro beforeTrailing_inside) simp
  ultimately show ?thesis using Some i
    insert_at_section [of i body pre "rtpmap offered" m rest]
    by (simp add: insertRTPMap_def addRTPMap_def)
qed

lemma inactivate_append:
  "fold (\<lambda>i (ls, has).
       if ls ! i = ''a=inactive'' then (ls, True)
       else if isActiveDirection (ls ! i) then (ls[i := ''a=inactive''], True) else (ls, has))
     [length pre..<length pre + length body] (pre @ body @ rest, d) =
   (pre @ map toInactive body @ rest, d \<or> list_ex isDirection body)"
proof (induction body arbitrary: pre d)
  case (Cons b body)
  have up: "[length pre..<length pre + length (b # body)] =
      length pre # [length (pre @ [toInactive b])..<length (pre @ [toInactive b]) + length body]"
    by (simp add: upt_conv_Cons del: upt_Suc)
  have first: "(case (pre @ (b # body) @ rest, d) of (ls, has) \<Rightarrow>
       if ls ! length pre = ''a=inactive'' then (ls, True)
       else if isActiveDirection (ls ! length pre) then (ls[length pre := ''a=inactive''], True)
       else (ls, has)) =
      ((pre @ [toInactive b]) @ body @ rest, d \<or> isDirection b)"
    by (simp add: isDirection_def toInactive_def isActiveDirection_def)
  show ?case unfolding up fold_simps first Cons.IH by simp
qed simp

lemma rewriteSection_append:
  assumes "isMLine m'" "plain body" "starts_section rest"
  shows "\<exists>bump \<le> (1::nat). rewriteSection offered m' (length pre) (pre @ m # body @ rest) =
      (pre @ m' # setInactive (rest = []) (addRTPMap offered (rest = []) body) @ rest,
       length pre + bump) \<and>
      bump \<le> length (setInactive (rest = []) (addRTPMap offered (rest = []) body))"
proof -
  let ?b = "addRTPMap offered (rest = []) body"
  have ne: "m' \<noteq> ''''" using assms(1) by auto
  have upd: "(pre @ m # body @ rest)[length pre := m'] = pre @ m' # body @ rest" by simp
  have scan: "scanSection (pre @ m' # body @ rest) (length pre + 1) = Suc (length pre) + length body"
    using scanSection_append [OF assms(2,3), of pre m'] by simp
  have inact: "inactivate (length pre + 1) (Suc (length pre) + length ?b) (pre @ m' # ?b @ rest) =
      (pre @ m' # map toInactive ?b @ rest, list_ex isDirection ?b)"
    using inactivate_append [of "pre @ [m']" ?b rest False] by (simp add: inactivate_def)
  have eq: "map toInactive ?b = ?b" if "\<not> list_ex isDirection ?b"
    using that by (auto simp: toInactive_def isDirection_def list_ex_iff intro: map_idI)
  have ins: "insert_at (beforeTrailing (pre @ m' # ?b @ rest) (Suc (length pre) + length ?b))
      ''a=inactive'' (pre @ m' # ?b @ rest) =
      pre @ m' # insert_at (endPos (rest = []) ?b) ''a=inactive'' ?b @ rest"
    using beforeTrailing_append [OF ne, of pre ?b rest]
      insert_at_section [OF endPos_le [of "rest = []" ?b], of pre "''a=inactive''" m' rest] by simp
  show ?thesis
  proof (cases "list_ex isDirection ?b")
    case True
    then have "rewriteSection offered m' (length pre) (pre @ m # body @ rest) =
        (pre @ m' # setInactive (rest = []) ?b @ rest, length pre + 0)"
      by (simp add: rewriteSection_def upd scan insertRTPMap_append [OF ne] inact setInactive_def
          del: One_nat_def add_Suc add_Suc_right)
    then show ?thesis by blast
  next
    case False
    then have "rewriteSection offered m' (length pre) (pre @ m # body @ rest) =
        (pre @ m' # setInactive (rest = []) ?b @ rest, length pre + 1)"
      using ins eq [OF False]
      by (simp add: rewriteSection_def upd scan insertRTPMap_append [OF ne] inact setInactive_def
          del: One_nat_def add_Suc add_Suc_right)
    moreover have "1 \<le> length (setInactive (rest = []) ?b)" using False by (simp add: setInactive_def)
    ultimately show ?thesis by blast
  qed
qed

section \<open>Fields by blanks\<close>

text \<open>The fields a line has when it is cut at spaces and tabs.\<close>

function bfields :: "string \<Rightarrow> string list" where
  "bfields line =
     (let t = dropWhile isBlank line in
      if t = [] then []
      else takeWhile (\<lambda>c. \<not> isBlank c) t # bfields (dropWhile (\<lambda>c. \<not> isBlank c) t))"
  by pat_completeness auto
termination
proof (relation "measure length")
  fix line t
  assume t: "t = dropWhile isBlank line" "t \<noteq> []"
  from t(2) obtain c cs where c: "t = c # cs" by (meson list.exhaust)
  moreover from this have "\<not> isBlank c" using dropWhile_hd_not [of isBlank line c cs] t(1) by simp
  ultimately have "length (dropWhile (\<lambda>c. \<not> isBlank c) t) < length t"
    using length_dropWhile_le [of "\<lambda>c. \<not> isBlank c" cs] by simp
  also have "length t \<le> length line" unfolding t(1) by (rule length_dropWhile_le)
  finally show "(dropWhile (\<lambda>c. \<not> isBlank c) t, line) \<in> measure length" by simp
qed simp

declare bfields.simps [simp del]

definition field_end :: "string \<Rightarrow> bool" where
  "field_end t = (t = [] \<or> isBlank (hd t))"

definition word :: "string \<Rightarrow> bool" where
  "word w = (w \<noteq> [] \<and> list_all (\<lambda>c. \<not> isBlank c) w)"

lemma bfields_word:
  assumes "list_all isBlank bl" "word w" "field_end t"
  shows "bfields (bl @ w @ t) = w # bfields t"
proof -
  have d: "dropWhile isBlank (bl @ w @ t) = w @ t"
    using assms by (intro dropWhile_append_stop) (cases w; auto simp: list_all_iff word_def)+
  have "takeWhile (\<lambda>c. \<not> isBlank c) (w @ t) = w"
    by (rule takeWhile_append_stop) (use assms in \<open>auto simp: list_all_iff word_def field_end_def\<close>)
  moreover have "dropWhile (\<lambda>c. \<not> isBlank c) (w @ t) = t"
    by (rule dropWhile_append_stop) (use assms in \<open>auto simp: list_all_iff word_def field_end_def\<close>)
  ultimately show ?thesis using d assms(2) by (subst bfields.simps) (simp add: word_def)
qed

lemma bfields_blank: "list_all isBlank bl \<Longrightarrow> bfields bl = []"
  by (subst bfields.simps) (simp add: dropWhile_eq_Nil_conv list_all_iff)

lemma scanChars_eq: "scanChars P line i = i + length (takeWhile P (drop i line))"
proof (induction P line i rule: scanChars.induct)
  case (1 P line i)
  show ?case
  proof (cases "i < length line \<and> P (line ! i)")
    case True
    then have "drop i line = line ! i # drop (Suc i) line" by (simp add: Cons_nth_drop_Suc)
    with True "1.IH" show ?thesis by (simp add: scanChars.simps [of P line i])
  next
    case False
    then have "takeWhile P (drop i line) = []"
      by (cases "i < length line") (simp_all add: Cons_nth_drop_Suc [symmetric])
    with False show ?thesis by (auto simp: scanChars.simps [of P line i])
  qed
qed

lemma spans_step:
  assumes "sdpFieldSpansFrom line i = (a, b) # rest"
  shows "\<exists>bl w. drop i line = bl @ w @ drop b line \<and> list_all isBlank bl \<and> word w \<and>
    field_end (drop b line) \<and> a = i + length bl \<and> b = a + length w \<and> i < length line \<and>
    rest = sdpFieldSpansFrom line b \<and> spanText line (a, b) = w"
proof -
  from assms have i: "i < length line" and a: "a = scanChars isBlank line i" and
    ne: "a \<noteq> length line" and b: "b = scanChars (\<lambda>c. \<not> isBlank c) line a" and
    rest: "rest = sdpFieldSpansFrom line b"
    by (auto simp: sdpFieldSpansFrom.simps [of line i] Let_def split: if_splits)
  let ?bl = "takeWhile isBlank (drop i line)" and ?w = "takeWhile (\<lambda>c. \<not> isBlank c) (drop a line)"
  have a': "a = i + length ?bl" and b': "b = a + length ?w" by (simp_all only: a b scanChars_eq)
  have "drop a line = drop (length ?bl) (drop i line)"
    by (subst a') (simp only: drop_drop add.commute)
  then have da: "drop a line = dropWhile isBlank (drop i line)"
    by (simp only: drop_length_takeWhile)
  have "drop b line = drop (length ?w) (drop a line)"
    by (subst b') (simp only: drop_drop add.commute)
  then have db: "drop b line = dropWhile (\<lambda>c. \<not> isBlank c) (drop a line)"
    by (simp only: drop_length_takeWhile)
  have "a < length line" using ne i scanChars_le [of i line isBlank] by (simp add: a)
  then have "a < b" using scanChars_end [of i line] i ne by (simp add: a b)
  then have "?w \<noteq> []" using b' by auto
  then have w: "word ?w" by (auto simp: word_def list_all_iff dest: set_takeWhileD)
  have bl: "list_all isBlank ?bl" by (auto simp: list_all_iff dest: set_takeWhileD)
  have e: "field_end (drop b line)"
    using hd_dropWhile [of "\<lambda>c. \<not> isBlank c" "drop a line"] by (auto simp: field_end_def db)
  have "spanText line (a, b) = take (b - a) (drop a line)" by (simp add: spanText_def drop_take)
  also have "\<dots> = ?w" using b' by simp
  finally have t: "spanText line (a, b) = ?w" .
  have "drop i line = ?bl @ ?w @ drop b line" by (simp add: db da)
  with bl w e a' b' i rest t show ?thesis by blast
qed

lemma spans_none: "sdpFieldSpansFrom line i = [] \<Longrightarrow> list_all isBlank (drop i line)"
proof (cases "i < length line")
  case True
  assume "sdpFieldSpansFrom line i = []"
  with True have "scanChars isBlank line i = length line"
    by (auto simp: sdpFieldSpansFrom.simps [of line i] Let_def split: if_splits)
  then have "length (takeWhile isBlank (drop i line)) = length (drop i line)"
    using True by (simp add: scanChars_eq)
  then have "takeWhile isBlank (drop i line) = drop i line"
    by (metis takeWhile_eq_take take_all_iff order_refl)
  then show ?thesis by (metis list_all_iff set_takeWhileD)
qed simp

text \<open>The spans of a line are its fields.\<close>

lemma spanText_spans: "map (spanText line) (sdpFieldSpansFrom line i) = bfields (drop i line)"
proof (induction "length line - i" arbitrary: i rule: less_induct)
  case less
  show ?case
  proof (cases "sdpFieldSpansFrom line i")
    case Nil
    then show ?thesis using spans_none [OF Nil] by (simp add: bfields_blank)
  next
    case (Cons s rest)
    obtain a b where s: "s = (a, b)" by (cases s)
    obtain bl w where d: "drop i line = bl @ w @ drop b line" "list_all isBlank bl" "word w"
      "field_end (drop b line)" "a = i + length bl" "b = a + length w" "i < length line"
      "rest = sdpFieldSpansFrom line b" "spanText line (a, b) = w"
      using spans_step [of line i a b rest] Cons s by blast
    have "w \<noteq> []" using d(3) by (simp add: word_def)
    with d have "length line - b < length line - i" by (cases w) auto
    then have "map (spanText line) rest = bfields (drop b line)" using less d(8) by simp
    then show ?thesis unfolding Cons s d(1) using d by (simp add: bfields_word)
  qed
qed

lemma spanText_sdpFieldSpans: "map (spanText line) (sdpFieldSpans line) = bfields line"
  using spanText_spans [of line 0] by (simp add: sdpFieldSpans_def)

section \<open>The rewritten media line\<close>

definition gap :: "string \<Rightarrow> bool" where
  "gap bl = (bl \<noteq> [] \<and> list_all isBlank bl)"

lemma gap_field_end [simp]: "gap bl \<Longrightarrow> field_end (bl @ t)"
  by (cases bl) (auto simp: gap_def field_end_def)

lemma gap_blank: "gap bl \<Longrightarrow> list_all isBlank bl"
  by (simp add: gap_def)

lemma field_end_gap: "field_end (bl @ w @ t) \<Longrightarrow> list_all isBlank bl \<Longrightarrow> word w \<Longrightarrow> gap bl"
  by (cases bl; cases w) (auto simp: gap_def field_end_def word_def)

lemma bfields_gap: "gap bl \<Longrightarrow> word w \<Longrightarrow> field_end t \<Longrightarrow> bfields (bl @ w @ t) = w # bfields t"
  by (simp add: bfields_word gap_blank)

text \<open>A line with at least three fields, taken apart at the end of the third.\<close>

lemma three_spans:
  assumes "sdpFieldSpans line = (a0, b0) # (a1, b1) # (a2, b2) # rest"
  obtains bl0 w0 bl1 w1 bl2 w2 where
    "line = (bl0 @ w0 @ bl1 @ w1 @ bl2 @ w2) @ drop b2 line"
    "take b2 line = bl0 @ w0 @ bl1 @ w1 @ bl2 @ w2" "list_all isBlank bl0" "gap bl1" "gap bl2"
    "word w0" "word w1" "word w2" "field_end (drop b2 line)" "rest = sdpFieldSpansFrom line b2"
proof -
  obtain bl0 w0 where s0: "drop 0 line = bl0 @ w0 @ drop b0 line" "list_all isBlank bl0" "word w0"
    "field_end (drop b0 line)" "b0 = a0 + length w0"
    "(a1, b1) # (a2, b2) # rest = sdpFieldSpansFrom line b0" "a0 = 0 + length bl0"
    using spans_step [OF assms [unfolded sdpFieldSpans_def]] by blast
  obtain bl1 w1 where s1: "drop b0 line = bl1 @ w1 @ drop b1 line" "list_all isBlank bl1" "word w1"
    "field_end (drop b1 line)" "b1 = a1 + length w1"
    "(a2, b2) # rest = sdpFieldSpansFrom line b1" "a1 = b0 + length bl1"
    using spans_step [OF s0(6) [symmetric]] by blast
  obtain bl2 w2 where s2: "drop b1 line = bl2 @ w2 @ drop b2 line" "list_all isBlank bl2" "word w2"
    "field_end (drop b2 line)" "b2 = a2 + length w2" "rest = sdpFieldSpansFrom line b2"
    "a2 = b1 + length bl2"
    using spans_step [OF s1(6) [symmetric]] by blast
  have l: "line = (bl0 @ w0 @ bl1 @ w1 @ bl2 @ w2) @ drop b2 line"
    using s0(1) s1(1) s2(1) by simp
  have "b2 = length (bl0 @ w0 @ bl1 @ w1 @ bl2 @ w2)" using s0(5,7) s1(5,7) s2(5,7) by simp
  with l have "take b2 line = bl0 @ w0 @ bl1 @ w1 @ bl2 @ w2" by (metis append_eq_conv_conj)
  moreover have "gap bl1" using field_end_gap [of bl1 w1 "drop b1 line"] s0(4) s1 by simp
  moreover have "gap bl2" using field_end_gap [of bl2 w2 "drop b2 line"] s1(4) s2 by simp
  ultimately show ?thesis using that l s0 s1 s2 by blast
qed

lemma bfields_three:
  assumes "list_all isBlank bl0" "gap bl1" "gap bl2" "gap bl3" "word w0" "word w1" "word w2"
    "word w3" "list_all isBlank t"
  shows "bfields ((bl0 @ w0 @ bl1 @ w1 @ bl2 @ w2) @ bl3 @ w3 @ t) = [w0, w1, w2, w3]"
proof -
  have "field_end t" using assms(9) by (cases t) (auto simp: field_end_def)
  with assms show ?thesis by (simp add: bfields_word bfields_gap bfields_blank)
qed

text \<open>An eligible media line keeps everything but the payload list, which becomes the given
  payload alone.\<close>

lemma normalizedMLine_cases:
  assumes "normalizeAlexaRejectedVideoMLine line pay = (line', True)"
  obtains bl0 bl1 bl2 bl3 w2 t where
    "line' = (bl0 @ ''m=video'' @ bl1 @ ''0'' @ bl2 @ w2) @ bl3 @ pay @ t"
    "\<exists>u. line = (bl0 @ ''m=video'' @ bl1 @ ''0'' @ bl2 @ w2) @ u"
    "list_all isBlank bl0" "gap bl1" "gap bl2" "gap bl3" "word w2" "list_all isBlank t"
    "pay \<noteq> ''''"
proof -
  let ?sp = "sdpFieldSpans line"
  from assms have pay: "pay \<noteq> ''''" and len: "length ?sp = 3 \<or> length ?sp = 4"
    and f0: "spanText line (?sp ! 0) = ''m=video''" and f1: "spanText line (?sp ! 1) = ''0''"
    by (auto simp: normalizeAlexaRejectedVideoMLine_def Let_def split: if_splits)
  from len obtain a0 b0 a1 b1 a2 b2 rest
    where sp: "?sp = (a0, b0) # (a1, b1) # (a2, b2) # rest" "length rest \<le> 1"
    by (cases ?sp; cases "tl ?sp"; cases "tl (tl ?sp)") auto
  obtain bl0 w0 bl1 w1 bl2 w2 where d:
    "line = (bl0 @ w0 @ bl1 @ w1 @ bl2 @ w2) @ drop b2 line"
    "take b2 line = bl0 @ w0 @ bl1 @ w1 @ bl2 @ w2" "list_all isBlank bl0" "gap bl1" "gap bl2"
    "word w0" "word w1" "word w2" "field_end (drop b2 line)" "rest = sdpFieldSpansFrom line b2"
    using three_spans [OF sp(1)] by blast
  have "bfields ((bl0 @ w0 @ bl1 @ w1 @ bl2 @ w2) @ T) = w0 # w1 # w2 # bfields T"
    if "field_end T" for T
    using d(3-8) that by (simp add: bfields_word bfields_gap)
  then have "bfields line = w0 # w1 # w2 # bfields (drop b2 line)"
    using d(9) d(1) by metis
  then have w: "w0 = ''m=video''" "w1 = ''0''"
    using f0 f1 spanText_sdpFieldSpans [of line] sp(1) by simp_all
  have pre: "\<exists>u. line = (bl0 @ ''m=video'' @ bl1 @ ''0'' @ bl2 @ w2) @ u" using d(1) w by blast
  show ?thesis
  proof (cases rest)
    case Nil
    let ?t = "drop b2 line"
    let ?bl3 = "if ?t = [] then '' '' else ?t"
    have "line' = (bl0 @ ''m=video'' @ bl1 @ ''0'' @ bl2 @ w2) @ ?bl3 @ pay @ []"
      using assms sp Nil d(2) w pay f0 f1
      by (auto simp: normalizeAlexaRejectedVideoMLine_def split: if_splits)
    moreover have "gap ?bl3" using spans_none [of line b2] d(10) Nil by (auto simp: gap_def isBlank_def)
    ultimately show ?thesis using that [of bl0 bl1 bl2 w2 ?bl3 "[]"] d pay pre by simp
  next
    case (Cons s rest')
    then have rest: "rest = [s]" using sp(2) by simp
    obtain a3 b3 where s: "s = (a3, b3)" by (cases s)
    obtain bl3 w3 where e: "drop b2 line = bl3 @ w3 @ drop b3 line" "list_all isBlank bl3" "word w3"
      "a3 = b2 + length bl3" "sdpFieldSpansFrom line b3 = []"
      using spans_step [of line b2 a3 b3 "[]"] d(10) rest s by auto
    have "take a3 line = take b2 line @ take (length bl3) (drop b2 line)"
      unfolding e(4) by (rule take_add)
    then have "take a3 line = (bl0 @ ''m=video'' @ bl1 @ ''0'' @ bl2 @ w2) @ bl3"
      using d(2) w e(1) by simp
    then have "line' = (bl0 @ ''m=video'' @ bl1 @ ''0'' @ bl2 @ w2) @ bl3 @ pay @ drop b3 line"
      using assms sp rest s pay f0 f1
      by (auto simp: normalizeAlexaRejectedVideoMLine_def Let_def split: if_splits)
    moreover have "gap bl3" using field_end_gap [of bl3 w3 "drop b3 line"] d(9) e by simp
    ultimately show ?thesis using that [of bl0 bl1 bl2 w2 bl3 "drop b3 line"] d pay pre spans_none [OF e(5)]
      by blast
  qed
qed

lemma normalizedMLine_fields:
  assumes "normalizeAlexaRejectedVideoMLine line pay = (line', True)" "word pay"
  shows "\<exists>proto. bfields line' = [''m=video'', ''0'', proto, pay]"
proof -
  have "word ''m=video''" "word ''0''" by (simp_all add: word_def isBlank_def)
  then show ?thesis
    using bfields_three [of _ _ _ _ "''m=video''" "''0''" _ pay] assms(2)
    by (rule_tac normalizedMLine_cases [OF assms(1)]) blast
qed

lemma normalizedMLine_prefix:
  assumes "normalizeAlexaRejectedVideoMLine line pay = (line', True)" "HasPrefix line ''m=video ''"
  shows "HasPrefix line' ''m=video ''"
proof (rule normalizedMLine_cases [OF assms(1)])
  fix bl0 bl1 bl2 bl3 w2 t
  assume line': "line' = (bl0 @ ''m=video'' @ bl1 @ ''0'' @ bl2 @ w2) @ bl3 @ pay @ t"
    and ex: "\<exists>u. line = (bl0 @ ''m=video'' @ bl1 @ ''0'' @ bl2 @ w2) @ u"
    and g: "list_all isBlank bl0" "gap bl1"
  obtain u where "line = (bl0 @ ''m=video'' @ bl1 @ ''0'' @ bl2 @ w2) @ u" using ex by blast
  moreover have "bl0 = []" using calculation assms(2) g(1) by (cases bl0) (auto simp: isBlank_def)
  moreover obtain c cs where "bl1 = c # cs" using g(2) by (cases bl1) (auto simp: gap_def)
  ultimately show ?thesis using assms(2) line' by simp
qed

section \<open>The loop rewrites section by section\<close>

lemma video_isMLine: "HasPrefix l ''m=video '' \<Longrightarrow> isMLine l"
  by (auto simp: HasPrefix_iff)

lemma addRTPMap_plain: "offered_ok off \<Longrightarrow> plain body \<Longrightarrow> plain (addRTPMap off b body)"
  by (auto simp: addRTPMap_def plain_def list_all_iff offered_ok_def HasPrefix_iff)

lemma setInactive_plain: "plain body \<Longrightarrow> plain (setInactive b body)"
  by (auto simp: setInactive_def plain_def list_all_iff toInactive_def)

lemma offeredAt_ok: "list_all offered_ok offers \<Longrightarrow> offered_ok (offeredAt offers k)"
  by (simp add: offeredAt_def offered_ok_def list_all_length)

lemma videoSection_not_eligible:
  "\<not> snd (normalizeAlexaRejectedVideoMLine (hd sec) (payload off)) \<Longrightarrow> videoSection off b sec = sec"
  by (auto simp: videoSection_def split: prod.splits)

lemma videoSection_eligible:
  "normalizeAlexaRejectedVideoMLine m (payload off) = (m', True) \<Longrightarrow>
   videoSection off b (m # body) = m' # setInactive b (addRTPMap off b body)"
  by (simp add: videoSection_def)

lemma videoLoop_plain:
  "plain body \<Longrightarrow>
   videoLoop offers (pre @ body @ rest) (length pre) k =
   videoLoop offers (pre @ body @ rest) (length pre + length body) k"
proof (induction body arbitrary: pre)
  case (Cons b body)
  then have "\<not> HasPrefix b ''m=video ''" using video_isMLine by auto
  then have "videoLoop offers (pre @ (b # body) @ rest) (length pre) k =
      videoLoop offers ((pre @ [b]) @ body @ rest) (length (pre @ [b])) k"
    by (subst videoLoop.simps) simp
  also have "\<dots> = videoLoop offers ((pre @ [b]) @ body @ rest) (length (pre @ [b]) + length body) k"
    using Cons.prems by (intro Cons.IH) simp
  finally show ?case by simp
qed simp

lemma videoLoop_skip:
  "plain body \<Longrightarrow> n \<le> length body \<Longrightarrow>
   videoLoop offers (pre @ m # body @ rest) (length pre + n + 1) k =
   videoLoop offers ((pre @ m # body) @ rest) (length (pre @ m # body)) k"
proof -
  assume body: "plain body" and n: "n \<le> length body"
  obtain b1 b2 where b: "body = b1 @ b2" "length b1 = n"
    using n by (metis append_take_drop_id length_take min_absorb2)
  show ?thesis
    using videoLoop_plain [of b2 offers "pre @ m # b1" rest k] body b by (simp add: add.assoc)
qed

lemma videoLoop_sections:
  assumes "starts_section ls" "list_all offered_ok offers"
  shows "videoLoop offers (pre @ ls) (length pre) k = pre @ concat (videoSections offers k (sections ls))"
  using assms(1)
proof (induction arbitrary: pre k rule: section_induct)
  case Nil
  then show ?case by (subst videoLoop.simps) simp
next
  case (Section m body rest)
  let ?L = "pre @ m # body @ rest" and ?off = "offeredAt offers k"
  let ?ne = "normalizeAlexaRejectedVideoMLine m (payload ?off)"
  have IH: "videoLoop offers ((pre @ sec) @ rest) (length (pre @ sec)) k' =
      (pre @ sec) @ concat (videoSections offers k' (sections rest))" for sec k'
    by (rule Section.IH)
  have skip: "videoLoop offers (pre @ m'' # body'' @ rest) (length pre + n + 1) k' =
      (pre @ m'' # body'') @ concat (videoSections offers k' (sections rest))"
    if "plain body''" "n \<le> length body''" for m'' body'' n k'
    using videoLoop_skip [OF that, of offers pre m'' rest k'] IH [of "m'' # body''" k'] by simp
  have last: "sections rest = [] \<longleftrightarrow> rest = []"
    using concat_sections [OF Section.hyps(3)] by auto
  consider (other) "\<not> HasPrefix m ''m=video ''"
    | (kept) "HasPrefix m ''m=video ''" "\<not> snd ?ne"
    | (rewritten) "HasPrefix m ''m=video ''" "snd ?ne" by blast
  then show ?case
  proof cases
    case other
    then have "videoLoop offers ?L (length pre) k = videoLoop offers ?L (length pre + 0 + 1) k"
      by (subst videoLoop.simps) simp
    then show ?thesis using other Section.hyps skip [of body 0] by (simp add: sections_Cons)
  next
    case kept
    then have "videoLoop offers ?L (length pre) k = videoLoop offers ?L (length pre + 0 + 1) (k + 1)"
      by (subst videoLoop.simps) simp
    then show ?thesis
      using kept Section.hyps skip [of body 0 m "k + 1"] videoSection_not_eligible [of "m # body" ?off]
      by (simp add: sections_Cons)
  next
    case rewritten
    then obtain m' where m': "?ne = (m', True)" by (cases ?ne) auto
    let ?b = "setInactive (rest = []) (addRTPMap ?off (rest = []) body)"
    have "isMLine m'" using normalizedMLine_prefix [OF m' rewritten(1)] by (rule video_isMLine)
    then obtain bump where bump: "rewriteSection ?off m' (length pre) ?L = (pre @ m' # ?b @ rest, length pre + bump)"
      "bump \<le> length ?b"
      using rewriteSection_append [of m' body rest ?off pre m] Section.hyps by blast
    have "plain ?b"
      using Section.hyps assms(2) by (intro setInactive_plain addRTPMap_plain offeredAt_ok)
    then have "videoLoop offers (pre @ m' # ?b @ rest) (length pre + bump + 1) (k + 1) =
        (pre @ m' # ?b) @ concat (videoSections offers (k + 1) (sections rest))"
      using bump(2) by (rule skip)
    moreover have "videoLoop offers ?L (length pre) k =
        videoLoop offers (pre @ m' # ?b @ rest) (length pre + bump + 1) (k + 1)"
      using rewritten m' bump(1) by (subst videoLoop.simps) simp
    ultimately show ?thesis
      using rewritten(1) Section.hyps videoSection_eligible [OF m', of "rest = []" body]
      by (simp add: sections_Cons last)
  qed
qed

lemma videoLoop_eq:
  assumes "list_all offered_ok offers"
  shows "videoLoop offers lines 0 0 = videoLines offers lines"
proof -
  have "videoLoop offers lines 0 0 = videoLoop offers lines (length (preamble lines)) 0"
    using videoLoop_plain [OF plain_preamble, of offers "[]" lines "mediaPart lines" 0]
    by (simp add: preamble_mediaPart)
  then show ?thesis
    using videoLoop_sections [OF starts_mediaPart assms, of "preamble lines" lines 0]
    by (simp add: preamble_mediaPart videoLines_def sections_preamble [of lines])
qed

text \<open>What an offer contributes is always fit for insertion.\<close>

lemma offeredPayloadAt_ok: "offered_ok (offeredPayloadAt lines i)"
proof -
  have "HasPrefix l ''a=rtpmap:''" if "alexaRTPMapPayload l = Some p" for l p
    using that by (auto simp: alexaRTPMapPayload_def split: if_splits)
  then show ?thesis
    by (auto simp: offeredPayloadAt_def offered_ok_def Let_def find_Some_iff split: option.splits)
qed

lemma alexaOfferedVideoPayloads_ok: "list_all offered_ok (alexaOfferedVideoPayloads offer)"
  by (simp add: alexaOfferedVideoPayloads_def Let_def list_all_iff offeredPayloadAt_ok)

lemma videoSections_no_offer: "videoSections [] k secs = secs"
  by (induction secs arbitrary: k)
    (simp_all add: offeredAt_def videoSection_not_eligible noPayload_not_eligible)

lemma normalizeAlexaRejectedVideoPayloads_eq:
  "normalizeAlexaRejectedVideoPayloads offer answer =
   Join (videoLines (alexaOfferedVideoPayloads offer) (Split answer (lineSeparatorOf answer)))
     (lineSeparatorOf answer)"
  by (simp add: normalizeAlexaRejectedVideoPayloads_def Let_def videoLoop_eq
      alexaOfferedVideoPayloads_ok videoLines_def videoSections_no_offer lines_decompose Join_Split)

section \<open>The result, section by section\<close>

lemma videoSection_ok:
  assumes "offered_ok off" "section_ok sec" "HasPrefix (hd sec) ''m=video ''"
  shows "section_ok (videoSection off b sec) \<and> HasPrefix (hd (videoSection off b sec)) ''m=video ''"
proof (cases "snd (normalizeAlexaRejectedVideoMLine (hd sec) (payload off))")
  case True
  then obtain m' where m': "normalizeAlexaRejectedVideoMLine (hd sec) (payload off) = (m', True)"
    by (metis prod.collapse)
  obtain m body where sec: "sec = m # body" "plain body" using assms(2) by (cases sec) auto
  have "HasPrefix m' ''m=video ''" using normalizedMLine_prefix [OF m' assms(3)] .
  moreover have "plain (setInactive b (addRTPMap off b body))"
    using assms(1) sec(2) by (intro setInactive_plain addRTPMap_plain)
  ultimately show ?thesis
    using m' sec by (simp add: videoSection_eligible video_isMLine)
qed (use assms in \<open>simp add: videoSection_not_eligible\<close>)

lemma videoSections_ok:
  "list_all offered_ok offers \<Longrightarrow> list_all section_ok secs \<Longrightarrow>
   list_all section_ok (videoSections offers k secs) \<and>
   list_all2 mline_kept (map hd secs) (map hd (videoSections offers k secs))"
proof (induction secs arbitrary: k)
  case (Cons sec secs)
  then show ?case
    using videoSection_ok [OF offeredAt_ok [of offers k], of sec "secs = []"]
    by (auto simp: mline_kept_def)
qed simp

lemma sections_videoLines:
  "list_all offered_ok offers \<Longrightarrow> sections (videoLines offers lines) = videoSections offers 0 (sections lines)"
  unfolding videoLines_def
  by (rule sections_reassemble [OF plain_preamble]) (simp add: videoSections_ok sections_ok)

lemma preamble_videoLines:
  "list_all offered_ok offers \<Longrightarrow> preamble (videoLines offers lines) = preamble lines"
  unfolding videoLines_def
  by (rule preamble_reassemble [OF plain_preamble]) (simp add: videoSections_ok sections_ok)

lemma length_videoSections [simp]: "length (videoSections offers k secs) = length secs"
  by (induction secs arbitrary: k) simp_all

text \<open>The sections that are not video sections come out byte for byte.\<close>

lemma videoSections_other:
  assumes "list_all offered_ok offers" "list_all section_ok secs"
  shows "filter (\<lambda>s. \<not> HasPrefix (hd s) ''m=video '') (videoSections offers k secs) =
    filter (\<lambda>s. \<not> HasPrefix (hd s) ''m=video '') secs"
  using assms(2)
proof (induction secs arbitrary: k)
  case (Cons sec secs)
  then show ?case
    using videoSection_ok [OF offeredAt_ok [OF assms(1), of k], of sec "secs = []"] by auto
qed simp

lemma setInactive_direction:
  "list_all (\<lambda>l. \<not> isActiveDirection l) (setInactive b body) \<and> ''a=inactive'' \<in> set (setInactive b body)"
proof (cases "list_ex isDirection body")
  case True
  then obtain l where l: "l \<in> set body" "isDirection l" by (auto simp: list_ex_iff)
  then have "toInactive l = ''a=inactive''" by (auto simp: isDirection_def toInactive_def)
  with l(1) have "''a=inactive'' \<in> toInactive ` set body" by force
  then show ?thesis using True
    by (auto simp: setInactive_def list_all_iff toInactive_def isActiveDirection_def)
next
  case False
  then show ?thesis
    by (auto simp: setInactive_def list_all_iff list_ex_iff isDirection_def isActiveDirection_def)
qed

lemma isActiveDirection_not_rtpmap: "alexaRTPMapPayload l \<noteq> None \<Longrightarrow> toInactive l = l"
  by (auto simp: toInactive_def isActiveDirection_def alexaRTPMapPayload_def)

lemma setInactive_rtpmap:
  "alexaSectionHasRTPMap body p \<Longrightarrow> alexaSectionHasRTPMap (setInactive b body) p"
  by (force simp: alexaSectionHasRTPMap_def setInactive_def list_ex_iff isActiveDirection_not_rtpmap)

lemma addRTPMap_rtpmap:
  "alexaRTPMapPayload (rtpmap off) = Some (payload off) \<Longrightarrow>
   alexaSectionHasRTPMap (addRTPMap off b body) (payload off)"
proof -
  assume r: "alexaRTPMapPayload (rtpmap off) = Some (payload off)"
  then have "rtpmap off \<noteq> ''''" by (auto simp: alexaRTPMapPayload_def)
  with r show ?thesis by (auto simp: addRTPMap_def alexaSectionHasRTPMap_def list_ex_iff)
qed

lemma setInactive_lines: "set (setInactive b body) \<subseteq> insert ''a=inactive'' (set body)"
  by (auto simp: setInactive_def toInactive_def)

lemma addRTPMap_lines: "set (addRTPMap off b body) \<subseteq> insert (rtpmap off) (set body)"
  by (auto simp: addRTPMap_def)

section \<open>What an offer contributes\<close>

lemma word_field: "f \<in> set (Fields s) \<Longrightarrow> word f"
proof -
  assume f: "f \<in> set (Fields s)"
  then have "f \<noteq> []" by (rule Fields_nonempty)
  moreover have "\<not> isBlank c" if "c \<in> set f" for c
    using Fields_no_space [OF f that] by (auto simp: isBlank_def IsSpace_def)
  ultimately show ?thesis by (simp add: word_def list_all_iff)
qed

lemma no_NL_field: "f \<in> set (Fields s) \<Longrightarrow> NL \<notin> set f"
proof
  assume "f \<in> set (Fields s)" "NL \<in> set f"
  from Fields_no_space [OF this] show False by (simp add: IsSpace_def)
qed

lemma selectedPayload_in: "4 \<le> length flds \<Longrightarrow> selectedPayload flds \<in> set flds"
  by (auto simp: selectedPayload_def dest: in_set_dropD)

text \<open>Everything the offer contributes is free of line feeds, so it cannot break a line.\<close>

definition offered_clean :: "alexaOfferedVideoPayload \<Rightarrow> bool" where
  "offered_clean off = (NL \<notin> set (payload off) \<and> NL \<notin> set (rtpmap off) \<and>
     (payload off = '''' \<or> word (payload off)))"

lemma offeredPayloadAt_clean:
  assumes "list_all (\<lambda>l. NL \<notin> set l) lines"
  shows "offered_clean (offeredPayloadAt lines i)"
proof (cases "length (Fields (lines ! i)) < 4")
  case True
  then show ?thesis by (simp add: offeredPayloadAt_def offered_clean_def)
next
  case False
  let ?sel = "selectedPayload (Fields (lines ! i))"
  have "?sel \<in> set (Fields (lines ! i))" using False by (intro selectedPayload_in) simp
  then have sel: "NL \<notin> set ?sel" "word ?sel" by (simp_all add: no_NL_field word_field)
  have "NL \<notin> set (lines ! j)"
    if "find P [i + 1..<scanSection lines (i + 1)] = Some j" for P j
  proof -
    have j: "j < scanSection lines (i + 1)" "i + 1 \<le> j" using that by (auto simp: find_Some_iff)
    have "j < length lines"
    proof (cases "i + 1 \<le> length lines")
      case True
      then show ?thesis using scanSection_le [of "i + 1" lines] j by simp
    next
      case False
      then have "scanSection lines (i + 1) = i + 1" by (subst scanSection.simps) simp
      with j show ?thesis by simp
    qed
    then show ?thesis using assms by (simp add: list_all_length)
  qed
  then show ?thesis using False sel
    by (auto simp: offeredPayloadAt_def offered_clean_def Let_def split: option.splits)
qed

lemma alexaOfferedVideoPayloads_clean: "list_all offered_clean (alexaOfferedVideoPayloads offer)"
proof -
  have "list_all (\<lambda>l. NL \<notin> set l) (Split s LF)" for s
    using Split_pieces_free [of LF s] by simp
  then show ?thesis
    by (simp add: alexaOfferedVideoPayloads_def Let_def list_all_iff offeredPayloadAt_clean)
qed

definition videoMaterial :: "alexaOfferedVideoPayload list \<Rightarrow> string set" where
  "videoMaterial offers = rtpmap ` set offers \<union> payload ` set offers \<union> {'''', ''a=inactive''}"

lemma blank_clean:
  assumes "list_all isBlank bl" "sep_ok sep"
  shows "\<not> Contains bl sep" "bl = [] \<or> hd bl \<noteq> NL" "bl = [] \<or> last bl \<noteq> CR"
proof -
  have "\<not> isBlank NL" "\<not> isBlank CR" by (simp_all add: isBlank_def)
  with assms(1) have nl: "NL \<notin> set bl" and cr: "CR \<notin> set bl" by (meson list_all_iff)+
  show "\<not> Contains bl sep" by (rule no_NL_clean [OF assms(2) nl])
  show "bl = [] \<or> hd bl \<noteq> NL" using nl by (cases bl) auto
  show "bl = [] \<or> last bl \<noteq> CR" using cr by (cases bl rule: rev_cases) auto
qed

lemma pieces_clean:
  assumes "sep_ok sep" "\<not> Contains x sep" "gap bl" "\<not> Contains pay sep" "list_all isBlank t"
  shows "\<not> Contains (x @ bl @ pay @ t) sep"
proof -
  note bl = blank_clean [OF gap_blank [OF assms(3)] assms(1)] and t = blank_clean [OF assms(5,1)]
  have "\<not> Contains (x @ bl) sep"
    using bl(2) by (intro Contains_append_clean [OF assms(1,2) bl(1)]) blast
  moreover have "\<not> Contains (pay @ t) sep"
    using t(2) by (intro Contains_append_clean [OF assms(1,4) t(1)]) blast
  moreover have "last (x @ bl) \<noteq> CR" using bl(3) assms(3) by (simp add: gap_def)
  ultimately have "\<not> Contains ((x @ bl) @ (pay @ t)) sep"
    using Contains_append_clean [OF assms(1), of "x @ bl" "pay @ t"] by blast
  then show ?thesis by simp
qed

lemma normalizedMLine_clean:
  assumes "normalizeAlexaRejectedVideoMLine line pay = (line', True)" "sep_ok sep"
    "\<not> Contains line sep" "\<not> Contains pay sep"
  shows "\<not> Contains line' sep"
proof (rule normalizedMLine_cases [OF assms(1)])
  fix bl0 bl1 bl2 bl3 w2 t
  let ?x = "bl0 @ ''m=video'' @ bl1 @ ''0'' @ bl2 @ w2"
  assume line': "line' = ?x @ bl3 @ pay @ t" and u: "\<exists>u. line = ?x @ u"
    and g: "gap bl3" "list_all isBlank t"
  from u have "\<not> Contains ?x sep" using assms(3) Contains_prefix by blast
  from pieces_clean [OF assms(2) this g(1) assms(4) g(2)] show ?thesis unfolding line' .
qed

lemma offeredAt_material: "rtpmap (offeredAt offers k) \<in> videoMaterial offers"
    "payload (offeredAt offers k) \<in> videoMaterial offers"
  by (auto simp: offeredAt_def videoMaterial_def)

lemma videoSection_clean:
  assumes "sep_ok sep" "clean sep sec" "sec \<noteq> []" "\<not> Contains (rtpmap off) sep"
    "\<not> Contains (payload off) sep"
  shows "clean sep (videoSection off b sec)"
proof (cases "snd (normalizeAlexaRejectedVideoMLine (hd sec) (payload off))")
  case True
  then obtain m' where m': "normalizeAlexaRejectedVideoMLine (hd sec) (payload off) = (m', True)"
    by (metis prod.collapse)
  obtain m body where sec: "sec = m # body" using assms(3) by (cases sec) auto
  have "\<not> Contains m' sep"
    using normalizedMLine_clean [OF m' assms(1) _ assms(5)] assms(2) sec by (simp add: clean_def)
  moreover have "\<not> Contains l sep" if "l \<in> set (setInactive b (addRTPMap off b body))" for l
  proof -
    from that have "l \<in> {''a=inactive'', rtpmap off} \<union> set body"
      using setInactive_lines [of b "addRTPMap off b body"] addRTPMap_lines [of off b body] by blast
    moreover have "\<not> Contains ''a=inactive'' sep" using assms(1) by (rule no_NL_clean) simp
    moreover have "\<not> Contains k sep" if "k \<in> set body" for k
      using assms(2) that sec by (simp add: clean_def list_all_iff)
    ultimately show ?thesis using assms(4) by blast
  qed
  ultimately show ?thesis
    using m' sec by (simp add: videoSection_eligible clean_def list_all_iff)
qed (use assms in \<open>simp add: videoSection_not_eligible\<close>)

lemma videoSections_clean:
  assumes "sep_ok sep" "\<And>l. l \<in> videoMaterial offers \<Longrightarrow> \<not> Contains l sep"
  shows "list_all section_ok secs \<Longrightarrow> list_all (clean sep) secs \<Longrightarrow>
    list_all (clean sep) (videoSections offers k secs)"
proof (induction secs arbitrary: k)
  case (Cons sec secs)
  then have "sec \<noteq> []" by (cases sec) auto
  with Cons show ?case
    using videoSection_clean [of sep sec "offeredAt offers k" "secs = []"] assms offeredAt_material
    by simp
qed simp

lemma clean_simps [simp]:
  "clean sep (a @ b) \<longleftrightarrow> clean sep a \<and> clean sep b"
  "clean sep (concat secs) \<longleftrightarrow> list_all (clean sep) secs"
  by (auto simp: clean_def list_all_iff)

lemma videoLines_clean:
  assumes "sep_ok sep" "clean sep ls" "\<And>l. l \<in> videoMaterial offers \<Longrightarrow> \<not> Contains l sep"
  shows "clean sep (videoLines offers ls)"
proof -
  have "clean sep (preamble ls @ concat (sections ls))" using assms(2) by (simp only: lines_decompose)
  then show ?thesis
    using videoSections_clean [OF assms(1,3) sections_ok] by (simp add: videoLines_def)
qed

interpretation video: sdp_rewriter "videoLines (alexaOfferedVideoPayloads offer)"
  "videoMaterial (alexaOfferedVideoPayloads offer)"
  for offer
proof unfold_locales
  fix ls
  let ?o = "alexaOfferedVideoPayloads offer"
  show "preamble (videoLines ?o ls) = preamble ls"
    by (rule preamble_videoLines [OF alexaOfferedVideoPayloads_ok])
  show "list_all2 mline_kept (map hd (sections ls)) (map hd (sections (videoLines ?o ls)))"
    by (simp add: sections_videoLines videoSections_ok alexaOfferedVideoPayloads_ok sections_ok)
qed (rule videoLines_clean)

section \<open>The offer, section by section\<close>

definition sectionPayload :: "string list \<Rightarrow> alexaOfferedVideoPayload" where
  "sectionPayload sec =
     (let flds = Fields (hd sec) in
      if length flds < 4 then noPayload
      else let selected = selectedPayload flds in
        \<lparr>payload = selected,
         rtpmap = (case find (\<lambda>l. alexaRTPMapPayload l = Some selected) (tl sec) of
           None \<Rightarrow> '''' | Some l \<Rightarrow> l)\<rparr>)"

lemma find_shift_line:
  "(case find (\<lambda>i. P ((pre @ body @ rest) ! i)) [length pre..<length pre + length body] of
      None \<Rightarrow> d | Some i \<Rightarrow> (pre @ body @ rest) ! i) =
   (case find P body of None \<Rightarrow> d | Some l \<Rightarrow> l)"
proof -
  have "map_option ((!) (pre @ body @ rest))
      (find (\<lambda>i. P ((pre @ body @ rest) ! i)) [length pre..<length pre + length body]) = find P body"
  proof -
    have "find P (map ((!) (pre @ body @ rest)) is) =
        map_option ((!) (pre @ body @ rest)) (find (\<lambda>i. P ((pre @ body @ rest) ! i)) is)" for "is"
      by (induction "is") auto
    from this [of "[length pre..<length pre + length body]"] show ?thesis
      by (simp only: map_nth_middle)
  qed
  then show ?thesis by (auto split: option.splits)
qed

lemma offeredPayloadAt_section:
  assumes "plain body" "starts_section rest"
  shows "offeredPayloadAt (pre @ m # body @ rest) (length pre) = sectionPayload (m # body)"
proof -
  have "(case find (\<lambda>i. P ((pre @ m # body @ rest) ! i))
      [Suc (length pre)..<Suc (length pre + length body)] of
      None \<Rightarrow> '''' | Some i \<Rightarrow> (pre @ m # body @ rest) ! i) =
    (case find P body of None \<Rightarrow> '''' | Some l \<Rightarrow> l)" for P
  proof -
    have "(pre @ [m]) @ body @ rest = pre @ m # body @ rest"
      "length (pre @ [m]) = Suc (length pre)" "Suc (length pre) + length body = Suc (length pre + length body)"
      by simp_all
    then show ?thesis using find_shift_line [where P = P and pre = "pre @ [m]" and body = body and rest = rest and d = "''''"]
      by metis
  qed
  from this [of "\<lambda>l. alexaRTPMapPayload l = Some (selectedPayload (Fields m))"] show ?thesis
    using scanSection_append [OF assms, of pre m]
    by (simp add: offeredPayloadAt_def sectionPayload_def Let_def del: upt_Suc)
qed

lemma offered_sections:
  assumes "starts_section ls"
  shows "map (offeredPayloadAt (pre @ ls))
      (filter (\<lambda>i. HasPrefix ((pre @ ls) ! i) ''m=video '') [length pre..<length pre + length ls]) =
    map sectionPayload (filter (\<lambda>s. HasPrefix (hd s) ''m=video '') (sections ls))"
  using assms
proof (induction arbitrary: pre rule: section_induct)
  case (Section m body rest)
  let ?L = "pre @ m # body @ rest" and ?n = "length pre"
  have idx: "[?n..<?n + length (m # body @ rest)] = ?n # [Suc ?n..<Suc ?n + length body] @
      [Suc ?n + length body..<Suc ?n + length body + length rest]"
    using upt_add_eq_append [of "Suc ?n" "Suc ?n + length body" "length rest"]
    by (simp add: upt_conv_Cons add.assoc del: upt_Suc)
  have "\<not> HasPrefix (?L ! i) ''m=video ''" if "i \<in> set [Suc ?n..<Suc ?n + length body]" for i
  proof -
    from that have "?L ! i = body ! (i - Suc ?n)" "i - Suc ?n < length body"
      by (auto simp: nth_append simp del: upt_Suc)
    then show ?thesis using Section.hyps(2) video_isMLine plainD nth_mem by metis
  qed
  then have body: "filter (\<lambda>i. HasPrefix (?L ! i) ''m=video '') [Suc ?n..<Suc ?n + length body] = []"
    by (simp add: filter_empty_conv)
  show ?case
    using Section.IH [of "pre @ m # body"] Section.hyps offeredPayloadAt_section [of body rest pre m]
    unfolding idx filter.simps filter_append body by (simp add: sections_Cons)
qed simp

lemma alexaOfferedVideoPayloads_sections:
  "alexaOfferedVideoPayloads offer =
   map sectionPayload (filter (\<lambda>s. HasPrefix (hd s) ''m=video '')
     (sections (Split (ReplaceAll offer CRLF LF) LF)))"
proof -
  let ?L = "Split (ReplaceAll offer CRLF LF) LF"
  let ?F = "\<lambda>is. filter (\<lambda>i. HasPrefix (?L ! i) ''m=video '') is"
  have len: "length ?L = length (preamble ?L) + length (mediaPart ?L)"
    using arg_cong [OF preamble_mediaPart [of ?L], of length] by simp
  have up: "[0..<length ?L] = [0..<length (preamble ?L)] @
      [length (preamble ?L)..<length (preamble ?L) + length (mediaPart ?L)]"
    unfolding len by (rule upt_add_eq_append) simp
  have "\<not> HasPrefix (?L ! i) ''m=video ''" if "i < length (preamble ?L)" for i
  proof -
    have "?L ! i = preamble ?L ! i" using that by (metis nth_append preamble_mediaPart)
    then show ?thesis using that plain_preamble [of ?L] video_isMLine plainD nth_mem by metis
  qed
  then have "?F [0..<length (preamble ?L)] = []" by (simp add: filter_empty_conv)
  then show ?thesis
    using offered_sections [OF starts_mediaPart, of "preamble ?L" ?L]
    by (simp add: alexaOfferedVideoPayloads_def Let_def up preamble_mediaPart
        sections_preamble [of ?L] del: upt_Suc)
qed

section \<open>Reading a result by position\<close>

definition videoIndex :: "string list list \<Rightarrow> nat \<Rightarrow> nat" where
  "videoIndex secs k = length (filter (\<lambda>s. HasPrefix (hd s) ''m=video '') (take k secs))"

lemma nth_videoSections:
  "k < length secs \<Longrightarrow>
   videoSections offers v secs ! k =
   (if HasPrefix (hd (secs ! k)) ''m=video ''
    then videoSection (offeredAt offers (v + videoIndex secs k)) (Suc k = length secs) (secs ! k)
    else secs ! k)"
proof (induction secs arbitrary: v k)
  case (Cons sec secs)
  show ?case
  proof (cases k)
    case 0
    then show ?thesis by (simp add: videoIndex_def)
  next
    case (Suc j)
    then show ?thesis using Cons.IH [of j] Cons.prems
      by (auto simp: videoIndex_def)
  qed
qed simp

text \<open>Everything a rewritten video section guarantees.\<close>

lemma videoSection_result:
  assumes "section_ok sec" "normalizeAlexaRejectedVideoMLine (hd sec) (payload off) = (m', True)"
    "word (payload off)"
  shows "\<exists>proto. bfields (hd (videoSection off b sec)) = [''m=video'', ''0'', proto, payload off]"
    "''a=inactive'' \<in> set (tl (videoSection off b sec))"
    "list_all (\<lambda>l. \<not> isActiveDirection l) (tl (videoSection off b sec))"
    "alexaRTPMapPayload (rtpmap off) = Some (payload off) \<Longrightarrow>
      alexaSectionHasRTPMap (tl (videoSection off b sec)) (payload off)"
proof -
  obtain m body where sec: "sec = m # body" using assms(1) by (cases sec) auto
  have v: "videoSection off b sec = m' # setInactive b (addRTPMap off b body)"
    using assms(2) sec by (simp add: videoSection_eligible)
  show "\<exists>proto. bfields (hd (videoSection off b sec)) = [''m=video'', ''0'', proto, payload off]"
    using normalizedMLine_fields [OF assms(2,3)] by (simp add: v)
  show "''a=inactive'' \<in> set (tl (videoSection off b sec))"
    "list_all (\<lambda>l. \<not> isActiveDirection l) (tl (videoSection off b sec))"
    using setInactive_direction [of b "addRTPMap off b body"] by (simp_all add: v)
  show "alexaSectionHasRTPMap (tl (videoSection off b sec)) (payload off)"
    if "alexaRTPMapPayload (rtpmap off) = Some (payload off)"
    using setInactive_rtpmap [OF addRTPMap_rtpmap [OF that]] by (simp add: v)
qed

end
