(* ===== verification/SdpMeta.thy ===== *)
theory SdpMeta
  imports SdpLines
begin

text \<open>
  The two readers of an SDP description in \<^verbatim>\<open>internal/rtc/server.go\<close>: \<^verbatim>\<open>validateOffer\<close>, which
  decides whether an offer is acceptable, and \<^verbatim>\<open>extractICESDPLogMetadata\<close>, which collects
  what the server logs about a description.  The parser \<^verbatim>\<open>sdp.SessionDescription.Unmarshal\<close>
  is not part of this repository and is a parameter: it returns the media descriptions of
  the text, or the text of its error.
\<close>

section \<open>Errors of the RTC package\<close>

text \<open>The sentinel errors of \<^verbatim>\<open>server.go\<close> and \<^verbatim>\<open>session_manager.go\<close>, any other error with its
  message, and an error wrapped with \<^verbatim>\<open>%w\<close> and further text.  \<open>errorsIs\<close> is \<^verbatim>\<open>errors.Is\<close>:
  it looks through the wrapping.\<close>

datatype rtcError =
    ErrInvalidSDP
  | ErrOpusRequired
  | ErrAnswerTimeout
  | ErrSessionExists
  | ErrSessionNotFound
  | OtherError string
  | Wrapped rtcError string

fun errorsIs :: "rtcError \<Rightarrow> rtcError \<Rightarrow> bool" where
  "errorsIs (Wrapped e detail) target = (Wrapped e detail = target \<or> errorsIs e target)"
| "errorsIs e target = (e = target)"

section \<open>Offer validation\<close>

record mediaDescription =
  mdMedia :: string
  mdPort :: int
  mdFormats :: "string list"
  mdAttributes :: "(string \<times> string) list"

text \<open>The innermost loop body: whether an attribute maps an offered format to Opus at 48 kHz.\<close>

definition opusAttribute :: "string list \<Rightarrow> string \<times> string \<Rightarrow> bool" where
  "opusAttribute formats attribute =
     (let (key, val) = attribute in
      if key \<noteq> ''rtpmap'' then False
      else let flds = Fields val in
        if length flds \<noteq> 2 then False
        else if flds ! 0 \<notin> set formats then False
        else let codec = Split (ToLower (flds ! 1)) ''/'' in
          2 \<le> length codec \<and> codec ! 0 = ''opus'' \<and> codec ! 1 = ''48000'')"

fun validateMedia :: "mediaDescription list \<Rightarrow> bool \<Rightarrow> rtcError option" where
  "validateMedia [] foundAudio =
     Some (if \<not> foundAudio then Wrapped ErrOpusRequired ''audio media section is missing''
           else ErrOpusRequired)"
| "validateMedia (media # rest) foundAudio =
     (if mdMedia media \<noteq> ''audio'' then validateMedia rest foundAudio
      else if mdPort media = 0 then validateMedia rest True
      else if list_ex (opusAttribute (mdFormats media)) (mdAttributes media) then None
      else validateMedia rest True)"

definition validateOffer ::
  "(string \<Rightarrow> string + mediaDescription list) \<Rightarrow> string \<Rightarrow> rtcError option" where
  "validateOffer unmarshal raw =
     (case unmarshal raw of
        Inl err \<Rightarrow> Some (Wrapped ErrInvalidSDP err)
      | Inr medias \<Rightarrow> validateMedia medias False)"

text \<open>What the offer has to contain, said without the loops: an \<^verbatim>\<open>rtpmap\<close> attribute of two words, the
  first a format that the section offers, the second \<^verbatim>\<open>opus/48000\<close> in any case of the letters,
  alone or followed by a slash and the number of channels.\<close>

definition mapsToOpus :: "string list \<Rightarrow> string \<times> string \<Rightarrow> bool" where
  "mapsToOpus formats attribute =
     (fst attribute = ''rtpmap'' \<and>
      (case Fields (snd attribute) of
         [format, codec] \<Rightarrow> format \<in> set formats \<and>
           (ToLower codec = ''opus/48000'' \<or> HasPrefix (ToLower codec) ''opus/48000/'')
       | _ \<Rightarrow> False))"

text \<open>An audio section that can carry Opus: not disabled, and a format of its own mapped to it.\<close>

definition opusMedia :: "mediaDescription \<Rightarrow> bool" where
  "opusMedia media =
     (mdMedia media = ''audio'' \<and> mdPort media \<noteq> 0 \<and>
      list_ex (mapsToOpus (mdFormats media)) (mdAttributes media))"

lemma Split_two:
  assumes "c \<notin> set x" "c \<notin> set y"
  shows "2 \<le> length (Split s [c]) \<and> Split s [c] ! 0 = x \<and> Split s [c] ! 1 = y \<longleftrightarrow>
    s = x @ c # y \<or> HasPrefix s (x @ c # y @ [c])"
proof
  assume "2 \<le> length (Split s [c]) \<and> Split s [c] ! 0 = x \<and> Split s [c] ! 1 = y"
  then obtain zs where "Split s [c] = x # y # zs"
    by (cases "Split s [c]" rule: remdups_adj.cases) auto
  then have "s = Join (x # y # zs) [c]" using Join_Split [of "[c]" s] by simp
  then show "s = x @ c # y \<or> HasPrefix s (x @ c # y @ [c])" by (cases zs) (simp_all add: HasPrefix_iff)
next
  assume "s = x @ c # y \<or> HasPrefix s (x @ c # y @ [c])"
  then consider "s = x @ c # y" | r where "s = x @ c # y @ c # r" by (auto simp: HasPrefix_iff)
  then show "2 \<le> length (Split s [c]) \<and> Split s [c] ! 0 = x \<and> Split s [c] ! 1 = y"
    using assms by cases (simp_all add: Split_append_char Split_free)
qed

lemma opusAttribute_iff: "opusAttribute formats attribute \<longleftrightarrow> mapsToOpus formats attribute"
proof -
  have codec: "2 \<le> length (Split c ''/'') \<and> Split c ''/'' ! 0 = ''opus'' \<and> Split c ''/'' ! 1 = ''48000'' \<longleftrightarrow>
      c = ''opus/48000'' \<or> HasPrefix c ''opus/48000/''" for c
    using Split_two [of "CHR ''/''" "''opus''" "''48000''" c] by simp
  show ?thesis
  proof (cases "\<exists>f c. Fields (snd attribute) = [f, c]")
    case True
    then obtain f c where f: "Fields (snd attribute) = [f, c]" by blast
    show ?thesis using codec [of "ToLower c"]
      by (simp add: opusAttribute_def mapsToOpus_def Let_def case_prod_unfold f numeral_2_eq_2)
  next
    case False
    then have "length (Fields (snd attribute)) \<noteq> 2" by (auto simp: length_Suc_conv numeral_2_eq_2)
    moreover have "\<not> mapsToOpus formats attribute" using False by (auto simp: mapsToOpus_def split: list.splits)
    ultimately show ?thesis by (simp add: opusAttribute_def Let_def case_prod_unfold)
  qed
qed

lemma validateMedia_eq:
  "validateMedia medias found =
   (if list_ex opusMedia medias then None
    else if found \<or> list_ex (\<lambda>m. mdMedia m = ''audio'') medias then Some ErrOpusRequired
    else Some (Wrapped ErrOpusRequired ''audio media section is missing''))"
  by (induction medias arbitrary: found) (auto simp: opusMedia_def opusAttribute_iff [abs_def])

section \<open>Log metadata\<close>

record iceSDPLogMetadata =
  HasIceLite :: bool
  HasTrickle :: bool
  BundleMIDs :: "string list"

abbreviation emptyMetadata :: iceSDPLogMetadata where
  "emptyMetadata \<equiv> \<lparr>HasIceLite = False, HasTrickle = False, BundleMIDs = []\<rparr>"

fun metadataLoop :: "string list \<Rightarrow> iceSDPLogMetadata \<Rightarrow> bool \<Rightarrow> iceSDPLogMetadata" where
  "metadataLoop [] metadata bundleSeen = metadata"
| "metadataLoop (line # rest) metadata bundleSeen =
     (if HasPrefix line ''m='' then metadata
      else if line = ''a=ice-lite''
      then metadataLoop rest (metadata\<lparr>HasIceLite := True\<rparr>) bundleSeen
      else if HasPrefix line ''a=ice-options:''
      then metadataLoop rest
        (if ''trickle'' \<in> set (Fields (TrimPrefix line ''a=ice-options:''))
         then metadata\<lparr>HasTrickle := True\<rparr> else metadata) bundleSeen
      else let flds = Fields line in
        if \<not> bundleSeen \<and> 0 < length flds \<and> flds ! 0 = ''a=group:BUNDLE''
        then metadataLoop rest
          (metadata\<lparr>BundleMIDs := BundleMIDs metadata @ drop 1 flds\<rparr>) True
        else metadataLoop rest metadata bundleSeen)"

definition extractICESDPLogMetadata :: "string \<Rightarrow> iceSDPLogMetadata" where
  "extractICESDPLogMetadata raw =
     metadataLoop (Split (ReplaceAll raw CRLF LF) LF) emptyMetadata False"

lemma metadataLoop_preamble: "metadataLoop (preamble lines) md seen = metadataLoop lines md seen"
  by (induction lines arbitrary: md seen) (simp_all add: preamble_def Let_def)

lemma metadataLoop_lite:
  "plain lines \<Longrightarrow>
   HasIceLite (metadataLoop lines md seen) \<longleftrightarrow> HasIceLite md \<or> ''a=ice-lite'' \<in> set lines"
  by (induction lines arbitrary: md seen) (auto simp: Let_def)

lemma metadataLoop_trickle:
  "plain lines \<Longrightarrow>
   HasTrickle (metadataLoop lines md seen) \<longleftrightarrow> HasTrickle md \<or>
   (\<exists>l \<in> set lines. HasPrefix l ''a=ice-options:'' \<and>
      ''trickle'' \<in> set (Fields (TrimPrefix l ''a=ice-options:'')))"
  by (induction lines arbitrary: md seen) (auto simp: Let_def)

lemma metadataLoop_seen: "BundleMIDs (metadataLoop lines md True) = BundleMIDs md"
  by (induction lines arbitrary: md) (auto simp: Let_def)

text \<open>The lines the loop reads a BUNDLE group from.\<close>

definition isBundleGroup :: "string \<Rightarrow> bool" where
  "isBundleGroup l =
     (l \<noteq> ''a=ice-lite'' \<and> \<not> HasPrefix l ''a=ice-options:'' \<and>
      Fields l \<noteq> [] \<and> hd (Fields l) = ''a=group:BUNDLE'')"

lemma metadataLoop_bundle:
  "plain lines \<Longrightarrow> BundleMIDs (metadataLoop lines md False) = BundleMIDs md @
   (case find isBundleGroup lines of None \<Rightarrow> [] | Some l \<Rightarrow> drop 1 (Fields l))"
proof (induction lines arbitrary: md)
  case (Cons l lines)
  then show ?case
    by (cases "Fields l") (auto simp: Let_def isBundleGroup_def metadataLoop_seen hd_conv_nth)
qed simp

text \<open>The lines an LF-based reader sees in a CRLF-joined description.\<close>

lemma ReplaceAll_free: "\<not> Contains s CRLF \<Longrightarrow> ReplaceAll s CRLF new = s"
  by (induction s) auto

lemma ReplaceAll_append_CRLF:
  "\<not> Contains x CRLF \<Longrightarrow> ReplaceAll (x @ CR # NL # rest) CRLF LF = x @ NL # ReplaceAll rest CRLF LF"
proof (induction x)
  case (Cons c x)
  then have free: "\<not> Contains x CRLF" and np: "\<not> HasPrefix (c # x) CRLF" by auto
  have "\<not> HasPrefix (c # x @ CR # NL # rest) CRLF" using np by (cases x) auto
  with Cons.IH [OF free] show ?case by simp
qed simp

lemma ReplaceAll_Join: "clean CRLF ls \<Longrightarrow> ReplaceAll (Join ls CRLF) CRLF LF = Join ls LF"
  by (induction ls CRLF rule: Join.induct)
    (simp_all add: clean_def ReplaceAll_free ReplaceAll_append_CRLF)

lemma Split_lines_CRLF:
  assumes "list_all (\<lambda>l. NL \<notin> set l) ls" "ls \<noteq> []"
  shows "Split (ReplaceAll (Join ls CRLF) CRLF LF) LF = ls"
proof -
  have "clean CRLF ls" using assms(1) no_NL_clean [of CRLF] by (auto simp: clean_def list_all_iff)
  then show ?thesis using Split_Join [of LF ls] assms by (simp add: ReplaceAll_Join)
qed

lemma extract_Join:
  "list_all (\<lambda>l. NL \<notin> set l) ls \<Longrightarrow> ls \<noteq> [] \<Longrightarrow>
   extractICESDPLogMetadata (Join ls CRLF) = metadataLoop (preamble ls) emptyMetadata False"
  using Split_lines_CRLF [of ls] by (simp add: extractICESDPLogMetadata_def metadataLoop_preamble)

section \<open>Properties\<close>

lemma mapsToOpus_eq:
  "mapsToOpus formats (key, val) \<longleftrightarrow> key = ''rtpmap'' \<and> (\<exists>format codec. Fields val = [format, codec] \<and>
     format \<in> set formats \<and> (ToLower codec = ''opus/48000'' \<or> (\<exists>rest. ToLower codec = ''opus/48000/'' @ rest)))"
  by (auto simp: mapsToOpus_def HasPrefix_iff split: list.splits)

text \<open>C16: an offer is accepted exactly if it parses and one of its media sections is an audio section
  with a non-zero port that has an \<^verbatim>\<open>rtpmap\<close> attribute of exactly two words, of which the first is
  one of the section's own formats and the second is \<^verbatim>\<open>opus/48000\<close>, in any case of the letters,
  alone or followed by a slash and anything.  Otherwise the error says which of the two
  failed: \<open>errors.Is\<close> with \<^verbatim>\<open>ErrInvalidSDP\<close> holds exactly for parse errors, and with
  \<^verbatim>\<open>ErrOpusRequired\<close> exactly for parsed offers without such a section.\<close>

theorem validateOffer_correct:
  "(validateOffer unmarshal raw = None \<longleftrightarrow>
     (\<exists>medias media. unmarshal raw = Inr medias \<and> media \<in> set medias \<and>
        mdMedia media = ''audio'' \<and> mdPort media \<noteq> 0 \<and>
        (\<exists>val format codec. (''rtpmap'', val) \<in> set (mdAttributes media) \<and> Fields val = [format, codec] \<and>
           format \<in> set (mdFormats media) \<and>
           (ToLower codec = ''opus/48000'' \<or> (\<exists>rest. ToLower codec = ''opus/48000/'' @ rest))))) \<and>
   ((\<exists>e. validateOffer unmarshal raw = Some e \<and> errorsIs e ErrInvalidSDP) \<longleftrightarrow>
     (\<exists>err. unmarshal raw = Inl err)) \<and>
   ((\<exists>e. validateOffer unmarshal raw = Some e \<and> errorsIs e ErrOpusRequired) \<longleftrightarrow>
     (\<exists>medias. unmarshal raw = Inr medias \<and> validateOffer unmarshal raw \<noteq> None))"
proof (intro conjI)
  have opus: "list_ex opusMedia medias \<longleftrightarrow> (\<exists>media \<in> set medias. mdMedia media = ''audio'' \<and> mdPort media \<noteq> 0 \<and>
        (\<exists>val format codec. (''rtpmap'', val) \<in> set (mdAttributes media) \<and> Fields val = [format, codec] \<and>
           format \<in> set (mdFormats media) \<and>
           (ToLower codec = ''opus/48000'' \<or> (\<exists>rest. ToLower codec = ''opus/48000/'' @ rest))))" for medias
    unfolding list_ex_iff opusMedia_def Bex_def split_paired_Ex mapsToOpus_eq by blast
  have "validateOffer unmarshal raw = None \<longleftrightarrow> (\<exists>medias. unmarshal raw = Inr medias \<and> list_ex opusMedia medias)"
    by (cases "unmarshal raw") (simp_all add: validateOffer_def validateMedia_eq)
  then show "validateOffer unmarshal raw = None \<longleftrightarrow>
     (\<exists>medias media. unmarshal raw = Inr medias \<and> media \<in> set medias \<and>
        mdMedia media = ''audio'' \<and> mdPort media \<noteq> 0 \<and>
        (\<exists>val format codec. (''rtpmap'', val) \<in> set (mdAttributes media) \<and> Fields val = [format, codec] \<and>
           format \<in> set (mdFormats media) \<and>
           (ToLower codec = ''opus/48000'' \<or> (\<exists>rest. ToLower codec = ''opus/48000/'' @ rest))))"
    unfolding opus by blast
  show "(\<exists>e. validateOffer unmarshal raw = Some e \<and> errorsIs e ErrInvalidSDP) \<longleftrightarrow> (\<exists>err. unmarshal raw = Inl err)"
    "(\<exists>e. validateOffer unmarshal raw = Some e \<and> errorsIs e ErrOpusRequired) \<longleftrightarrow>
     (\<exists>medias. unmarshal raw = Inr medias \<and> validateOffer unmarshal raw \<noteq> None)"
    by (cases "unmarshal raw"; simp add: validateOffer_def validateMedia_eq)+
qed

text \<open>C40: the logged metadata are those of the session part: the \<open>ice-lite\<close> flag, \<open>trickle\<close> as
  one of the ICE options, and the MIDs of the first BUNDLE group.\<close>

theorem extractICESDPLogMetadata_correct:
  "HasIceLite (extractICESDPLogMetadata raw) =
     (''a=ice-lite'' \<in> set (preamble (Split (ReplaceAll raw CRLF LF) LF))) \<and>
   HasTrickle (extractICESDPLogMetadata raw) =
     list_ex (\<lambda>l. HasPrefix l ''a=ice-options:'' \<and>
         ''trickle'' \<in> set (Fields (TrimPrefix l ''a=ice-options:'')))
       (preamble (Split (ReplaceAll raw CRLF LF) LF)) \<and>
   BundleMIDs (extractICESDPLogMetadata raw) =
     (case find isBundleGroup (preamble (Split (ReplaceAll raw CRLF LF) LF)) of
        None \<Rightarrow> [] | Some l \<Rightarrow> drop 1 (Fields l))"
proof -
  let ?L = "Split (ReplaceAll raw CRLF LF) LF"
  have e: "extractICESDPLogMetadata raw = metadataLoop (preamble ?L) emptyMetadata False"
    by (simp add: extractICESDPLogMetadata_def metadataLoop_preamble)
  show ?thesis unfolding e
    using metadataLoop_lite [OF plain_preamble, of ?L emptyMetadata False]
      metadataLoop_trickle [OF plain_preamble, of ?L emptyMetadata False]
      metadataLoop_bundle [OF plain_preamble, of ?L emptyMetadata]
    by (simp add: list_ex_iff)
qed

end
