(* ===== verification/SdpPipeline.thy ===== *)
theory SdpPipeline
  imports SdpMux SdpMid SdpVideo SdpMeta
begin

text \<open>
  The three normalisers in the order in which \<^verbatim>\<open>NewSession\<close> applies them to Pion's answer
  (\<^verbatim>\<open>internal/rtc/server.go\<close>, lines 186 to 188).  Each stage joins its lines and the next
  splits them again; for an answer in CRLF form the chain is the composition of the three
  rewrites on lines, whatever the offer, and so keeps what each of them keeps.
\<close>

definition normalizeAnswer :: "(string \<Rightarrow> bool) \<Rightarrow> string \<Rightarrow> string \<Rightarrow> string" where
  "normalizeAnswer unmarshalOk offer answer =
     (let videoNormalizedAnswer = normalizeAlexaRejectedVideoPayloads offer answer;
          midNormalizedAnswer = normalizeAlexaRejectedMediaMIDs offer videoNormalizedAnswer
      in normalizeAlexaRTCPMuxCandidates unmarshalOk midNormalizedAnswer)"

definition normalizeLines :: "(string \<Rightarrow> bool) \<Rightarrow> string \<Rightarrow> string list \<Rightarrow> string list" where
  "normalizeLines unmarshalOk offer lines =
     muxLines unmarshalOk (midLines (alexaOfferMediaSections offer)
       (videoLines (alexaOfferedVideoPayloads offer) lines))"

text \<open>An answer as Pion writes it: CRLF lines, a session part and at least one media section.\<close>

definition answerLines :: "string list \<Rightarrow> bool" where
  "answerLines ls = (clean CRLF ls \<and> preamble ls \<noteq> [] \<and> sections ls \<noteq> [])"

interpretation videoMid: sdp_pipeline "videoLines (alexaOfferedVideoPayloads offer)"
  "videoMaterial (alexaOfferedVideoPayloads offer)" "midLines (alexaOfferMediaSections offer)"
  "midLine ` set (alexaOfferMediaSections offer)"
  for offer
  by unfold_locales

interpretation full: sdp_pipeline
  "\<lambda>ls. midLines (alexaOfferMediaSections offer) (videoLines (alexaOfferedVideoPayloads offer) ls)"
  "videoMaterial (alexaOfferedVideoPayloads offer) \<union> midLine ` set (alexaOfferMediaSections offer)"
  "muxLines U" "{}"
  for offer U
  by unfold_locales

section \<open>What the offer contributes is free of CRLF\<close>

lemma Contains_drop: "Contains (drop n s) sep \<Longrightarrow> Contains s sep"
  by (auto simp: Contains_iff) (metis append_assoc append_take_drop_id)

lemma videoMaterial_clean:
  assumes "sep_ok sep" "l \<in> videoMaterial (alexaOfferedVideoPayloads offer)"
  shows "\<not> Contains l sep"
proof (rule no_NL_clean [OF assms(1)])
  show "NL \<notin> set l"
    using assms(2) alexaOfferedVideoPayloads_clean [of offer]
    by (auto simp: videoMaterial_def offered_clean_def list_all_iff)
qed

lemma offer_lines_clean: "clean CRLF (Split offer (lineSeparatorOf offer))"
proof (cases "Contains offer CRLF")
  case True
  then show ?thesis by (simp add: lineSeparatorOf_def clean_Split)
next
  case False
  then have "list_all (\<lambda>x. NL \<notin> set x) (Split offer LF)" using Split_pieces_free [of LF offer] by simp
  then have "clean CRLF (Split offer LF)"
    using no_NL_clean [of CRLF] by (auto simp: clean_def list_all_iff)
  with False show ?thesis by (simp add: lineSeparatorOf_def)
qed

lemma sectionMid_line: "mid off \<noteq> '''' \<Longrightarrow> off = offerSection sec \<Longrightarrow> midLine off \<in> set (tl sec)"
proof -
  assume "mid off \<noteq> ''''" and off: "off = offerSection sec"
  then obtain l where l: "find (\<lambda>l. HasPrefix l ''a=mid:'') (tl sec) = Some l"
    "mid off = TrimPrefix l ''a=mid:''"
    by (auto simp: offerSection_def sectionMid_def split: option.splits)
  then have "l \<in> set (tl sec)" "HasPrefix l ''a=mid:''" by (auto simp: find_Some_iff in_set_conv_nth)
  moreover from this l(2) have "midLine off = l"
    by (auto simp: midLine_def TrimPrefix_def HasPrefix_iff)
  ultimately show ?thesis by simp
qed

lemma midMaterial_clean:
  assumes "l \<in> midLine ` set (alexaOfferMediaSections offer)"
  shows "\<not> Contains l CRLF"
proof -
  let ?L = "Split offer (lineSeparatorOf offer)"
  obtain off sec where off: "l = midLine off" "off = offerSection sec" "sec \<in> set (sections ?L)"
    using assms by (auto simp: alexaOfferMediaSections_eq)
  show ?thesis
  proof (cases "mid off = ''''")
    case True
    have "\<not> Contains ''a=mid:'' CRLF" by (rule no_NL_clean) simp_all
    with True off(1) show ?thesis by (simp add: midLine_def)
  next
    case False
    then have "l \<in> set (tl sec)" using off sectionMid_line by simp
    then have "l \<in> set sec" by (cases sec) auto
    then have "l \<in> set (preamble ?L @ concat (sections ?L))" using off(3) by auto
    then have "l \<in> set ?L" by (simp only: lines_decompose)
    then show ?thesis using offer_lines_clean [of offer] by (auto simp: clean_def list_all_iff)
  qed
qed

section \<open>The chain is the composition on lines\<close>

lemma lineSeparatorOf_Join: "2 \<le> length ls \<Longrightarrow> lineSeparatorOf (Join ls CRLF) = CRLF"
proof -
  assume "2 \<le> length ls"
  then obtain x y ys where "ls = x # y # ys" by (cases ls; cases "tl ls") auto
  then have "Contains (Join ls CRLF) CRLF" by (auto simp: Contains_iff)
  then show ?thesis by (simp add: lineSeparatorOf_def)
qed

lemma answerLines_length: "answerLines ls \<Longrightarrow> 2 \<le> length ls"
proof -
  assume a: "answerLines ls"
  obtain m body secs where "sections ls = (m # body) # secs"
    using a sections_ok [of ls] by (cases "sections ls"; cases "hd (sections ls)")
      (auto simp: answerLines_def)
  then have "length (preamble ls @ concat (sections ls)) \<ge> 1 + 1"
    using a by (cases "preamble ls") (auto simp: answerLines_def)
  then show ?thesis by (simp only: lines_decompose)
qed

lemma answerLines_Split: "answerLines ls \<Longrightarrow> Split (Join ls CRLF) CRLF = ls"
proof (rule Split_Join)
  assume a: "answerLines ls"
  show "ls \<noteq> []" using answerLines_length [OF a] by auto
  show "list_all (\<lambda>x. \<not> Contains x CRLF) ls" using a by (simp add: answerLines_def clean_def)
qed simp

lemma video_answerLines:
  "answerLines ls \<Longrightarrow> answerLines (videoLines (alexaOfferedVideoPayloads offer) ls)"
  using video.keeps_clean [of CRLF ls offer] video.keeps_section_count [of offer ls]
    videoMaterial_clean [of CRLF _ offer]
  by (auto simp: answerLines_def video.keeps_preamble)

lemma mid_answerLines:
  "answerLines ls \<Longrightarrow> answerLines (midLines (alexaOfferMediaSections offer) ls)"
  using mids.keeps_clean [of CRLF ls "alexaOfferMediaSections offer"] midMaterial_clean [of _ offer]
    mids.keeps_section_count [of "alexaOfferMediaSections offer" ls]
  by (auto simp: answerLines_def mids.keeps_preamble)

lemma normalizeAnswer_lines:
  assumes "answerLines ls"
  shows "normalizeAnswer U offer (Join ls CRLF) = Join (normalizeLines U offer ls) CRLF"
proof -
  note v = video_answerLines [OF assms, of offer]
  note m = mid_answerLines [OF v, of offer]
  note seps = assms [THEN answerLines_length] v [THEN answerLines_length] m [THEN answerLines_length]
  show ?thesis
    by (simp only: normalizeAnswer_def Let_def normalizeAlexaRejectedVideoPayloads_eq
        normalizeAlexaRejectedMediaMIDs_eq normalizeAlexaRTCPMuxCandidates_eq
        answerLines_Split [OF assms] answerLines_Split [OF v] answerLines_Split [OF m]
        lineSeparatorOf_Join [OF seps(1)] lineSeparatorOf_Join [OF seps(2)]
        lineSeparatorOf_Join [OF seps(3)] normalizeLines_def)
qed

end
