(* ===== verification/SdpResult.thy ===== *)
theory SdpResult
  imports SdpPipeline
begin

text \<open>
  What the answer that leaves the server looks like, section by section: the chain of the
  three normalisers read at one position of the answer.  The properties of the SDP part of
  \<^verbatim>\<open>internal/rtc/server.go\<close> are stated here, over the model's \<^verbatim>\<open>normalizeAnswer\<close> on strings.
\<close>

section \<open>One position of the result\<close>

definition resultSections :: "(string \<Rightarrow> bool) \<Rightarrow> string \<Rightarrow> string list \<Rightarrow> string list list" where
  "resultSections U offer ls = sections (Split (normalizeAnswer U offer (Join ls CRLF)) CRLF)"

lemma normalizeLines_answer: "answerLines ls \<Longrightarrow> answerLines (normalizeLines U offer ls)"
  using mux.keeps_clean [of CRLF "midLines (alexaOfferMediaSections offer)
      (videoLines (alexaOfferedVideoPayloads offer) ls)" U]
    mid_answerLines [OF video_answerLines, of ls offer offer]
    mux.keeps_section_count [of U "midLines (alexaOfferMediaSections offer)
      (videoLines (alexaOfferedVideoPayloads offer) ls)"]
  by (auto simp: normalizeLines_def answerLines_def mux.keeps_preamble)

lemma Split_normalizeAnswer:
  "answerLines ls \<Longrightarrow> Split (normalizeAnswer U offer (Join ls CRLF)) CRLF = normalizeLines U offer ls"
  by (simp only: normalizeAnswer_lines answerLines_Split [OF normalizeLines_answer])

lemma nth_resultSections:
  assumes "answerLines ls" "k < length (sections ls)"
  shows "resultSections U offer ls ! k =
    muxSection U (midSection (alexaOfferMediaSections offer) k
      (videoSections (alexaOfferedVideoPayloads offer) 0 (sections ls) ! k))"
  using assms
  by (simp add: resultSections_def Split_normalizeAnswer normalizeLines_def sections_muxLines
      sections_midLines sections_videoLines alexaOfferedVideoPayloads_ok)

text \<open>The first field of a media line whose media type is written in ASCII.\<close>

lemma fields_from_ascii:
  "(\<And>c. c \<in> set w \<Longrightarrow> byte_of c < 0x80 \<and> \<not> IsSpace (byte_of c)) \<Longrightarrow>
   fields_from (runes (w @ s)) cur = fields_from (runes s) (cur @ w)"
  by (induction w arbitrary: cur) (simp_all add: runes_ascii_Cons)

lemma Fields_video: "HasPrefix m ''m=video '' \<Longrightarrow> 0 < length (Fields m) \<and> Fields m ! 0 = ''m=video''"
proof -
  assume "HasPrefix m ''m=video ''"
  then obtain s where m: "m = ''m=video'' @ '' '' @ s" by (auto simp: HasPrefix_iff)
  have "fields_from (runes m) [] = fields_from (runes ('' '' @ s)) ([] @ ''m=video'')"
    unfolding m by (rule fields_from_ascii) (auto simp: IsSpace_def)
  also have "\<dots> = ''m=video'' # fields_from (runes s) []"
    by (simp add: runes_ascii_Cons IsSpace_def)
  finally show ?thesis by (simp add: Fields_def)
qed

lemma muxSection_video: "HasPrefix (hd sec) ''m=video '' \<Longrightarrow> muxSection U sec = sec"
  using Fields_video [of "hd sec"]
  by (simp add: muxSection_def muxEligible_def acceptedAudioLine_def Let_def)

lemma muxSection_rejected: "1 < length (Fields (hd sec)) \<Longrightarrow> Fields (hd sec) ! 1 = ''0'' \<Longrightarrow> muxSection U sec = sec"
  by (simp add: muxSection_def muxEligible_def acceptedAudioLine_def Let_def Atoi_def ParseUint_def
      decimal_def is_digit_def digit_val_def)

lemma normalizedMLine_iff:
  "snd (normalizeAlexaRejectedVideoMLine line pay) \<longleftrightarrow>
   pay \<noteq> '''' \<and> (\<exists>p. bfields line = [''m=video'', ''0'', p] \<or> bfields line = [''m=video'', ''0'', p, ''0''])"
proof -
  let ?s = "sdpFieldSpans line"
  have b: "bfields line = map (spanText line) ?s" by (rule spanText_sdpFieldSpans [symmetric])
  have l3: "length ?s = 3 \<Longrightarrow> ?s = [?s ! 0, ?s ! 1, ?s ! 2]"
    by (cases ?s; cases "tl ?s"; cases "tl (tl ?s)") auto
  have l4: "length ?s = 4 \<Longrightarrow> ?s = [?s ! 0, ?s ! 1, ?s ! 2, ?s ! 3]"
    by (cases ?s; cases "tl ?s"; cases "tl (tl ?s)"; cases "tl (tl (tl ?s))") auto
  show ?thesis
  proof (cases "length ?s = 3 \<or> length ?s = 4")
    case True
    then show ?thesis
    proof
      assume n: "length ?s = 3"
      then have "bfields line = [spanText line (?s ! 0), spanText line (?s ! 1), spanText line (?s ! 2)]"
        by (subst b, subst l3 [OF n]) simp
      with n show ?thesis by (auto simp: normalizeAlexaRejectedVideoMLine_def Let_def)
    next
      assume n: "length ?s = 4"
      then have "bfields line = [spanText line (?s ! 0), spanText line (?s ! 1), spanText line (?s ! 2),
          spanText line (?s ! 3)]"
        by (subst b, subst l4 [OF n]) simp
      with n show ?thesis by (auto simp: normalizeAlexaRejectedVideoMLine_def Let_def)
    qed
  next
    case False
    then have "length (bfields line) \<noteq> 3" "length (bfields line) \<noteq> 4" by (simp_all add: b)
    then have "\<not> (\<exists>p. bfields line = [''m=video'', ''0'', p] \<or> bfields line = [''m=video'', ''0'', p, ''0''])"
      by auto
    moreover have "length ?s < 3 \<or> 4 < length ?s" using False by arith
    ultimately show ?thesis by (auto simp: normalizeAlexaRejectedVideoMLine_def Let_def)
  qed
qed

text \<open>A media line whose port is 0, by either of the two ways the code splits it.\<close>

definition portZero :: "string \<Rightarrow> bool" where
  "portZero m =
     ((1 < length (bfields m) \<and> bfields m ! 1 = ''0'') \<or> (1 < length (Fields m) \<and> Fields m ! 1 = ''0''))"

lemma alexaMediaLineFields_SomeD:
  "alexaMediaLineFields m = Some fs \<Longrightarrow> fs = Fields m \<and> 4 \<le> length fs"
  by (auto simp: alexaMediaLineFields_def Let_def split: if_splits)

lemma midEligible_port:
  "midEligible offers k sec \<Longrightarrow> 1 < length (Fields (hd sec)) \<and> Fields (hd sec) ! 1 = ''0''"
  by (auto simp: midEligible_def split: option.splits dest!: alexaMediaLineFields_SomeD)

lemma accepted_not_video: "\<not> portZero (hd sec) \<Longrightarrow> videoSection off b sec = sec"
  by (rule videoSection_not_eligible) (auto simp: normalizedMLine_iff portZero_def)

lemma offeredAt_video:
  assumes "off = offeredAt (alexaOfferedVideoPayloads offer) v" "payload off \<noteq> ''''"
  shows "word (payload off)" "rtpmap off \<noteq> '''' \<Longrightarrow> alexaRTPMapPayload (rtpmap off) = Some (payload off)"
proof -
  from assms have "off \<in> set (alexaOfferedVideoPayloads offer)"
    by (auto simp: offeredAt_def split: if_splits)
  then obtain sec where sec: "off = sectionPayload sec"
    by (auto simp: alexaOfferedVideoPayloads_sections)
  with assms(2) have len: "4 \<le> length (Fields (hd sec))"
    by (auto simp: sectionPayload_def Let_def not_less split: if_splits)
  have "selectedPayload (Fields (hd sec)) \<in> set (Fields (hd sec))"
    using len by (auto simp: selectedPayload_def dest: in_set_dropD)
  then show "word (payload off)"
    using len by (simp add: sec sectionPayload_def Let_def not_less word_field)
  show "alexaRTPMapPayload (rtpmap off) = Some (payload off)" if "rtpmap off \<noteq> ''''"
  proof (cases "find (\<lambda>l. alexaRTPMapPayload l = Some (selectedPayload (Fields (hd sec)))) (tl sec)")
    case None
    then show ?thesis using that len by (simp add: sec sectionPayload_def Let_def not_less)
  next
    case (Some l)
    then have "alexaRTPMapPayload l = Some (selectedPayload (Fields (hd sec)))"
      by (auto simp: find_Some_iff)
    with Some show ?thesis using len by (simp add: sec sectionPayload_def Let_def not_less)
  qed
qed

lemma midSection_tl:
  assumes "sec \<noteq> []"
  shows "set (tl sec) \<subseteq> set (tl (midSection offers k sec))"
    "set (tl (midSection offers k sec)) \<subseteq> set (tl sec) \<union> {midLine (offers ! k)}"
  by (rule midSection_cases [of offers k sec]; auto)+

lemma muxSection_tl: "set (tl (muxSection U sec)) \<subseteq> set (tl sec)"
  by (auto simp: muxSection_def)

section \<open>The log metadata only reads the session part\<close>

lemma Split_append_LF_full: "Split (x @ NL # rest) LF = Split x LF @ Split rest LF"
proof (induction x)
  case (Cons c x)
  show ?case
  proof (cases "c = NL")
    case False
    obtain y ys where "Split x LF = y # ys" by (cases "Split x LF") auto
    with Cons False show ?thesis by simp
  qed (use Cons in simp)
qed simp

lemma metadataLoop_stop: "isMLine m \<Longrightarrow> metadataLoop (xs @ m # ys) md seen = metadataLoop xs md seen"
  by (induction xs arbitrary: md seen) (simp_all add: Let_def)

lemma Split_LF_mline: "isMLine m \<Longrightarrow> isMLine (hd (Split (m @ s) LF))"
proof -
  assume "isMLine m"
  then obtain t where "m @ s = CHR ''m'' # CHR ''='' # t @ s" by (auto simp: HasPrefix_iff)
  then show ?thesis by (auto split: list.splits)
qed

lemma Join_append:
  "xs \<noteq> [] \<Longrightarrow> ys \<noteq> [] \<Longrightarrow> Join (xs @ ys) sep = Join xs sep @ sep @ Join ys sep"
proof (induction xs)
  case (Cons x xs)
  then show ?case by (cases "xs = []") (simp_all add: Join_Cons)
qed simp

lemma Join_hd: "ys \<noteq> [] \<Longrightarrow> \<exists>s. Join ys sep = hd ys @ s"
  by (cases ys; cases "tl ys") auto

lemma extract_session_part:
  assumes "answerLines ls"
  shows "extractICESDPLogMetadata (Join ls CRLF) =
    metadataLoop (Split (Join (preamble ls) LF) LF) emptyMetadata False"
proof -
  have c: "clean CRLF ls" and pre: "preamble ls \<noteq> []" and med: "mediaPart ls \<noteq> []"
    using assms by (auto simp: answerLines_def sections_preamble [of ls])
  then obtain s where s: "Join (mediaPart ls) LF = hd (mediaPart ls) @ s"
    using Join_hd by blast
  have m: "isMLine (hd (mediaPart ls))"
    using starts_mediaPart [of ls] med by (simp add: starts_section_def)
  have "Join ls LF = Join (preamble ls) LF @ NL # Join (mediaPart ls) LF"
    using Join_append [OF pre med, of LF] by (simp add: preamble_mediaPart)
  moreover obtain y ys where ys: "Split (hd (mediaPart ls) @ s) LF = y # ys"
    by (cases "Split (hd (mediaPart ls) @ s) LF") auto
  moreover have "isMLine y" using Split_LF_mline [OF m, of s] ys by simp
  ultimately show ?thesis
    by (simp add: extractICESDPLogMetadata_def ReplaceAll_Join [OF c] Split_append_LF_full s
        metadataLoop_stop)
qed

section \<open>Properties of the normalised answer\<close>

definition rejectedVideoLine :: "string \<Rightarrow> bool" where
  "rejectedVideoLine m =
     (case bfields m of
        [media, port, proto] \<Rightarrow> media = ''m=video'' \<and> port = ''0''
      | [media, port, proto, fmt] \<Rightarrow> media = ''m=video'' \<and> port = ''0'' \<and> fmt = ''0''
      | _ \<Rightarrow> False)"

lemma rejectedVideoLine_eligible:
  "rejectedVideoLine m \<Longrightarrow> pay \<noteq> '''' \<Longrightarrow> snd (normalizeAlexaRejectedVideoMLine m pay)"
  unfolding normalizedMLine_iff rejectedVideoLine_def by (auto split: list.splits)

text \<open>A description used by the witnesses below: an offer with audio and two video payloads,
  and the answer to it with the video section rejected.\<close>

definition exOffer :: string where
  "exOffer = Join [''v=0'', ''m=audio 9 UDP/TLS/RTP/SAVPF 111'', ''a=mid:0'',
     ''m=video 9 UDP/TLS/RTP/SAVPF 96 102'', ''a=rtpmap:96 VP8/90000'',
     ''a=rtpmap:102 H264/90000'', ''a=mid:1'', ''''] CRLF"

definition exAnswer :: "string list" where
  "exAnswer = [''v=0'', ''a=group:BUNDLE 0'', ''m=audio 9 UDP/TLS/RTP/SAVPF 111'', ''a=mid:0'',
     ''a=rtcp-mux'', ''a=candidate:1 1 udp 1 192.0.2.1 9 typ host'',
     ''a=candidate:1 2 udp 1 192.0.2.1 9 typ host'', ''m=video 0 UDP/TLS/RTP/SAVPF 0'',
     ''c=IN IP4 0.0.0.0'', '''']"

lemma exAnswer_lines: "answerLines exAnswer"
  by code_simp

lemma exAnswer_sections: "length (sections exAnswer) = 2"
  by code_simp

text \<open>C12: the rewritten answer has the session part of Pion's answer, as many media sections in
  the same order, and the same media line for each of them, except that the media line of a
  video section may be replaced by another video media line.\<close>

theorem normalizeAnswer_structure:
  assumes "answerLines ls"
  shows "preamble (Split (normalizeAnswer U offer (Join ls CRLF)) CRLF) = preamble ls \<and>
    list_all2 mline_kept (map hd (sections ls)) (map hd (resultSections U offer ls))"
  unfolding resultSections_def Split_normalizeAnswer [OF assms] normalizeLines_def
  by (rule conjI [OF full.both.keeps_preamble full.both.keeps_mlines])

theorem normalizeAnswer_structure_witness:
  "answerLines exAnswer \<and>
   preamble (Split (normalizeAnswer (\<lambda>_. True) exOffer (Join exAnswer CRLF)) CRLF) = preamble exAnswer \<and>
   list_all2 mline_kept (map hd (sections exAnswer)) (map hd (resultSections (\<lambda>_. True) exOffer exAnswer))"
  using normalizeAnswer_structure [OF exAnswer_lines] exAnswer_lines by blast

text \<open>The candidates of the RTCP component and the audio lines with a port, said without the loops.\<close>

definition rtcpCandidate :: "(string \<Rightarrow> bool) \<Rightarrow> string \<Rightarrow> bool" where
  "rtcpCandidate U l =
     (HasPrefix l ''a=candidate:'' \<and>
      (case Fields l of
         foundation # component # rest \<Rightarrow> component = ''2'' \<and> foundation \<noteq> ''a=candidate:'' \<and>
           U (TrimPrefix (Join (foundation # ''2'' # rest) '' '') ''a='')
       | _ \<Rightarrow> False))"

definition audioWithPort :: "string \<Rightarrow> bool" where
  "audioWithPort m =
     (case Fields m of
        media # port # rest \<Rightarrow> media = ''m=audio'' \<and> (case Atoi port of None \<Rightarrow> False | Some n \<Rightarrow> 0 < n)
      | _ \<Rightarrow> False)"

lemma candidateRemovable_iff: "candidateRemovable U = rtcpCandidate U"
  by (rule ext) (auto simp: candidateRemovable_def rtcpCandidate_def Let_def split: list.split)

lemma acceptedAudioLine_iff: "acceptedAudioLine = audioWithPort"
  by (rule ext) (auto simp: acceptedAudioLine_def audioWithPort_def Let_def split: list.split option.split)

text \<open>C3: a section that Pion accepted (its port is not 0) leaves the chain byte for byte as it
  came, except that in an audio section with \<open>a=rtcp-mux\<close> the RTCP component candidates that
  the ICE parser accepts are gone.\<close>

theorem normalizeAnswer_accepted_section:
  assumes "answerLines ls" "k < length (sections ls)" "sec = sections ls ! k" "\<not> portZero (hd sec)"
  shows "resultSections U offer ls ! k =
    (if audioWithPort (hd sec) \<and> ''a=rtcp-mux'' \<in> set (tl sec)
     then hd sec # filter (\<lambda>l. \<not> rtcpCandidate U l) (tl sec) else sec)"
proof -
  have "\<not> midEligible (alexaOfferMediaSections offer) k sec"
    using assms(4) midEligible_port by (auto simp: portZero_def)
  then have "resultSections U offer ls ! k = muxSection U sec"
    using assms by (simp add: nth_resultSections nth_videoSections accepted_not_video
        midSection_not_eligible)
  then show ?thesis
    by (simp add: muxSection_def muxEligible_def candidateRemovable_iff acceptedAudioLine_iff)
qed

theorem normalizeAnswer_accepted_section_witness:
  "resultSections (\<lambda>_. True) exOffer exAnswer ! 0 =
     [''m=audio 9 UDP/TLS/RTP/SAVPF 111'', ''a=mid:0'', ''a=rtcp-mux'',
      ''a=candidate:1 1 udp 1 192.0.2.1 9 typ host'']"
proof -
  let ?sec = "sections exAnswer ! 0"
  have z: "\<not> portZero (hd ?sec)" by code_simp
  have n: "0 < length (sections exAnswer)" using exAnswer_sections by simp
  have "audioWithPort (hd ?sec) \<and> ''a=rtcp-mux'' \<in> set (tl ?sec)" by code_simp
  moreover have "hd ?sec # filter (\<lambda>l. \<not> rtcpCandidate (\<lambda>_. True) l) (tl ?sec) =
      [''m=audio 9 UDP/TLS/RTP/SAVPF 111'', ''a=mid:0'', ''a=rtcp-mux'',
       ''a=candidate:1 1 udp 1 192.0.2.1 9 typ host'']" by code_simp
  ultimately show ?thesis
    using normalizeAnswer_accepted_section [OF exAnswer_lines n refl z, of "\<lambda>_. True" exOffer] by presburger
qed

text \<open>C4: a rejected video section gets the payload type of the offer's video section with the
  same number, is inactive, has no active direction left, and has an \<open>rtpmap\<close> line for the
  payload if the offer had one.\<close>

theorem normalizeAnswer_rejected_video:
  assumes "answerLines ls" "k < length (sections ls)" "HasPrefix (hd (sections ls ! k)) ''m=video ''"
    "rejectedVideoLine (hd (sections ls ! k))"
    "off = offeredAt (alexaOfferedVideoPayloads offer) (videoIndex (sections ls) k)"
    "payload off \<noteq> ''''"
  shows "(\<exists>proto. bfields (hd (resultSections U offer ls ! k)) = [''m=video'', ''0'', proto, payload off]) \<and>
    ''a=inactive'' \<in> set (tl (resultSections U offer ls ! k)) \<and>
    list_all (\<lambda>l. \<not> isActiveDirection l) (tl (resultSections U offer ls ! k)) \<and>
    (rtpmap off = '''' \<or> alexaSectionHasRTPMap (tl (resultSections U offer ls ! k)) (payload off))"
proof -
  let ?sec = "sections ls ! k" and ?offers = "alexaOfferMediaSections offer"
  let ?v = "videoSection off (Suc k = length (sections ls)) ?sec"
  obtain m' where m': "normalizeAlexaRejectedVideoMLine (hd ?sec) (payload off) = (m', True)"
    using rejectedVideoLine_eligible [OF assms(4,6)]
    by (cases "normalizeAlexaRejectedVideoMLine (hd ?sec) (payload off)") auto
  have ok: "section_ok ?sec" using assms(2) sections_ok [of ls] by (simp add: list_all_length)
  note res = videoSection_result [OF ok m' offeredAt_video(1) [OF assms(5,6)], of "Suc k = length (sections ls)"]
  have offok: "offered_ok off"
    using alexaOfferedVideoPayloads_ok [of offer]
    by (auto simp: assms(5) offeredAt_def offered_ok_def list_all_iff)
  then have pre: "HasPrefix (hd ?v) ''m=video ''" and ne: "?v \<noteq> []"
    using videoSection_ok [OF offok ok assms(3), of "Suc k = length (sections ls)"] by auto
  have r: "resultSections U offer ls ! k = midSection ?offers k ?v"
    using assms(1-3) pre ne
    by (simp add: nth_resultSections nth_videoSections assms(5) muxSection_video midSection_hd)
  have "\<not> isActiveDirection (midLine x)" for x by (simp add: midLine_def isActiveDirection_def)
  then have "list_all (\<lambda>l. \<not> isActiveDirection l) (tl (midSection ?offers k ?v))"
    using res(3) midSection_tl(2) [OF ne, of ?offers k] by (auto simp: list_all_iff)
  moreover have "alexaSectionHasRTPMap (tl (midSection ?offers k ?v)) (payload off)" if "rtpmap off \<noteq> ''''"
    using res(4) [OF offeredAt_video(2) [OF assms(5,6) that]] midSection_tl(1) [OF ne, of ?offers k]
    by (auto simp: alexaSectionHasRTPMap_def list_ex_iff)
  moreover have "''a=inactive'' \<in> set (tl (midSection ?offers k ?v))"
    using res(2) midSection_tl(1) [OF ne] by blast
  ultimately show ?thesis unfolding r using res(1) midSection_hd [OF ne] by auto
qed

theorem normalizeAnswer_rejected_video_witness:
  "rejectedVideoLine (hd (sections exAnswer ! 1)) \<and>
   (\<exists>proto. bfields (hd (resultSections (\<lambda>_. True) exOffer exAnswer ! 1)) = [''m=video'', ''0'', proto, ''102'']) \<and>
   ''a=inactive'' \<in> set (tl (resultSections (\<lambda>_. True) exOffer exAnswer ! 1)) \<and>
   alexaSectionHasRTPMap (tl (resultSections (\<lambda>_. True) exOffer exAnswer ! 1)) ''102''"
proof -
  have o: "offeredAt (alexaOfferedVideoPayloads exOffer) (videoIndex (sections exAnswer) 1) =
      \<lparr>payload = ''102'', rtpmap = ''a=rtpmap:102 H264/90000''\<rparr>" by code_simp
  have r: "rejectedVideoLine (hd (sections exAnswer ! 1))" by code_simp
  have v: "HasPrefix (hd (sections exAnswer ! 1)) ''m=video ''" by code_simp
  have n: "1 < length (sections exAnswer)" by (simp add: exAnswer_sections)
  from normalizeAnswer_rejected_video [OF exAnswer_lines n v r o [symmetric]] r show ?thesis by simp
qed

text \<open>C5: whatever the video stage left, a rejected section that matches the offer's section at
  its position in media type and lacks a MID comes out with the MID the offer gave it, and
  nothing else changes in it.\<close>

theorem normalizeAnswer_rejected_mid:
  assumes "answerLines ls" "k < length (sections ls)"
    "sec = videoSections (alexaOfferedVideoPayloads offer) 0 (sections ls) ! k"
    "midEligible (alexaOfferMediaSections offer) k sec"
  shows "sectionMid (tl (resultSections U offer ls ! k)) = mid (alexaOfferMediaSections offer ! k) \<and>
    (\<exists>b1 b2. tl sec = b1 @ b2 \<and> resultSections U offer ls ! k =
       hd sec # b1 @ midLine (alexaOfferMediaSections offer ! k) # b2)"
proof -
  let ?o = "alexaOfferMediaSections offer"
  have ne: "sec \<noteq> []" using assms(4) by (simp add: midEligible_def)
  have r: "resultSections U offer ls ! k = midSection ?o k sec"
    using assms(1,2) midEligible_port [OF assms(4)] ne
    by (simp add: nth_resultSections assms(3) [symmetric] muxSection_rejected midSection_hd)
  have "\<exists>b1 b2. tl sec = b1 @ b2 \<and> midSection ?o k sec = hd sec # b1 @ midLine (?o ! k) # b2"
    by (rule midSection_cases [of ?o k sec]) (use assms(4) in auto)
  then show ?thesis using midSection_mid [OF assms(4)] by (simp add: r)
qed

theorem normalizeAnswer_rejected_mid_witness:
  "sectionMid (tl (resultSections (\<lambda>_. True) exOffer exAnswer ! 1)) = ''1''"
proof -
  have e: "midEligible (alexaOfferMediaSections exOffer) 1
      (videoSections (alexaOfferedVideoPayloads exOffer) 0 (sections exAnswer) ! 1)" by code_simp
  have m: "mid (alexaOfferMediaSections exOffer ! 1) = ''1''" by code_simp
  have n: "1 < length (sections exAnswer)" by (simp add: exAnswer_sections)
  from normalizeAnswer_rejected_mid [OF exAnswer_lines n refl e, of "\<lambda>_. True"] m show ?thesis by simp
qed

text \<open>The ICE metadata that the server logs is the same for Pion's answer and for the
  rewritten one.\<close>

lemma normalizeAnswer_log_metadata:
  assumes "answerLines ls"
  shows "extractICESDPLogMetadata (normalizeAnswer U offer (Join ls CRLF)) =
    extractICESDPLogMetadata (Join ls CRLF)"
  unfolding normalizeAnswer_lines [OF assms]
    extract_session_part [OF normalizeLines_answer [OF assms]] extract_session_part [OF assms]
  by (simp only: normalizeLines_def mux.keeps_preamble mids.keeps_preamble video.keeps_preamble)

lemma normalizeAnswer_log_metadata_example:
  "extractICESDPLogMetadata (normalizeAnswer (\<lambda>_. True) exOffer (Join exAnswer CRLF)) =
   \<lparr>HasIceLite = False, HasTrickle = False, BundleMIDs = [''0'']\<rparr>"
proof -
  have "extractICESDPLogMetadata (Join exAnswer CRLF) =
      \<lparr>HasIceLite = False, HasTrickle = False, BundleMIDs = [''0'']\<rparr>" by code_simp
  with normalizeAnswer_log_metadata [OF exAnswer_lines, of "\<lambda>_. True" exOffer] show ?thesis by simp
qed

text \<open>C13: the three index loops of the code, with their slices, insertions and marks, compute the
  section-wise rewrites of the reference definitions, for every offer and every answer.\<close>

theorem normalisers_equivalence:
  "normalizeAlexaRejectedVideoPayloads offer answer =
     Join (videoLines (alexaOfferedVideoPayloads offer) (Split answer (lineSeparatorOf answer)))
       (lineSeparatorOf answer) \<and>
   normalizeAlexaRejectedMediaMIDs offer answer =
     Join (midLines (alexaOfferMediaSections offer) (Split answer (lineSeparatorOf answer)))
       (lineSeparatorOf answer) \<and>
   normalizeAlexaRTCPMuxCandidates U answer =
     Join (muxLines U (Split answer (lineSeparatorOf answer))) (lineSeparatorOf answer)"
  by (simp only: normalizeAlexaRejectedVideoPayloads_eq normalizeAlexaRejectedMediaMIDs_eq
      normalizeAlexaRTCPMuxCandidates_eq)

text \<open>What the normalisers read from the offer is one entry per media section, respectively
  per video section, computed from that section alone.\<close>

lemma offer_readers_by_section:
  "alexaOfferMediaSections offer = map offerSection (sections (Split offer (lineSeparatorOf offer))) \<and>
   alexaOfferedVideoPayloads offer =
     map sectionPayload (filter (\<lambda>s. HasPrefix (hd s) ''m=video '')
       (sections (Split (ReplaceAll offer CRLF LF) LF)))"
  by (simp only: alexaOfferMediaSections_eq alexaOfferedVideoPayloads_sections)

end
