(* ===== verification/Machine.thy ===== *)
theory Machine
  imports GoPrelude
begin

text \<open>
  Transition systems as interfaces.  The session and the session manager are shared by
  several goroutines; each is modelled as a machine whose steps are the critical sections
  of the code and the actions between them, in any order the scheduler may choose.  Here:
  reachability, invariants and simulations, proved once.
\<close>

text \<open>A sequence of events, each of which must be possible when it comes.\<close>

fun runEvents :: "('ev \<Rightarrow> 'st \<Rightarrow> 'st option) \<Rightarrow> 'ev list \<Rightarrow> 'st \<Rightarrow> 'st option" where
  "runEvents exec [] s = Some s"
| "runEvents exec (e # es) s = (case exec e s of None \<Rightarrow> None | Some s' \<Rightarrow> runEvents exec es s')"

lemma runEvents_append:
  "runEvents exec (es @ es') s =
   (case runEvents exec es s of None \<Rightarrow> None | Some s' \<Rightarrow> runEvents exec es' s')"
  by (induction es arbitrary: s) (auto split: option.splits)

locale machine =
  fixes start :: "'st \<Rightarrow> bool"
    and exec :: "'ev \<Rightarrow> 'st \<Rightarrow> 'st option"
begin

inductive reachable :: "'st \<Rightarrow> bool" where
  reach_start: "start s \<Longrightarrow> reachable s"
| reach_step: "reachable s \<Longrightarrow> exec e s = Some s' \<Longrightarrow> reachable s'"

abbreviation runs :: "'ev list \<Rightarrow> 'st \<Rightarrow> 'st option" where
  "runs \<equiv> runEvents exec"

lemma reachable_runs: "reachable s \<Longrightarrow> runs es s = Some s' \<Longrightarrow> reachable s'"
  by (induction es arbitrary: s) (auto split: option.splits intro: reach_step)

lemma reachable_iff: "reachable s \<longleftrightarrow> (\<exists>s0 es. start s0 \<and> runs es s0 = Some s)"
proof
  show "reachable s \<Longrightarrow> \<exists>s0 es. start s0 \<and> runs es s0 = Some s"
  proof (induction rule: reachable.induct)
    case (reach_start s)
    then have "start s \<and> runs [] s = Some s" by simp
    then show ?case by blast
  next
    case (reach_step s e s')
    then obtain s0 es where "start s0" "runs es s0 = Some s" by blast
    with reach_step have "start s0 \<and> runs (es @ [e]) s0 = Some s'" by (simp add: runEvents_append)
    then show ?case by blast
  qed
  show "\<exists>s0 es. start s0 \<and> runs es s0 = Some s \<Longrightarrow> reachable s"
    using reach_start reachable_runs by blast
qed

end

text \<open>A property that holds at the start and is kept by every step holds in every reachable state.\<close>

locale machine_invariant = machine +
  fixes inv :: "'a \<Rightarrow> bool"
  assumes inv_start: "start s \<Longrightarrow> inv s"
    and inv_step: "inv s \<Longrightarrow> exec e s = Some s' \<Longrightarrow> inv s'"
begin

lemma inv_reachable: "reachable s \<Longrightarrow> inv s"
  by (induction rule: reachable.induct) (auto intro: inv_start inv_step)

lemma inv_runs: "inv s \<Longrightarrow> runs es s = Some s' \<Longrightarrow> inv s'"
  by (induction es arbitrary: s) (auto split: option.splits intro: inv_step)

end

text \<open>A detailed machine refines an abstract one if every step of it, from a state that satisfies
  the invariant, is an abstract step or leaves the abstract state unchanged.\<close>

locale machine_refinement = conc: machine_invariant start exec inv
  for start :: "'c \<Rightarrow> bool" and exec :: "'ev \<Rightarrow> 'c \<Rightarrow> 'c option" and inv +
  fixes astart :: "'a \<Rightarrow> bool"
    and astep :: "'a \<Rightarrow> 'a \<Rightarrow> bool"
    and abst :: "'c \<Rightarrow> 'a"
  assumes abs_start: "start s \<Longrightarrow> astart (abst s)"
    and abs_step: "inv s \<Longrightarrow> exec e s = Some s' \<Longrightarrow> abst s' = abst s \<or> astep (abst s) (abst s')"
begin

lemma simulation: "inv s \<Longrightarrow> conc.runs es s = Some s' \<Longrightarrow> astep\<^sup>*\<^sup>* (abst s) (abst s')"
proof (induction es arbitrary: s)
  case (Cons e es)
  then obtain t where t: "exec e s = Some t" "conc.runs es t = Some s'" by (auto split: option.splits)
  then have "astep\<^sup>*\<^sup>* (abst t) (abst s')" using Cons conc.inv_step by blast
  moreover have "astep\<^sup>*\<^sup>* (abst s) (abst t)" using abs_step [OF Cons.prems(1) t(1)] by auto
  ultimately show ?case by (rule rtranclp_trans [rotated])
qed simp

lemma reachable_simulated:
  assumes "conc.reachable s"
  shows "\<exists>a. astart a \<and> astep\<^sup>*\<^sup>* a (abst s)"
proof -
  obtain s0 es where s0: "start s0" "conc.runs es s0 = Some s"
    using assms by (auto simp: conc.reachable_iff)
  then show ?thesis using simulation [OF conc.inv_start [OF s0(1)] s0(2)] abs_start [OF s0(1)] by blast
qed

end

end
