(* ===== verification/GoPath.thy ===== *)
theory GoPath
  imports GoStrings
begin

text \<open>
  The part of Go's package \<^verbatim>\<open>path/filepath\<close> that the recorder calls, for Unix: \<open>Clean\<close>,
  \<open>Join\<close>, \<open>Abs\<close>, \<open>Rel\<close> and \<open>IsAbs\<close>, described by the components of a path.  The laws:
  cleaning is idempotent, and joining a plain file name to a cleaned directory and taking
  the result relative to the directory gives the file name back.
\<close>

section \<open>Definitions\<close>

definition IsAbs :: "string \<Rightarrow> bool" where
  "IsAbs path = HasPrefix path ''/''"

text \<open>One path element against the elements kept so far: a \<open>..\<close> removes the last one, is dropped
  at the root, and is kept where a relative path has nothing left to remove.\<close>

definition cleanStep :: "bool \<Rightarrow> string \<Rightarrow> string list \<Rightarrow> string list" where
  "cleanStep rooted c kept =
     (if c = '''' \<or> c = ''.'' then kept
      else if c = ''..'' then
        if kept \<noteq> [] \<and> last kept \<noteq> ''..'' then butlast kept
        else if rooted then kept else kept @ [''..'']
      else kept @ [c])"

definition cleanComps :: "string \<Rightarrow> string list" where
  "cleanComps path = fold (cleanStep (IsAbs path)) (Split path ''/'') []"

definition renderPath :: "bool \<Rightarrow> string list \<Rightarrow> string" where
  "renderPath rooted cs =
     (if rooted then CHR ''/'' # Join cs ''/'' else if cs = [] then ''.'' else Join cs ''/'')"

definition Clean :: "string \<Rightarrow> string" where
  "Clean path = renderPath (IsAbs path) (cleanComps path)"

text \<open>\<^verbatim>\<open>filepath.Base\<close>: the last element.\<close>

definition Base :: "string \<Rightarrow> string" where
  "Base path =
     (if path = '''' then ''.''
      else let p = TrimRight path ''/'' in if p = '''' then ''/'' else last (Split p ''/''))"

text \<open>\<^verbatim>\<open>filepath.Join\<close> of two elements; an empty one is ignored.\<close>

definition JoinPath :: "string \<Rightarrow> string \<Rightarrow> string" where
  "JoinPath a b =
     (if a = '''' then (if b = '''' then '''' else Clean b)
      else if b = '''' then Clean a else Clean (a @ ''/'' @ b))"

text \<open>\<^verbatim>\<open>filepath.Abs\<close>, with the result of \<^verbatim>\<open>os.Getwd\<close> as an argument.\<close>

definition Abs :: "('e, string) result \<Rightarrow> string \<Rightarrow> ('e, string) result" where
  "Abs getwd path =
     (if IsAbs path then Inr (Clean path)
      else case getwd of Inl e \<Rightarrow> Inl e | Inr wd \<Rightarrow> Inr (JoinPath wd path))"

fun stripCommon :: "string list \<Rightarrow> string list \<Rightarrow> string list \<times> string list" where
  "stripCommon (b # bs) (t # ts) = (if b = t then stripCommon bs ts else (b # bs, t # ts))"
| "stripCommon bs ts = (bs, ts)"

text \<open>\<^verbatim>\<open>filepath.Rel\<close>: the elements of the base that the target does not share become \<open>..\<close>; a
  target that is not relative to the base is an error.\<close>

definition Rel :: "string \<Rightarrow> string \<Rightarrow> (string, string) result" where
  "Rel basepath targpath =
     (let base = Clean basepath; targ = Clean targpath;
          err = ''Rel: can't make '' @ targpath @ '' relative to '' @ basepath in
      if targ = base then Inr ''.''
      else if IsAbs base \<noteq> IsAbs targ then Inl err
      else let bs = cleanComps base;
               ts = (if targ = ''.'' then [''.''] else cleanComps targ);
               (br, tr) = stripCommon bs ts in
        if br \<noteq> [] \<and> tr \<noteq> [] \<and> hd br = ''..'' then Inl err
        else Inr (Join (replicate (length br) ''..'' @ tr) ''/''))"

section \<open>Components\<close>

lemma Split_Join_char:
  "xs \<noteq> [] \<Longrightarrow> list_all (\<lambda>x. c \<notin> set x) xs \<Longrightarrow> Split (Join xs [c]) [c] = xs"
proof (induction xs "[c]" rule: Join.induct)
  case (2 x)
  then show ?case by (simp add: Split_free)
next
  case (3 x y ys)
  then show ?case using Split_append_char [of c x "Join (y # ys) [c]"] by simp
qed simp

lemma Split_char_free: "x \<in> set (Split s [c]) \<Longrightarrow> c \<notin> set x"
proof (induction s "[c]" arbitrary: x rule: Split.induct)
  case (2 d cs)
  show ?case
  proof (cases "d = c")
    case True
    with 2 show ?thesis by auto
  next
    case False
    obtain y ys where ys: "Split cs [c] = y # ys" by (cases "Split cs [c]") auto
    with False 2 show ?thesis by auto
  qed
qed simp

text \<open>A file name: one path element that names neither the directory nor its parent.\<close>

definition fileComp :: "string \<Rightarrow> bool" where
  "fileComp c = (c \<noteq> '''' \<and> c \<noteq> ''.'' \<and> c \<noteq> ''..'' \<and> CHR ''/'' \<notin> set c)"

text \<open>The element lists that cleaning produces: \<open>..\<close> only at the front and only if relative.\<close>

definition normalComps :: "bool \<Rightarrow> string list \<Rightarrow> bool" where
  "normalComps rooted cs =
     (\<exists>n fs. cs = replicate n ''..'' @ fs \<and> list_all fileComp fs \<and> (rooted \<longrightarrow> n = 0))"

lemma cleanStep_normal:
  assumes "normalComps r cs" "CHR ''/'' \<notin> set c"
  shows "normalComps r (cleanStep r c cs)"
proof -
  obtain n fs where cs: "cs = replicate n ''..'' @ fs" "list_all fileComp fs" "r \<longrightarrow> n = 0"
    using assms(1) by (auto simp: normalComps_def)
  consider (Skip) "c = '''' \<or> c = ''.''" | (Up) "c = ''..''" | (Name) "fileComp c"
    using assms(2) by (auto simp: fileComp_def)
  then show ?thesis
  proof cases
    case Up
    show ?thesis
    proof (cases fs rule: rev_cases)
      case Nil
      have "last (replicate n ''..'') = ''..''" if "n \<noteq> 0" using that by simp
      moreover have "normalComps r (replicate n ''..'' @ [''..''])" if "\<not> r"
        using that unfolding normalComps_def
        by (intro exI [of _ "Suc n"] exI [of _ "[]"]) (simp add: replicate_append_same)
      ultimately show ?thesis using Up Nil cs assms(1) by (cases "n = 0") (auto simp: cleanStep_def)
    next
      case (snoc gs g)
      then have "fileComp g" "list_all fileComp gs" using cs(2) by simp_all
      then have "cleanStep r c cs = replicate n ''..'' @ gs"
        using Up snoc cs(1) by (simp add: cleanStep_def fileComp_def butlast_append)
      then show ?thesis using cs(3) \<open>list_all fileComp gs\<close> by (auto simp: normalComps_def)
    qed
  next
    case Name
    then have "cleanStep r c cs = replicate n ''..'' @ (fs @ [c])"
      using cs(1) by (simp add: cleanStep_def fileComp_def)
    moreover have "list_all fileComp (fs @ [c])" using cs(2) Name by simp
    ultimately show ?thesis using cs(3) unfolding normalComps_def by blast
  qed (use assms(1) in \<open>auto simp: cleanStep_def\<close>)
qed

lemma fold_cleanStep_normal:
  "normalComps r cs \<Longrightarrow> list_all (\<lambda>x. CHR ''/'' \<notin> set x) ps \<Longrightarrow> normalComps r (fold (cleanStep r) ps cs)"
  by (induction ps arbitrary: cs) (simp_all add: cleanStep_normal)

lemma cleanComps_normal: "normalComps (IsAbs path) (cleanComps path)"
  unfolding cleanComps_def
  by (rule fold_cleanStep_normal) (auto simp: normalComps_def list_all_iff dest: Split_char_free)

lemma fold_cleanStep_files:
  "list_all fileComp fs \<Longrightarrow> fold (cleanStep r) fs cs = cs @ fs"
  by (induction fs arbitrary: cs) (simp_all add: cleanStep_def fileComp_def)

lemma fold_cleanStep_ups:
  "fold (cleanStep False) (replicate n ''..'') (replicate m ''..'') = replicate (m + n) ''..''"
proof (induction n arbitrary: m)
  case (Suc n)
  have "cleanStep False ''..'' (replicate m ''..'') = replicate (Suc m) ''..''"
    by (cases "m = 0") (simp_all add: cleanStep_def replicate_append_same)
  then show ?case using Suc [of "Suc m"] by simp
qed simp

lemma fold_cleanStep_fixed:
  assumes "normalComps r cs"
  shows "fold (cleanStep r) cs [] = cs"
proof -
  obtain n fs where cs: "cs = replicate n ''..'' @ fs" "list_all fileComp fs" "r \<longrightarrow> n = 0"
    using assms by (auto simp: normalComps_def)
  have "fold (cleanStep r) (replicate n ''..'') [] = replicate n ''..''"
    using cs(3) fold_cleanStep_ups [of n 0] by (cases r) auto
  then show ?thesis by (simp add: cs(1) fold_cleanStep_files [OF cs(2)])
qed

lemma normalComps_free: "normalComps r cs \<Longrightarrow> list_all (\<lambda>x. CHR ''/'' \<notin> set x \<and> x \<noteq> '''') cs"
proof -
  have "list_all (\<lambda>x. CHR ''/'' \<notin> set x \<and> x \<noteq> '''') (replicate n ''..'')" for n
    by (induction n) simp_all
  moreover have "list_all (\<lambda>x. CHR ''/'' \<notin> set x \<and> x \<noteq> '''') fs" if "list_all fileComp fs" for fs
    using that by (simp add: list_all_iff fileComp_def)
  moreover assume "normalComps r cs"
  ultimately show ?thesis unfolding normalComps_def by (metis list_all_append)
qed

section \<open>Cleaning is idempotent\<close>

lemma Join_slash_Nil: "Join cs ''/'' = '''' \<longleftrightarrow> cs = [] \<or> cs = ['''']"
  by (cases cs; cases "tl cs") auto

lemma IsAbs_render:
  assumes "normalComps r cs"
  shows "IsAbs (renderPath r cs) = r"
proof (cases r)
  case False
  have "\<not> HasPrefix (Join cs ''/'') ''/''" if "cs \<noteq> []"
  proof -
    from that obtain x xs where cs: "cs = x # xs" by (cases cs) auto
    then have "x \<noteq> ''''" "CHR ''/'' \<notin> set x" using normalComps_free [OF assms] by auto
    then obtain y ys where "x = y # ys" "y \<noteq> CHR ''/''" by (cases x) auto
    then show ?thesis by (cases xs) (auto simp: cs)
  qed
  with False show ?thesis by (simp add: renderPath_def IsAbs_def)
qed (simp add: renderPath_def IsAbs_def)

lemma cleanComps_render:
  assumes "normalComps r cs"
  shows "cleanComps (renderPath r cs) = cs"
proof -
  have free: "list_all (\<lambda>x. CHR ''/'' \<notin> set x) cs"
    using normalComps_free [OF assms] by (simp add: list_all_iff)
  have sp: "Split (Join cs ''/'') ''/'' = (if cs = [] then [''''] else cs)"
    using Split_Join_char [of cs "CHR ''/''"] free by simp
  have skip: "cleanStep b '''' xs = xs" "cleanStep b ''.'' xs = xs" for b xs by (simp_all add: cleanStep_def)
  have "fold (cleanStep r) (Split (renderPath r cs) ''/'') [] = cs"
    using fold_cleanStep_fixed [OF assms] sp by (auto simp: renderPath_def skip)
  then show ?thesis by (simp add: cleanComps_def IsAbs_render [OF assms])
qed

lemma IsAbs_Clean [simp]: "IsAbs (Clean p) = IsAbs p"
  by (simp add: Clean_def IsAbs_render cleanComps_normal)

lemma cleanComps_Clean [simp]: "cleanComps (Clean p) = cleanComps p"
  by (simp add: Clean_def cleanComps_render cleanComps_normal)

lemma Clean_idem: "Clean (Clean p) = Clean p"
  by (simp add: Clean_def [of "Clean p"]) (simp add: Clean_def)

lemma Clean_not_Nil [simp]: "Clean p \<noteq> ''''"
  using normalComps_free [OF cleanComps_normal, of p]
  by (auto simp: Clean_def renderPath_def Join_slash_Nil)

section \<open>A file below a cleaned directory\<close>

lemma Split_append_full: "Split (x @ c # rest) [c] = Split x [c] @ Split rest [c]"
proof (induction x)
  case (Cons d x)
  show ?case
  proof (cases "d = c")
    case False
    obtain y ys where "Split x [c] = y # ys" by (cases "Split x [c]") auto
    with Cons False show ?thesis by simp
  qed (use Cons in simp)
qed simp

lemma cleanComps_file:
  assumes "fileComp f" "d \<noteq> ''''"
  shows "cleanComps (d @ ''/'' @ f) = cleanComps d @ [f]" "IsAbs (d @ ''/'' @ f) = IsAbs d"
proof -
  show abs: "IsAbs (d @ ''/'' @ f) = IsAbs d" using assms(2) by (cases d) (simp_all add: IsAbs_def)
  have "Split f ''/'' = [f]" using assms(1) by (simp add: fileComp_def Split_free)
  moreover have "cleanStep r f cs = cs @ [f]" for r cs using assms(1) by (simp add: cleanStep_def fileComp_def)
  ultimately show "cleanComps (d @ ''/'' @ f) = cleanComps d @ [f]"
    by (simp add: cleanComps_def abs [simplified] Split_append_full)
qed

lemma cleanComps_single: "fileComp f \<Longrightarrow> cleanComps f = [f] \<and> \<not> IsAbs f"
  by (cases f) (auto simp: cleanComps_def fileComp_def Split_free cleanStep_def IsAbs_def
      simp del: Split.simps Contains.simps(2))

lemma JoinPath_file:
  assumes "fileComp f"
  shows "cleanComps (JoinPath d f) = cleanComps d @ [f]" "IsAbs (JoinPath d f) = IsAbs d"
    "JoinPath d f = Clean (JoinPath d f)"
proof -
  have "cleanComps '''' = []" "\<not> IsAbs ''''" by (simp_all add: cleanComps_def cleanStep_def IsAbs_def)
  moreover have "f \<noteq> ''''" using assms by (simp add: fileComp_def)
  ultimately show "cleanComps (JoinPath d f) = cleanComps d @ [f]" "IsAbs (JoinPath d f) = IsAbs d"
    "JoinPath d f = Clean (JoinPath d f)"
    using cleanComps_file [OF assms, of d] cleanComps_single [OF assms]
    by (cases "d = ''''"; simp add: JoinPath_def Clean_idem)+
qed

lemma stripCommon_prefix: "stripCommon bs (bs @ ts) = ([], ts)"
  by (induction bs) (cases ts, simp_all)

lemma Rel_file:
  assumes "fileComp f"
  shows "Rel d (JoinPath d f) = Inr f"
proof -
  note j = JoinPath_file [OF assms, of d]
  have ne: "Clean (JoinPath d f) \<noteq> Clean d"
    using j(1) cleanComps_Clean [of "JoinPath d f"] cleanComps_Clean [of d] by force
  have dot: "Clean (JoinPath d f) \<noteq> ''.''"
  proof
    assume "Clean (JoinPath d f) = ''.''"
    then have "cleanComps (JoinPath d f) = cleanComps ''.''"
      using cleanComps_Clean [of "JoinPath d f"] by simp
    then show False using j(1) by (simp add: cleanComps_def cleanStep_def)
  qed
  show ?thesis
    using ne dot j by (simp add: Rel_def Let_def stripCommon_prefix)
qed

end
