(* ===== verification/GoNumbers.thy ===== *)
theory GoNumbers
  imports GoStrings
begin

text \<open>
  Decimal numbers as the Go library prints them: zero-padded to a width and longer if the
  number needs it.  Reading is \<open>decimal\<close> of the theory \<open>GoStrings\<close>.
\<close>

text \<open>\<^verbatim>\<open>time.appendInt\<close>: zero-padded to a width, longer if the number needs it.\<close>

function printNat :: "nat \<Rightarrow> int \<Rightarrow> string" where
  "printNat w n =
     (if w = 0 \<and> n \<le> 0 then '''' else printNat (w - 1) (n div 10) @ [char_of (48 + n mod 10)])"
  by pat_completeness auto
termination
proof (relation "measure (\<lambda>(w, n). w + nat n)")
  fix w :: nat and n :: int
  assume a: "\<not> (w = 0 \<and> n \<le> 0)"
  show "((w - 1, n div 10), w, n) \<in> measure (\<lambda>(w, n). w + nat n)"
  proof (cases "0 < n")
    case True
    then have "nat (n div 10) < nat n" by (simp add: nat_less_eq_zless)
    then have "w - 1 + nat (n div 10) < w + nat n" by linarith
    then show ?thesis by (simp only: in_measure prod.case)
  next
    case False
    then have "n div 10 \<le> 0" by linarith
    with False a show ?thesis by simp
  qed
qed simp

declare printNat.simps [simp del]

definition appendInt :: "int \<Rightarrow> nat \<Rightarrow> string" where
  "appendInt n w = (if n < 0 then CHR ''-'' # printNat w (- n) else printNat w n)"

lemma byte_char: "0 \<le> r \<Longrightarrow> r < 256 \<Longrightarrow> byte_of (char_of r) = r"
  by simp

lemma digit_char:
  "0 \<le> d \<Longrightarrow> d < 10 \<Longrightarrow> is_digit (char_of (48 + d)) \<and> digit_val (char_of (48 + d)) = (d :: int)"
  using byte_char [of "48 + d"] by (simp add: is_digit_def digit_val_def del: of_char_of)

lemma printNat_digits: "list_all is_digit (printNat w n)"
proof (induction w n rule: printNat.induct)
  case (1 w n)
  then show ?case using digit_char [of "n mod 10"] by (subst printNat.simps) simp
qed

lemma printNat_value: "0 \<le> n \<Longrightarrow> decimal (printNat w n) = n"
proof (induction w n rule: printNat.induct)
  case (1 w n)
  show ?case
  proof (cases "w = 0 \<and> n \<le> 0")
    case True
    then show ?thesis using "1.prems" by (simp add: printNat.simps decimal_def)
  next
    case False
    have "decimal (printNat (w - 1) (n div 10)) = n div 10" using 1 False by simp
    then show ?thesis using False digit_char [of "n mod 10"]
      by (subst printNat.simps) (auto simp: decimal_snoc)
  qed
qed

lemma printNat_length: "0 \<le> n \<Longrightarrow> n < 10 ^ w \<Longrightarrow> length (printNat w n) = w"
proof (induction w arbitrary: n)
  case 0
  then show ?case by (simp add: printNat.simps)
next
  case (Suc w)
  then have "n div 10 < 10 ^ w" by (simp add: div_less_iff_less_mult mult.commute)
  then show ?case using Suc by (subst printNat.simps) simp
qed

lemma appendInt_valid:
  "0 \<le> n \<Longrightarrow> n < 10 ^ w \<Longrightarrow> length (appendInt n w) = w \<and> decimal (appendInt n w) = n"
  by (simp add: appendInt_def printNat_length printNat_value)

lemma appendInt_eq:
  "0 \<le> n \<Longrightarrow> n < 10 ^ w \<Longrightarrow> 0 \<le> n' \<Longrightarrow> n' < 10 ^ w \<Longrightarrow>
   appendInt n w @ xs = appendInt n' w @ ys \<longleftrightarrow> n = n' \<and> xs = ys"
  using appendInt_valid [of n w] appendInt_valid [of n' w] by (metis append_eq_append_conv)

lemma appendInt_chars: "0 \<le> n \<Longrightarrow> list_all is_digit (appendInt n w)"
  by (simp add: appendInt_def printNat_digits)

lemma digit_not_slash: "is_digit c \<Longrightarrow> c \<noteq> CHR ''/'' \<and> c \<noteq> CHR ''.''"
  by (auto simp: is_digit_def)

lemma appendInt_no_slash: "CHR ''/'' \<notin> set (appendInt n w)"
  using printNat_digits [of w n] printNat_digits [of w "- n"] digit_not_slash
  by (auto simp: appendInt_def list_all_iff)

section \<open>Canonical numerals\<close>

text \<open>\<^verbatim>\<open>strconv.Itoa\<close> and \<^verbatim>\<open>%d\<close>: no padding.  A numeral is canonical if it has no leading zero;
  canonical numerals are exactly what printing produces, so printing inverts reading.\<close>

definition Itoa :: "int \<Rightarrow> string" where
  "Itoa n = appendInt n 1"

definition canonical :: "string \<Rightarrow> bool" where
  "canonical s = (list_all is_digit s \<and> s \<noteq> [] \<and> (hd s = CHR ''0'' \<longrightarrow> length s = 1))"

lemma zero_digit: "c = CHR ''0'' \<longleftrightarrow> byte_of c = 48"
proof -
  have "byte_of CHR ''0'' = 48" by simp
  then show ?thesis by (metis of_char_eq_iff)
qed

lemma decimal_pos: "list_all is_digit s \<Longrightarrow> s \<noteq> [] \<Longrightarrow> hd s \<noteq> CHR ''0'' \<Longrightarrow> 0 < decimal s"
proof (induction s rule: rev_induct)
  case (snoc c s)
  have c: "0 \<le> digit_val c" using snoc.prems by (simp add: digit_val_nonneg)
  show ?case
  proof (cases "s = []")
    case True
    then have "byte_of c \<noteq> 48" using snoc.prems by (simp add: zero_digit)
    then show ?thesis using True snoc.prems by (simp add: decimal_snoc is_digit_def digit_val_def decimal_def)
  next
    case False
    then show ?thesis using snoc c by (simp add: decimal_snoc)
  qed
qed simp

lemma printNat_unpadded: "0 < n \<Longrightarrow> printNat 0 n = printNat 1 n"
  by (simp add: printNat.simps [of 0 n] printNat.simps [of "Suc 0" n])

lemma digit_char_val: "is_digit c \<Longrightarrow> char_of (48 + digit_val c) = c"
  by (simp add: digit_val_def)

lemma printNat_decimal: "canonical s \<Longrightarrow> printNat 1 (decimal s) = s"
proof (induction s rule: rev_induct)
  case Nil
  then show ?case by (simp add: canonical_def)
next
  case (snoc c s)
  have dig: "list_all is_digit s" "is_digit c" using snoc.prems by (auto simp: canonical_def)
  have c: "0 \<le> digit_val c" "digit_val c < 10" using dig(2) by (auto simp: is_digit_def digit_val_def)
  have "printNat 0 (decimal s) = s"
  proof (cases "s = []")
    case True
    then show ?thesis by (simp add: decimal_def printNat.simps)
  next
    case False
    then have h: "hd s \<noteq> CHR ''0''" using snoc.prems by (auto simp: canonical_def)
    then have "canonical s" using False dig by (simp add: canonical_def)
    then show ?thesis using snoc.IH decimal_pos [OF dig(1) False h] by (simp add: printNat_unpadded)
  qed
  then show ?case using c dig
    by (subst printNat.simps) (simp add: decimal_snoc digit_char_val)
qed

lemma printNat_nonempty: "printNat (Suc w) n \<noteq> []"
  by (subst printNat.simps) simp

lemma digit_char_0: "0 \<le> d \<Longrightarrow> d < 10 \<Longrightarrow> char_of (48 + d) = CHR ''0'' \<longleftrightarrow> d = (0 :: int)"
  by (simp add: zero_digit)

lemma hd_printNat: "0 < n \<Longrightarrow> hd (printNat 1 n) \<noteq> CHR ''0''"
proof (induction "nat n" arbitrary: n rule: less_induct)
  case less
  show ?case
  proof (cases "n div 10 = 0")
    case True
    with less.prems have "n mod 10 \<noteq> 0" by presburger
    with True less.prems show ?thesis using digit_char_0 [of "n mod 10"]
      by (simp add: printNat.simps [of "Suc 0" n] printNat.simps [of 0 0] zero_digit)
  next
    case False
    with less.prems have p: "0 < n div 10" by presburger
    then have e: "printNat 1 n = printNat 1 (n div 10) @ [char_of (48 + n mod 10)]"
      using less.prems by (simp add: printNat.simps [of "Suc 0" n] printNat_unpadded)
    have "nat (n div 10) < nat n" using less.prems by (simp add: nat_less_eq_zless)
    with p have "hd (printNat 1 (n div 10)) \<noteq> CHR ''0''" using less.hyps by blast
    then show ?thesis using e printNat_nonempty [of 0] by simp
  qed
qed

lemma canonical_Itoa: "0 \<le> n \<Longrightarrow> canonical (Itoa n)"
proof -
  assume "0 \<le> n"
  moreover have "printNat 1 0 = ''0''" 
    by (simp add: printNat.simps [of "Suc 0" 0] printNat.simps [of 0 0] char_of_def)
  ultimately show ?thesis
    using printNat_digits [of 1 n] printNat_nonempty [of 0 n] hd_printNat [of n]
    by (cases "n = 0") (auto simp: canonical_def Itoa_def appendInt_def)
qed

lemma decimal_Itoa: "0 \<le> n \<Longrightarrow> decimal (Itoa n) = n"
  by (simp add: Itoa_def appendInt_def printNat_value)

lemma Itoa_decimal: "canonical s \<Longrightarrow> Itoa (decimal s) = s"
  using decimal_nonneg [of s] printNat_decimal [of s] by (simp add: canonical_def Itoa_def appendInt_def)

lemma decimal_append_digit: "list_all is_digit s \<Longrightarrow> is_digit c \<Longrightarrow> decimal s \<le> decimal (s @ [c])"
  using decimal_nonneg [of s] digit_val_nonneg [of c] by (simp add: decimal_snoc)

lemma decimal_append_le: "list_all is_digit (s @ t) \<Longrightarrow> decimal s \<le> decimal (s @ t)"
proof (induction t rule: rev_induct)
  case (snoc c t)
  then show ?case using decimal_append_digit [of "s @ t" c] by simp
qed simp

lemma div_eq_iff_range:
  fixes n :: int
  assumes "0 < k"
  shows "n div k = q \<longleftrightarrow> q * k \<le> n \<and> n < (q + 1) * k"
proof
  assume q: "n div k = q"
  obtain r where r: "r = n mod k" "0 \<le> r" "r < k" using assms by simp
  have "n = q * k + n mod k" using q div_mult_mod_eq [of n k] by simp
  then show "q * k \<le> n \<and> n < (q + 1) * k"
    using r(2,3) unfolding r(1) [symmetric] by (simp add: distrib_right)
next
  assume "q * k \<le> n \<and> n < (q + 1) * k"
  then show "n div k = q"
    by (intro int_div_pos_eq [of _ _ _ "n - k * q"]) (simp_all add: algebra_simps)
qed

section \<open>Hexadecimal digits\<close>

definition hexVal :: "char \<Rightarrow> int option" where
  "hexVal c =
     (if is_digit c then Some (digit_val c)
      else if 97 \<le> byte_of c \<and> byte_of c \<le> 102 then Some (byte_of c - 87)
      else if 65 \<le> byte_of c \<and> byte_of c \<le> 70 then Some (byte_of c - 55)
      else None)"

definition lowerHex :: "int \<Rightarrow> char" where
  "lowerHex n = (if n < 10 then char_of (48 + n) else char_of (87 + n))"

lemma hexDigit: "0 \<le> n \<Longrightarrow> n < 16 \<Longrightarrow> hexVal (lowerHex n) = Some n"
  using byte_char [of "48 + n"] byte_char [of "87 + n"]
  by (auto simp: lowerHex_def hexVal_def is_digit_def digit_val_def)

end
