(* ===== verification/Recording.thy ===== *)
theory Recording
  imports GoPath GoNumbers
begin

text \<open>
  \<^verbatim>\<open>internal/recording/recorder.go\<close>: the file name of a recording, the check that it stays in
  the recordings directory, and the recorder that guards Pion's OGG writer.  The writer
  (\<^verbatim>\<open>oggwriter\<close>) is not part of the repository: its state is a type variable and its
  operations are arguments.
\<close>

section \<open>File names\<close>

definition isASCIIAlnum :: "int \<Rightarrow> bool" where
  "isASCIIAlnum r = ((65 \<le> r \<and> r \<le> 90) \<or> (97 \<le> r \<and> r \<le> 122) \<or> (48 \<le> r \<and> r \<le> 57))"

text \<open>The condition \<open>allowed && r <= unicode.MaxASCII\<close>: among the ASCII runes the letters and
  digits of Unicode are the ASCII ones.\<close>

definition allowedRune :: "int \<Rightarrow> bool" where
  "allowedRune r = (r \<le> 0x7F \<and> (isASCIIAlnum r \<or> r = 45 \<or> r = 46))"

fun sanitizeLoop :: "(int \<times> string) list \<Rightarrow> bool \<Rightarrow> string" where
  "sanitizeLoop [] previousUnderscore = ''''"
| "sanitizeLoop ((r, b) # rs) previousUnderscore =
     (if allowedRune r then char_of r # sanitizeLoop rs False
      else if \<not> previousUnderscore then CHR ''_'' # sanitizeLoop rs True
      else sanitizeLoop rs previousUnderscore)"

definition sanitizeSessionID :: "string \<Rightarrow> string" where
  "sanitizeSessionID val =
     (let res = Trim (sanitizeLoop (runes val) False) ''._-'' in
      if res = '''' \<or> res = ''..'' then ''session''
      else if 128 < length res then take 128 res else res)"

text \<open>A point in time as \<^verbatim>\<open>now().UTC()\<close> presents it, and its layout
  \<^verbatim>\<open>20060102T150405.000000000Z\<close>: every number printed with at least its width.\<close>

record utcTime =
  year :: int
  month :: int
  day :: int
  hour :: int
  mins :: int
  secs :: int
  nanosecond :: int

definition formatTime :: "utcTime \<Rightarrow> string" where
  "formatTime t =
     appendInt (year t) 4 @ appendInt (month t) 2 @ appendInt (day t) 2 @ ''T'' @
     appendInt (hour t) 2 @ appendInt (mins t) 2 @ appendInt (secs t) 2 @ ''.'' @
     appendInt (nanosecond t) 9 @ ''Z''"

definition fileName :: "utcTime \<Rightarrow> string \<Rightarrow> string" where
  "fileName t sessionID = formatTime t @ ''_'' @ sanitizeSessionID sessionID @ ''.ogg''"

datatype recError =
    ResolveDirectory string
  | ResolvePath string
  | EscapesDirectory
  | CreateWriter string

definition ensureContained :: "string \<Rightarrow> string \<Rightarrow> recError option" where
  "ensureContained dir path =
     (case Rel dir path of
        Inl err \<Rightarrow> Some (ResolvePath err)
      | Inr rel \<Rightarrow> if rel = ''..'' \<or> HasPrefix rel ''../'' \<or> IsAbs rel then Some EscapesDirectory
          else None)"

section \<open>The recorder\<close>

record 'w oggRecorder =
  path :: string
  writer :: 'w
  closed :: bool

datatype rtpError = ErrClosed | PacketRequired | WriterFailed string

definition New ::
  "(string, string) result \<Rightarrow> (string \<Rightarrow> (string, 'w) result) \<Rightarrow> string \<Rightarrow> utcTime \<Rightarrow> string \<Rightarrow>
   (recError, 'w oggRecorder) result" where
  "New getwd newWriter dir now sessionID =
     (case Abs getwd dir of
        Inl err \<Rightarrow> Inl (ResolveDirectory err)
      | Inr absDir \<Rightarrow>
          let filename = fileName now sessionID; p = JoinPath absDir filename in
          case ensureContained absDir p of
            Some err \<Rightarrow> Inl err
          | None \<Rightarrow> (case newWriter p of
              Inl err \<Rightarrow> Inl (CreateWriter err)
            | Inr w \<Rightarrow> Inr \<lparr>path = p, writer = w, closed = False\<rparr>))"

text \<open>\<^verbatim>\<open>WriteRTP\<close> and \<^verbatim>\<open>Close\<close>, each under the recorder's mutex; \<open>None\<close> is a nil packet and a nil
  error.\<close>

definition WriteRTP ::
  "('w \<Rightarrow> 'p \<Rightarrow> 'w \<times> string option) \<Rightarrow> 'p option \<Rightarrow> 'w oggRecorder \<Rightarrow> 'w oggRecorder \<times> rtpError option" where
  "WriteRTP writerWrite packet r =
     (if closed r then (r, Some ErrClosed)
      else case packet of
        None \<Rightarrow> (r, Some PacketRequired)
      | Some p \<Rightarrow> let (w, err) = writerWrite (writer r) p in
          (r\<lparr>writer := w\<rparr>, map_option WriterFailed err))"

definition CloseRecorder ::
  "('w \<Rightarrow> 'w \<times> string option) \<Rightarrow> 'w oggRecorder \<Rightarrow> 'w oggRecorder \<times> string option" where
  "CloseRecorder writerClose r =
     (if closed r then (r, None)
      else let (w, err) = writerClose (writer r) in (r\<lparr>closed := True, writer := w\<rparr>, err))"

section \<open>Sanitised names\<close>

definition nameChar :: "char \<Rightarrow> bool" where
  "nameChar c = (isASCIIAlnum (byte_of c) \<or> c \<in> set ''._-'')"

lemma nameChar_allowed: "allowedRune r \<Longrightarrow> nameChar (char_of r)"
proof -
  assume a: "allowedRune r"
  then have r: "byte_of (char_of r) = r"
    by (intro byte_char) (auto simp: allowedRune_def isASCIIAlnum_def)
  then have "char_of r = CHR ''-''" if "r = 45" using that by (simp add: char_of_def)
  moreover have "char_of r = CHR ''.''" if "r = 46" using that by (simp add: char_of_def)
  ultimately show ?thesis using a r by (auto simp: nameChar_def allowedRune_def)
qed

lemma sanitizeLoop_chars: "list_all nameChar (sanitizeLoop rs u)"
  by (induction rs u rule: sanitizeLoop.induct)
    (simp_all add: nameChar_allowed, simp add: nameChar_def)

lemma sanitized_chars: "list_all nameChar (sanitizeSessionID v)"
proof -
  have "list_all nameChar (Trim (sanitizeLoop (runes v) False) ''._-'')"
    using sanitizeLoop_chars [of "runes v" False] Trim_subset [of "sanitizeLoop (runes v) False" "''._-''"]
    by (auto simp: list_all_iff)
  moreover have "list_all nameChar ''session''" by (simp add: nameChar_def isASCIIAlnum_def)
  ultimately show ?thesis
    by (auto simp: sanitizeSessionID_def Let_def list_all_iff dest: in_set_takeD)
qed

lemma sanitized_nonempty: "sanitizeSessionID v \<noteq> ''''"
  by (simp add: sanitizeSessionID_def Let_def)

lemma sanitized_length: "length (sanitizeSessionID v) \<le> 128"
  by (simp add: sanitizeSessionID_def Let_def)

lemma sanitized_hd: "isASCIIAlnum (byte_of (hd (sanitizeSessionID v)))"
proof -
  let ?t = "Trim (sanitizeLoop (runes v) False) ''._-''"
  have "isASCIIAlnum (byte_of (hd ?t))" if "?t \<noteq> []"
  proof -
    have "hd ?t \<in> set (sanitizeLoop (runes v) False)" using that Trim_subset hd_in_set by blast
    then have "nameChar (hd ?t)" using sanitizeLoop_chars by (metis list_all_iff)
    with Trim_hd [OF that] show ?thesis by (simp add: nameChar_def)
  qed
  moreover have "hd (take 128 ?t) = hd ?t" by simp
  ultimately show ?thesis
    by (auto simp: sanitizeSessionID_def Let_def isASCIIAlnum_def)
qed

section \<open>Time stamps\<close>

definition validTime :: "utcTime \<Rightarrow> bool" where
  "validTime t =
     (0 \<le> year t \<and> year t < 10000 \<and> 0 \<le> month t \<and> month t < 100 \<and> 0 \<le> day t \<and> day t < 100 \<and>
      0 \<le> hour t \<and> hour t < 100 \<and> 0 \<le> mins t \<and> mins t < 100 \<and> 0 \<le> secs t \<and> secs t < 100 \<and>
      0 \<le> nanosecond t \<and> nanosecond t < 1000000000)"

lemma formatTime_append_eq:
  assumes "validTime t" "validTime t'"
  shows "formatTime t @ xs = formatTime t' @ ys \<longleftrightarrow> t = t' \<and> xs = ys"
  using assms unfolding formatTime_def validTime_def append_assoc
  by (auto simp: appendInt_eq utcTime.equality)

text \<open>The name of a recording is one element of a path, whatever the session ID.\<close>

lemma nameChar_no_slash: "nameChar c \<Longrightarrow> c \<noteq> CHR ''/''"
  by (auto simp: nameChar_def isASCIIAlnum_def)

lemma fileName_comp: "fileComp (fileName t v)"
proof -
  have "CHR ''/'' \<notin> set (sanitizeSessionID v)"
    using sanitized_chars [of v] nameChar_no_slash by (auto simp: list_all_iff)
  then have "CHR ''/'' \<notin> set (fileName t v)"
    by (simp add: fileName_def formatTime_def appendInt_no_slash)
  moreover have "4 < length (fileName t v)" by (simp add: fileName_def)
  ultimately show ?thesis by (auto simp: fileComp_def)
qed

lemma fileName_not_up: "fileName t v \<noteq> ''..'' \<and> \<not> HasPrefix (fileName t v) ''../'' \<and> \<not> IsAbs (fileName t v)"
  using fileName_comp [of t v] by (auto simp: fileComp_def IsAbs_def HasPrefix_iff)

lemma ensureContained_file: "ensureContained d (JoinPath d (fileName t v)) = None"
  using fileName_not_up [of t v] by (simp add: ensureContained_def Rel_file [OF fileName_comp])

section \<open>The contract of a recorder\<close>

text \<open>What the session relies on when it hands packets to a recorder and closes it from another
  goroutine: closing is final and happens once, and a write after it is refused with
  \<^verbatim>\<open>ErrClosed\<close> and has no effect.\<close>

datatype 'p recOp = OpWrite "'p option" | OpClose

datatype recResult = Wrote "rtpError option" | ClosedWith "string option"

locale recorder =
  fixes put :: "'p option \<Rightarrow> 'r \<Rightarrow> 'r \<times> rtpError option"
    and close :: "'r \<Rightarrow> 'r \<times> string option"
    and isClosed :: "'r \<Rightarrow> bool"
    and name :: "'r \<Rightarrow> string"
  assumes write_closed: "isClosed r \<Longrightarrow> put p r = (r, Some ErrClosed)"
    and write_keeps: "isClosed (fst (put p r)) = isClosed r"
    and write_name: "name (fst (put p r)) = name r"
    and write_nil: "\<not> isClosed r \<Longrightarrow> put None r = (r, Some PacketRequired)"
    and close_closed: "isClosed r \<Longrightarrow> close r = (r, None)"
    and close_closes: "isClosed (fst (close r))"
    and close_name: "name (fst (close r)) = name r"
begin

fun runOps :: "'p recOp list \<Rightarrow> 'r \<Rightarrow> 'r \<times> recResult list" where
  "runOps [] r = (r, [])"
| "runOps (OpWrite p # ops) r = (let (r', e) = put p r; (r'', es) = runOps ops r' in (r'', Wrote e # es))"
| "runOps (OpClose # ops) r = (let (r', e) = close r; (r'', es) = runOps ops r' in (r'', ClosedWith e # es))"

definition refusal :: "'p recOp \<Rightarrow> recResult" where
  "refusal op = (case op of OpWrite _ \<Rightarrow> Wrote (Some ErrClosed) | OpClose \<Rightarrow> ClosedWith None)"

lemma run_closed: "isClosed r \<Longrightarrow> runOps ops r = (r, map refusal ops)"
  by (induction ops r rule: runOps.induct) (simp_all add: write_closed close_closed refusal_def)

lemma run_append: "runOps (ops @ ops') r =
   (let (r', es) = runOps ops r; (r'', es') = runOps ops' r' in (r'', es @ es'))"
proof (induction ops arbitrary: r)
  case (Cons op ops)
  then show ?case by (cases op) (simp_all add: case_prod_unfold Let_def)
qed (simp add: case_prod_unfold)

lemma after_close:
  "runOps (ops @ OpClose # ops') r =
   (fst (close (fst (runOps ops r))),
    snd (runOps ops r) @ ClosedWith (snd (close (fst (runOps ops r)))) # map refusal ops')"
  using run_closed [OF close_closes] by (simp add: run_append case_prod_unfold Let_def)

lemma run_name: "name (fst (runOps ops r)) = name r"
proof (induction ops arbitrary: r)
  case (Cons op ops)
  then show ?case by (cases op) (simp_all add: case_prod_unfold Let_def write_name close_name)
qed simp

end

interpretation ogg: recorder "WriteRTP writerWrite" "CloseRecorder writerClose" closed path
  for writerWrite writerClose
  by unfold_locales
    (auto simp: WriteRTP_def CloseRecorder_def Let_def split: option.splits prod.splits)

section \<open>Properties\<close>

text \<open>C30: whatever the session ID, the recording lies directly in the recordings directory: its path
  consists of the elements of the resolved directory and the file name, and relative to the
  directory it is the file name.  The guard against escaping paths never fires, so the only
  errors are those of resolving the directory and of opening the file.\<close>

theorem New_contained:
  "case New getwd newWriter dir t v of
     Inr r \<Rightarrow> (\<exists>absDir. Abs getwd dir = Inr absDir \<and> Rel absDir (path r) = Inr (fileName t v) \<and>
         cleanComps (path r) = cleanComps absDir @ [fileName t v] \<and> IsAbs (path r) = IsAbs absDir \<and>
         newWriter (path r) = Inr (writer r) \<and> \<not> closed r)
   | Inl e \<Rightarrow> (\<exists>err. (e = ResolveDirectory err \<and> Abs getwd dir = Inl err) \<or>
         (e = CreateWriter err \<and> (\<exists>absDir. Abs getwd dir = Inr absDir \<and>
            newWriter (JoinPath absDir (fileName t v)) = Inl err)))"
proof (cases "Abs getwd dir")
  case (Inr d)
  show ?thesis
    using JoinPath_file [OF fileName_comp, of d t v] Rel_file [OF fileName_comp, of d t v]
    by (cases "newWriter (JoinPath d (fileName t v))")
      (simp_all add: New_def Inr Let_def ensureContained_file)
qed (simp add: New_def)

text \<open>C32: the sanitised session ID is never empty, has at most 128 characters, all of them ASCII
  letters, digits, dots, underscores or hyphens, and starts with a letter or digit.\<close>

theorem sanitizeSessionID_safe:
  "sanitizeSessionID v \<noteq> '''' \<and> length (sanitizeSessionID v) \<le> 128 \<and>
   list_all nameChar (sanitizeSessionID v) \<and> isASCIIAlnum (byte_of (hd (sanitizeSessionID v)))"
  by (simp add: sanitized_nonempty sanitized_length sanitized_chars sanitized_hd)

lemma sanitizeLoop_plain:
  "list_all (\<lambda>c. allowedRune (byte_of c)) s \<Longrightarrow> sanitizeLoop (map (\<lambda>c. (byte_of c, [c])) s) u = s"
  by (induction s arbitrary: u) simp_all

lemma Trim_plain:
  assumes "s \<noteq> []" "hd s \<notin> set cs" "last s \<notin> set cs"
  shows "Trim s cs = s"
proof -
  have "dropWhile (\<lambda>c. c \<in> set cs) s = s" using assms(1,2) by (cases s) simp_all
  moreover have "dropWhile (\<lambda>c. c \<in> set cs) (rev s) = rev s"
    using assms(1,3) by (cases s rule: rev_cases) simp_all
  ultimately show ?thesis by (simp add: Trim_def TrimRight_def)
qed

text \<open>A session ID that consists of ASCII letters, digits, hyphens and dots, and starts and ends
  with a letter or digit, appears unchanged in the file name if it has at most 128 characters.\<close>

lemma sanitize_fixed:
  assumes "list_all (\<lambda>c. isASCIIAlnum (byte_of c) \<or> c = CHR ''-'' \<or> c = CHR ''.'') v" "v \<noteq> ''''"
    "isASCIIAlnum (byte_of (hd v))" "isASCIIAlnum (byte_of (last v))" "length v \<le> 128"
  shows "sanitizeSessionID v = v"
proof -
  have al: "list_all (\<lambda>c. allowedRune (byte_of c)) v"
    using assms(1) by (auto simp: list_all_iff allowedRune_def isASCIIAlnum_def)
  then have "runes v = map (\<lambda>c. (byte_of c, [c])) v"
    by (intro runes_ascii) (auto simp: list_all_iff allowedRune_def)
  moreover have "Trim v ''._-'' = v"
    using assms(2-4) by (intro Trim_plain) (auto simp: isASCIIAlnum_def)
  moreover have "v \<noteq> ''..''" using assms(3) by (auto simp: isASCIIAlnum_def)
  ultimately show ?thesis using assms(2,5) by (simp add: sanitizeSessionID_def sanitizeLoop_plain [OF al])
qed

text \<open>Recordings that start at different nanoseconds have different file names, and at one
  instant different sanitised IDs do.\<close>

lemma fileName_injective:
  assumes "validTime t" "validTime t'" "fileName t v = fileName t' v'"
  shows "t = t' \<and> sanitizeSessionID v = sanitizeSessionID v'"
  using assms formatTime_append_eq [OF assms(1,2)] by (simp add: fileName_def)

lemma fileName_injective_example:
  "fileName \<lparr>year = 2026, month = 8, day = 2, hour = 12, mins = 0, secs = 0, nanosecond = 1\<rparr> ''a'' \<noteq>
   fileName \<lparr>year = 2026, month = 8, day = 2, hour = 12, mins = 0, secs = 0, nanosecond = 2\<rparr> ''a''"
  using fileName_injective [of "\<lparr>year = 2026, month = 8, day = 2, hour = 12, mins = 0, secs = 0, nanosecond = 1\<rparr>"
      "\<lparr>year = 2026, month = 8, day = 2, hour = 12, mins = 0, secs = 0, nanosecond = 2\<rparr>" "''a''" "''a''"]
  by (auto simp: validTime_def)

text \<open>C31: whatever happens before, once the recorder is closed its state does not change any more,
  every later write is refused with \<^verbatim>\<open>ErrClosed\<close> and every later close succeeds without
  touching the OGG writer again.\<close>

theorem recorder_after_close:
  "ogg.runOps writerWrite writerClose (ops @ OpClose # ops') r =
   (fst (CloseRecorder writerClose (fst (ogg.runOps writerWrite writerClose ops r))),
    snd (ogg.runOps writerWrite writerClose ops r) @
      ClosedWith (snd (CloseRecorder writerClose (fst (ogg.runOps writerWrite writerClose ops r)))) #
      map (\<lambda>op. case op of OpWrite _ \<Rightarrow> Wrote (Some ErrClosed) | OpClose \<Rightarrow> ClosedWith None) ops')"
  using ogg.after_close [of writerWrite writerClose ops ops' r] by (simp add: ogg.refusal_def [abs_def])

end
