(* ===== verification/AudioPrime.thy ===== *)
theory AudioPrime
  imports GoPrelude
begin

text \<open>
  \<^verbatim>\<open>internal/rtc/audio_prime.go\<close> and \<^verbatim>\<open>audio_prime_tone.go\<close>: the frames that a session sends to
  open the audio path, and the loop that sends one per tick of 20 ms until it has sent
  enough, is cancelled or fails.  What the loop observes from outside (the ticker, the
  context, the result of a write) is a list of events, one per iteration; a list that ends
  while the loop waits gives \<open>None\<close>.
\<close>

section \<open>Definitions\<close>

abbreviation audioPrimeFrameDuration :: duration where
  "audioPrimeFrameDuration \<equiv> 20 * millisecond"

abbreviation audioPrimeModeSilence :: string where "audioPrimeModeSilence \<equiv> ''silence''"
abbreviation audioPrimeModeTone :: string where "audioPrimeModeTone \<equiv> ''tone''"

definition opusSilenceFrame :: bytes where
  "opusSilenceFrame = [0xF8, 0xFF, 0xFE]"

definition opusToneFrames :: "bytes list" where
  "opusToneFrames =
    [
     [0xFC, 0xB4, 0x06, 0x5A, 0xA7, 0xB5, 0xE1, 0xFD, 0x0B, 0xBE, 0x00, 0x7F, 0xF9, 0x07, 0x72, 0x84,
      0xD8, 0xF4, 0x0B, 0xD2, 0xD5, 0x4C, 0x46, 0x7D, 0x2C, 0x08, 0xD1, 0xE5, 0x86, 0xCA, 0x01, 0x17,
      0xCB, 0xA2, 0x53, 0xA9, 0x61, 0xE8, 0x6A, 0x7E, 0x07, 0x6C, 0xFA, 0x49, 0x06, 0x07, 0xE5, 0xD4,
      0xD7, 0x19, 0x36, 0xE2, 0x53, 0xEB, 0xFD, 0xAF, 0x6A, 0xFB, 0x4D, 0xC3, 0xC9, 0x08, 0x69, 0xCA,
      0x04, 0x08, 0x75, 0xE3, 0x1A, 0xCE, 0x14, 0xB4, 0x58, 0x09, 0xD7, 0x8E, 0xD4, 0xAD, 0x2D, 0x73,
      0x23, 0x8F, 0x33, 0x42, 0x21, 0xCF, 0xA7, 0xA9, 0xEA, 0xAB, 0x3A, 0xBE, 0x2C, 0xC4, 0x8D, 0x73,
      0x75, 0xD6, 0x4E, 0xCF, 0x1C, 0xA4, 0x4F, 0xB7, 0x0F, 0x80, 0x69, 0xEA, 0xCB, 0x5A, 0x1D, 0x97,
      0x48, 0xB0, 0xD7, 0x6B, 0x2F, 0x42, 0x31, 0x1E, 0x9C, 0xBB, 0xD7, 0x14, 0x49, 0xB4, 0xE0, 0x89,
      0x17, 0xE6, 0x0D, 0xFE, 0xA6, 0xB4, 0x34, 0x77, 0x46, 0x94, 0x3B, 0x59, 0x43, 0xA4, 0x31, 0x48,
      0xC8, 0x80, 0x5C, 0x05, 0xE6, 0xCD, 0xEC, 0x1F, 0x41, 0x5A, 0xFD, 0x6A, 0xB4, 0x1E, 0xD5, 0x6D],
     [0xFC, 0xB3, 0x86, 0xC2, 0x51, 0xB6, 0xE7, 0x85, 0xF9, 0x46, 0x1B, 0x50, 0xD6, 0x26, 0x75, 0x7B,
      0xFF, 0xDE, 0xB3, 0xA0, 0xB1, 0x9C, 0x89, 0xFB, 0x9C, 0x9C, 0x9E, 0xC5, 0xBA, 0xE7, 0xD7, 0x75,
      0x19, 0x35, 0xA3, 0x67, 0x16, 0xB4, 0xB1, 0x34, 0xC9, 0xDC, 0xD2, 0xA4, 0x7C, 0x8A, 0xF8, 0x53,
      0x94, 0x2B, 0xA4, 0xAB, 0x89, 0xF4, 0x8E, 0x7D, 0xBA, 0x04, 0x0C, 0x2F, 0x15, 0x80, 0x54, 0xDC,
      0x57, 0x58, 0x3A, 0x62, 0xBA, 0xA1, 0x93, 0x8A, 0x97, 0x81, 0xEE, 0xB5, 0xA8, 0x6D, 0xDD, 0xBC,
      0x56, 0xCE, 0x57, 0x47, 0x89, 0x1A, 0xA2, 0x8E, 0x9B, 0x91, 0x81, 0x2E, 0x37, 0x80, 0x9D, 0xD1,
      0x3B, 0xBB, 0x0A, 0x13, 0xD6, 0xA4, 0x0B, 0x61, 0xD3, 0xCB, 0xC3, 0xD9, 0x4D, 0x58, 0x42, 0x7D,
      0x68, 0xA4, 0x22, 0x00, 0x72, 0x97, 0x42, 0x49, 0xD2, 0x08, 0x62, 0xAB, 0x49, 0x09, 0xDF, 0xEF,
      0x93, 0xE0, 0x95, 0x5A, 0x49, 0xE1, 0xF2, 0x0A, 0x64, 0xAB, 0xE2, 0x8A, 0x52, 0x92, 0xC0, 0x01,
      0xF6, 0xD9, 0xBF, 0x81, 0x3F, 0x5F, 0x5F, 0xE1, 0xF4, 0x01, 0x11, 0x12, 0x5B, 0xAA, 0x01, 0xAE],
     [0xFC, 0xB0, 0x2E, 0xC2, 0xDA, 0x45, 0xDE, 0x50, 0x8F, 0x5F, 0xB5, 0x64, 0xD6, 0x50, 0xED, 0xE7,
      0x22, 0x6E, 0xB5, 0x22, 0x67, 0x15, 0xC4, 0xBA, 0xB2, 0xC0, 0x92, 0x18, 0x06, 0x4F, 0xC9, 0xE4,
      0x9D, 0x06, 0x61, 0xEA, 0xD0, 0x16, 0x51, 0x7E, 0x1A, 0x5F, 0x15, 0x01, 0x21, 0xD0, 0x8C, 0x2B,
      0x6A, 0xEF, 0x89, 0x2C, 0x9E, 0xF4, 0x74, 0xB0, 0xA0, 0xAA, 0x2E, 0xB3, 0x35, 0x01, 0x1E, 0x61,
      0x30, 0xFD, 0x20, 0x2C, 0xA2, 0x37, 0x4E, 0xA9, 0x63, 0x05, 0x8F, 0xF0, 0x7C, 0x4E, 0x6E, 0x94,
      0x0E, 0x23, 0xDB, 0xA9, 0x58, 0x37, 0x77, 0x4F, 0x76, 0x92, 0x23, 0x6E, 0x10, 0x28, 0x3F, 0xA0,
      0x61, 0x44, 0xCE, 0x6F, 0x02, 0x32, 0x94, 0x6E, 0x78, 0x1A, 0x0F, 0x8B, 0x37, 0x32, 0xF2, 0xD4,
      0x17, 0xD0, 0x11, 0xB9, 0xDA, 0x26, 0xF2, 0xD8, 0xAC, 0x10, 0x0E, 0x42, 0x74, 0x05, 0xA5, 0x6B,
      0xC7, 0x8A, 0xB3, 0x88, 0x77, 0xF0, 0xD3, 0xA6, 0xF9, 0xFD, 0x96, 0x2A, 0x64, 0x7D, 0x66, 0xEF,
      0xCC, 0x6E, 0xBC, 0x60, 0x7D, 0x28, 0x7D, 0x67, 0xAF, 0x4C, 0xDD, 0xC9, 0x00, 0x5A, 0xCD, 0xAE],
     [0xFC, 0xAC, 0x5A, 0x76, 0x4B, 0x91, 0x07, 0xE7, 0x1E, 0x3B, 0xC0, 0x54, 0x37, 0xE7, 0xEF, 0x0D,
      0xFE, 0xE7, 0x19, 0x9A, 0x00, 0x8B, 0xA3, 0x3D, 0x22, 0x56, 0x08, 0x2B, 0xE9, 0x52, 0x29, 0xBF,
      0xD2, 0x4C, 0x29, 0x65, 0x0F, 0xF1, 0x00, 0xEB, 0x8C, 0x96, 0xCB, 0xCA, 0x09, 0x5B, 0x7E, 0x18,
      0x8D, 0x05, 0x0C, 0x6C, 0xA9, 0x4A, 0x8F, 0x20, 0x0B, 0x8F, 0xAF, 0xE7, 0x2F, 0xA1, 0x4A, 0x6A,
      0x99, 0xD2, 0x72, 0x98, 0x42, 0xC2, 0x39, 0x61, 0x40, 0x92, 0xB3, 0x5F, 0x4A, 0xC9, 0x33, 0xD2,
      0xC9, 0x12, 0x42, 0xD4, 0x7C, 0x5B, 0xC4, 0xF6, 0xB6, 0x4A, 0x58, 0xA2, 0x10, 0x79, 0xDB, 0xB3,
      0x5A, 0x3C, 0x41, 0x67, 0x70, 0xE6, 0xD2, 0x81, 0xBC, 0x46, 0xBB, 0x22, 0x00, 0x50, 0x9A, 0x18,
      0x49, 0xF8, 0x1D, 0x05, 0x1F, 0x9F, 0x7B, 0x43, 0xCA, 0x11, 0x63, 0x4E, 0x0C, 0xFA, 0x9C, 0xD0,
      0x12, 0x6A, 0x28, 0xA6, 0x97, 0x50, 0x95, 0x28, 0xA6, 0xBE, 0x25, 0xA5, 0xD3, 0x77, 0x03, 0x8F,
      0x7E, 0x74, 0xBE, 0x00, 0x7D, 0x52, 0xD5, 0x00, 0x78, 0x11, 0x00, 0x00, 0x00, 0x5A, 0x23, 0xAE],
     [0xFC, 0xB0, 0x1F, 0xC9, 0xAA, 0x96, 0x51, 0x52, 0x0E, 0x60, 0xB4, 0xD3, 0xDE, 0xCC, 0x6B, 0xFA,
      0xBD, 0xDE, 0x07, 0x28, 0x40, 0x82, 0xF6, 0xD9, 0xA5, 0x32, 0x0D, 0xD2, 0xEE, 0xF1, 0x72, 0x7D,
      0xD3, 0x1F, 0x7D, 0x3D, 0xD0, 0xE9, 0xFA, 0xF7, 0x7D, 0x47, 0x09, 0x76, 0x19, 0xAF, 0x0A, 0x8C,
      0x35, 0xAA, 0xA9, 0x2E, 0xF6, 0xEB, 0x72, 0xC5, 0x85, 0x20, 0xFC, 0xAA, 0x48, 0x21, 0xC3, 0x6D,
      0x7F, 0x01, 0x6B, 0x1C, 0x23, 0xB4, 0xC9, 0xAB, 0x96, 0x0F, 0x0A, 0x21, 0xEE, 0xE7, 0xE8, 0x7F,
      0xEA, 0x4A, 0xA7, 0x74, 0xE6, 0x96, 0x5F, 0xDD, 0x78, 0x70, 0xF2, 0x6C, 0xC5, 0x9E, 0x6E, 0xAE,
      0xE0, 0x41, 0xD4, 0x67, 0x59, 0x21, 0x06, 0xE0, 0x1E, 0x19, 0x68, 0xD2, 0xD9, 0x4A, 0xA0, 0xB9,
      0x09, 0x84, 0x92, 0x7E, 0xED, 0xE3, 0xD9, 0xD5, 0x87, 0x01, 0xDA, 0xA5, 0x6D, 0x82, 0x6F, 0xBF,
      0xAA, 0x12, 0xED, 0x2D, 0x99, 0x9D, 0x25, 0x9B, 0x70, 0x12, 0x8D, 0xCF, 0xEB, 0xBD, 0x7C, 0xD8,
      0xDE, 0xE3, 0xEF, 0x18, 0x1F, 0xEA, 0x1F, 0x41, 0x4B, 0x86, 0x60, 0x03, 0x7D, 0xD4, 0xCD, 0xAE]]"

definition audioPrimeFramesForMode :: "string \<Rightarrow> bytes list" where
  "audioPrimeFramesForMode mode =
     (if mode = audioPrimeModeTone then opusToneFrames else [opusSilenceFrame])"

datatype audioPrimeCompletionReason = ReasonDuration | ReasonCancelled

datatype primeError = FramesMissing | WriteError string

text \<open>One iteration as the loop sees it: the context is done at the head of the loop, or the
  \<open>select\<close> takes the branch of the context, or it takes a tick and then finds the context
  done, or it takes a tick and writes, with the error of the write if there is one.\<close>

datatype primeEvent = DoneAtHead | SelectDone | TickDone | Tick "string option"

type_synonym primeOutcome = "nat \<times> audioPrimeCompletionReason option \<times> primeError option"

text \<open>The loop; the result also lists the samples handed to the writer, the failed one included.\<close>

fun primeLoop ::
  "int \<Rightarrow> bytes list \<Rightarrow> primeEvent list \<Rightarrow> nat \<Rightarrow> (primeOutcome \<times> bytes list) option" where
  "primeLoop targetFrames encodedFrames events frames =
     (if int frames < targetFrames then
        case events of
          [] \<Rightarrow> None
        | e # events' \<Rightarrow> (case e of
            DoneAtHead \<Rightarrow> Some ((frames, Some ReasonCancelled, None), [])
          | SelectDone \<Rightarrow> Some ((frames, Some ReasonCancelled, None), [])
          | TickDone \<Rightarrow> Some ((frames, Some ReasonCancelled, None), [])
          | Tick err \<Rightarrow>
              let data = encodedFrames ! (frames mod length encodedFrames) in
              (case err of
                 Some msg \<Rightarrow> Some ((frames, None, Some (WriteError msg)), [data])
               | None \<Rightarrow> map_option (\<lambda>(outcome, samples). (outcome, data # samples))
                   (primeLoop targetFrames encodedFrames events' (frames + 1))))
      else Some ((frames, Some ReasonDuration, None), []))"

declare primeLoop.simps [simp del]

definition runAudioPrime ::
  "int \<Rightarrow> bytes list \<Rightarrow> primeEvent list \<Rightarrow> (primeOutcome \<times> bytes list) option" where
  "runAudioPrime targetFrames encodedFrames events =
     (if length encodedFrames = 0 then Some ((0, None, Some FramesMissing), [])
      else primeLoop targetFrames encodedFrames events 0)"

text \<open>The number of frames the session asks for, \<^verbatim>\<open>int(duration / audioPrimeFrameDuration)\<close>: Go's
  division truncates, which is \<^const>\<open>divide\<close> for the positive durations the server accepts.\<close>

definition primeTarget :: "duration \<Rightarrow> int" where
  "primeTarget d = (if 0 \<le> d then d div audioPrimeFrameDuration else - (- d div audioPrimeFrameDuration))"

section \<open>The loop\<close>

definition okTick :: "primeEvent \<Rightarrow> bool" where
  "okTick e = (e = Tick None)"

abbreviation frameAt :: "bytes list \<Rightarrow> nat \<Rightarrow> bytes" where
  "frameAt enc i \<equiv> enc ! (i mod length enc)"

text \<open>The first event that is not a successful tick decides how the loop ends.\<close>

definition stopOutcome :: "nat \<Rightarrow> primeEvent \<Rightarrow> primeOutcome" where
  "stopOutcome frames e =
     (case e of Tick (Some msg) \<Rightarrow> (frames, None, Some (WriteError msg))
      | _ \<Rightarrow> (frames, Some ReasonCancelled, None))"

definition stopSamples :: "bytes list \<Rightarrow> nat \<Rightarrow> primeEvent \<Rightarrow> bytes list" where
  "stopSamples enc frames e = (case e of Tick _ \<Rightarrow> [frameAt enc frames] | _ \<Rightarrow> [])"

lemma primeLoop_ticks:
  assumes "list_all okTick ticks" "int (frames + length ticks) \<le> target"
  shows "primeLoop target enc (ticks @ events) frames =
    map_option (\<lambda>(outcome, samples). (outcome, map (frameAt enc) [frames..<frames + length ticks] @ samples))
      (primeLoop target enc events (frames + length ticks))"
  using assms
proof (induction ticks arbitrary: frames)
  case Nil
  then show ?case by (simp add: option.map_ident split_beta')
next
  case (Cons e ticks)
  then have "e = Tick None" "int frames < target" by (simp_all add: okTick_def)
  with Cons.IH [of "frames + 1"] Cons.prems show ?case
    by (subst primeLoop.simps)
      (simp add: option.map_comp o_def split_beta' upt_conv_Cons del: upt_Suc)
qed

lemma primeLoop_stop:
  "int frames < target \<Longrightarrow> \<not> okTick e \<Longrightarrow>
   primeLoop target enc (e # events) frames = Some (stopOutcome frames e, stopSamples enc frames e)"
  by (subst primeLoop.simps)
    (auto simp: okTick_def stopOutcome_def stopSamples_def split: primeEvent.splits option.splits)

lemma primeLoop_done: "target \<le> int frames \<Longrightarrow>
   primeLoop target enc events frames = Some ((frames, Some ReasonDuration, None), [])"
  by (subst primeLoop.simps) simp

lemma primeLoop_blocked: "int frames < target \<Longrightarrow> primeLoop target enc [] frames = None"
  by (subst primeLoop.simps) simp

section \<open>Properties\<close>

text \<open>C29: the loop ends after exactly \<open>target\<close> successful ticks with the reason duration, having
  written the encoded frames cyclically, one per tick; if an earlier event is not a
  successful tick it ends there, reporting the frames written before, as cancelled without
  writing another frame or with the error of the failed write; and it waits as long as
  neither has happened.\<close>

theorem runAudioPrime_correct:
  fixes target :: nat
  assumes "enc \<noteq> []" "ticks = takeWhile okTick events"
  shows "runAudioPrime (int target) enc events =
    (if target \<le> length ticks
     then Some ((target, Some ReasonDuration, None), map (frameAt enc) [0..<target])
     else case drop (length ticks) events of
       [] \<Rightarrow> None
     | e # _ \<Rightarrow> Some (stopOutcome (length ticks) e,
         map (frameAt enc) [0..<length ticks] @ stopSamples enc (length ticks) e))"
proof -
  have all: "list_all okTick ticks" unfolding assms(2) by (auto simp: list_all_iff dest: set_takeWhileD)
  have ev: "ticks @ dropWhile okTick events = events" by (simp add: assms(2))
  have r: "runAudioPrime (int target) enc events = primeLoop (int target) enc events 0"
    using assms(1) by (simp add: runAudioPrime_def)
  show ?thesis
  proof (cases "target \<le> length ticks")
    case True
    have "list_all okTick (take target ticks)" using all by (auto simp: list_all_iff dest: in_set_takeD)
    moreover have "events = take target ticks @ drop target ticks @ dropWhile okTick events"
      using ev by (metis append_assoc append_take_drop_id)
    ultimately show ?thesis
      using True primeLoop_ticks [of "take target ticks" 0 "int target" enc "drop target ticks @ dropWhile okTick events"]
      by (simp add: r primeLoop_done min_def)
  next
    case False
    have "primeLoop (int target) enc (ticks @ dropWhile okTick events) 0 =
        map_option (\<lambda>(outcome, samples). (outcome, map (frameAt enc) [0..<length ticks] @ samples))
          (primeLoop (int target) enc (dropWhile okTick events) (length ticks))"
      using primeLoop_ticks [OF all, of 0 "int target" enc "dropWhile okTick events"] False by simp
    moreover have "drop (length ticks) events = dropWhile okTick events" by (simp add: assms(2))
    moreover have "\<not> okTick e" if "dropWhile okTick events = e # es" for e es
      using dropWhile_hd_not [OF that] .
    ultimately show ?thesis using False ev
      by (cases "dropWhile okTick events") (simp_all add: r primeLoop_stop primeLoop_blocked)
  qed
qed

theorem runAudioPrime_correct_witness:
  "runAudioPrime 2 [opusSilenceFrame] [Tick None, Tick None, SelectDone] =
     Some ((2, Some ReasonDuration, None), [opusSilenceFrame, opusSilenceFrame]) \<and>
   runAudioPrime 2 [opusSilenceFrame] [Tick None, SelectDone] =
     Some ((1, Some ReasonCancelled, None), [opusSilenceFrame])"
  using runAudioPrime_correct [of "[opusSilenceFrame]" "[Tick None, Tick None]" "[Tick None, Tick None, SelectDone]" 2]
    runAudioPrime_correct [of "[opusSilenceFrame]" "[Tick None]" "[Tick None, SelectDone]" 2]
  by (simp add: okTick_def stopOutcome_def stopSamples_def upt_rec)

text \<open>In either mode there is at least one frame to send, so the priming loop of a session never
  fails for missing frames; the tone consists of five packets of 160 bytes.\<close>

lemma audioPrimeFrames_present:
  "audioPrimeFramesForMode mode \<noteq> [] \<and> list_all (\<lambda>f. f \<noteq> []) (audioPrimeFramesForMode mode) \<and>
   map length opusToneFrames = replicate 5 160"
  by (simp add: audioPrimeFramesForMode_def opusToneFrames_def opusSilenceFrame_def numeral_eq_Suc)

end
