(* ===== verification/Session.thy ===== *)
theory Session
  imports Machine Recording AudioPrime
begin

text \<open>
  \<^verbatim>\<open>internal/rtc/session.go\<close>: one WebRTC session.  A session is shared by the goroutines that
  run Pion's callbacks, its timers, the recording and priming loops and the HTTP handlers.
  Its operations are modelled twice over the same pieces: as functions on the state, composed
  as the code composes them, and as a machine in which any goroutine may run between two
  critical sections of another.

  The record \<open>session\<close> holds the mutable fields of the Go struct and, after them, the objects
  those fields point to: timers and recorders as lists addressed by position, the goroutines
  that are under way, and counters for the effects on the peer connection and the owner.
\<close>

section \<open>State\<close>

datatype peerConnectionState =
    PeerUnknown | PeerNew | PeerConnecting | PeerConnected | PeerDisconnected | PeerFailed | PeerClosed

datatype timerCallback = CallDisconnect "64 word" | CallExpire

datatype timerStatus = Armed | Stopped | Fired

record timer =
  callback :: timerCallback
  delay :: duration
  status :: timerStatus

text \<open>How far the body of \<open>closeOnce.Do\<close> has come.  \<open>sync.Once\<close> lets one goroutine run it; the
  others wait until it is done.\<close>

datatype closePhase =
    CloseIdle | CloseCancelled | ClosePrimeStopped | CloseDetached | CloseRecorded | ClosePeerDone | CloseDone

text \<open>The goroutines by the point they have reached.\<close>

datatype thread =
    ThClose
  | ThStartPrime
  | ThPrimeLock
  | ThPrimeGo
  | ThPrimeRun
  | ThStopPrime
  | ThDisconnect "64 word"
  | ThSetExpiry nat
  | ThExpire
  | ThRecord nat
  | ThDrain

record sessionConfig =
  disconnectGrace :: duration
  audioPrimeEnabled :: bool
  audioPrimeDuration :: duration
  audioPrimeMode :: string
  hasPrimeWriter :: bool
  hasOnTerminal :: bool

record 'w session =
  sessionId :: string
  ctxDone :: bool
  connected :: bool
  audioClaimed :: bool
  recorder :: "nat option"
  disconnectTimer :: "nat option"
  disconnectGeneration :: "64 word"
  peerState :: peerConnectionState
  expiryTimer :: "nat option"
  audioPrimeCancel :: bool
  audioPrimeOnce :: bool
  closeOnce :: closePhase
  closeErr :: "string option"
  closeRecorderVar :: "nat option"
  timers :: "timer list"
  recorders :: "'w oggRecorder list"
  primeCancelled :: bool
  expiryCreated :: bool
  threads :: "thread list"
  peerCloses :: nat
  terminalCalls :: nat
  logged :: "(string \<times> string) list"

definition newSession :: "string \<Rightarrow> 'w session" where
  "newSession sid =
     \<lparr>sessionId = sid, ctxDone = False, connected = False, audioClaimed = False, recorder = None,
      disconnectTimer = None, disconnectGeneration = 0, peerState = PeerUnknown, expiryTimer = None,
      audioPrimeCancel = False, audioPrimeOnce = False, closeOnce = CloseIdle, closeErr = None,
      closeRecorderVar = None, timers = [], recorders = [], primeCancelled = False,
      expiryCreated = False, threads = [], peerCloses = 0, terminalCalls = 0, logged = []\<rparr>"

definition logEvent :: "string \<Rightarrow> string \<Rightarrow> 'w session \<Rightarrow> 'w session" where
  "logEvent name detail s = s\<lparr>logged := logged s @ [(name, detail)]\<rparr>"

definition go :: "thread \<Rightarrow> 'w session \<Rightarrow> 'w session" where
  "go th s = s\<lparr>threads := th # threads s\<rparr>"

definition ends :: "thread \<Rightarrow> 'w session \<Rightarrow> 'w session" where
  "ends th s = s\<lparr>threads := remove1 th (threads s)\<rparr>"

text \<open>\<^verbatim>\<open>Timer.Stop\<close>: a timer that has fired or is stopped stays as it is.\<close>

definition stopTimer :: "nat \<Rightarrow> 'w session \<Rightarrow> 'w session" where
  "stopTimer i s =
     s\<lparr>timers := (timers s)[i := (timers s ! i)
       \<lparr>status := (if status (timers s ! i) = Armed then Stopped else status (timers s ! i))\<rparr>]\<rparr>"

section \<open>Operations\<close>

definition startRecorder ::
  "(recError, 'w oggRecorder) result \<Rightarrow> 'w session \<Rightarrow> 'w session \<times> nat option" where
  "startRecorder newResult s =
     (if audioClaimed s \<or> ctxDone s then (s, None)
      else let s1 = s\<lparr>audioClaimed := True\<rparr> in
        case newResult of
          Inl err \<Rightarrow> (go ThClose (logEvent ''session_error'' ''recording_create'' s1), None)
        | Inr r \<Rightarrow> let i = length (recorders s1) in
            (logEvent ''recording_started'' (Base (path r))
              (s1\<lparr>recorders := recorders s1 @ [r], recorder := Some i\<rparr>), Some i))"

text \<open>The callback registered with \<^verbatim>\<open>OnTrack\<close>.\<close>

definition onTrack ::
  "bool \<Rightarrow> string \<Rightarrow> (recError, 'w oggRecorder) result \<Rightarrow> 'w session \<Rightarrow> 'w session" where
  "onTrack isAudio mimeType newResult s =
     (let s1 = logEvent ''remote_track_received'' mimeType s in
      if \<not> isAudio \<or> \<not> EqualFold mimeType ''audio/opus'' then go ThDrain s1
      else case startRecorder newResult s1 of
        (s2, None) \<Rightarrow> go ThDrain s2
      | (s2, Some i) \<Rightarrow> go (ThRecord i) s2)"

text \<open>One iteration of \<^verbatim>\<open>recordTrack\<close>, and whether the loop goes on.\<close>

definition recordStep ::
  "('w \<Rightarrow> 'p \<Rightarrow> 'w \<times> string option) \<Rightarrow> nat \<Rightarrow> (string, 'p) result \<Rightarrow> 'w session \<Rightarrow> 'w session \<times> bool" where
  "recordStep writerWrite i readResult s =
     (case readResult of
        Inl err \<Rightarrow> (if \<not> ctxDone s then logEvent ''session_error'' ''rtp_read'' s else s, False)
      | Inr packet \<Rightarrow>
          let (r, err) = WriteRTP writerWrite (Some packet) (recorders s ! i);
              s1 = s\<lparr>recorders := (recorders s)[i := r]\<rparr> in
          case err of
            None \<Rightarrow> (s1, True)
          | Some ErrClosed \<Rightarrow> (s1, False)
          | Some _ \<Rightarrow> (go ThClose (logEvent ''session_error'' ''recording_write'' s1), False))"

definition MarkConnected :: "'w session \<Rightarrow> 'w session" where
  "MarkConnected s = s\<lparr>connected := True\<rparr>"

definition Connected :: "'w session \<Rightarrow> bool" where
  "Connected s = connected s"

definition setExpiryTimer :: "nat \<Rightarrow> 'w session \<Rightarrow> 'w session" where
  "setExpiryTimer i s = (if ctxDone s then stopTimer i s else s\<lparr>expiryTimer := Some i\<rparr>)"

text \<open>The part of \<^verbatim>\<open>handlePeerConnectionState\<close> up to the unlock.\<close>

definition dropDisconnectTimer :: "'w session \<Rightarrow> 'w session" where
  "dropDisconnectTimer s =
     (case disconnectTimer s of None \<Rightarrow> s | Some i \<Rightarrow> (stopTimer i s)\<lparr>disconnectTimer := None\<rparr>)"

definition peerStateLocked :: "sessionConfig \<Rightarrow> peerConnectionState \<Rightarrow> 'w session \<Rightarrow> 'w session" where
  "peerStateLocked cfg state s =
     (let generation = disconnectGeneration s + 1;
          s1 = dropDisconnectTimer (s\<lparr>disconnectGeneration := generation, peerState := state\<rparr>) in
      if state = PeerDisconnected \<and> \<not> ctxDone s1
      then s1\<lparr>timers := timers s1 @
               [\<lparr>callback = CallDisconnect generation, delay = disconnectGrace cfg, status = Armed\<rparr>],
             disconnectTimer := Some (length (timers s1))\<rparr>
      else s1)"

text \<open>The three pieces of \<^verbatim>\<open>startAudioPrime\<close>: the guards and the entry into \<open>audioPrimeOnce\<close>, the
  critical section, and the start of the priming goroutine.\<close>

definition primeEnter :: "sessionConfig \<Rightarrow> 'w session \<Rightarrow> 'w session \<times> bool" where
  "primeEnter cfg s =
     (if \<not> audioPrimeEnabled cfg \<or> \<not> hasPrimeWriter cfg \<or> ctxDone s \<or> audioPrimeOnce s then (s, False)
      else (s\<lparr>audioPrimeOnce := True\<rparr>, True))"

definition primeLocked :: "'w session \<Rightarrow> 'w session \<times> bool" where
  "primeLocked s =
     (if ctxDone s then (s\<lparr>primeCancelled := True\<rparr>, False) else (s\<lparr>audioPrimeCancel := True\<rparr>, True))"

definition primeGo :: "sessionConfig \<Rightarrow> 'w session \<Rightarrow> 'w session" where
  "primeGo cfg s = go ThPrimeRun (logEvent ''audio_prime_started'' (audioPrimeMode cfg) s)"

definition startAudioPrime :: "sessionConfig \<Rightarrow> 'w session \<Rightarrow> 'w session" where
  "startAudioPrime cfg s =
     (let (s1, entered) = primeEnter cfg s in
      if \<not> entered then s1
      else let (s2, armed) = primeLocked s1 in if \<not> armed then s2 else primeGo cfg s2)"

text \<open>What the priming goroutine logs when \<^verbatim>\<open>runAudioPrime\<close> returns.\<close>

definition primeFinished :: "primeOutcome \<Rightarrow> 'w session \<Rightarrow> 'w session" where
  "primeFinished outcome s =
     (case outcome of
        (frames, reason, Some err) \<Rightarrow> logEvent ''audio_prime_failed'' ''write'' s
      | (frames, reason, None) \<Rightarrow> logEvent ''audio_prime_completed''
          (if reason = Some ReasonDuration then ''duration'' else ''cancelled'') s)"

text \<open>The context of the priming loop is a child of the session's.\<close>

definition primeCtxDone :: "'w session \<Rightarrow> bool" where
  "primeCtxDone s = (primeCancelled s \<or> ctxDone s)"

definition stopAudioPrime :: "'w session \<Rightarrow> 'w session" where
  "stopAudioPrime s = (if audioPrimeCancel s then s\<lparr>primeCancelled := True\<rparr> else s)"

definition handlePeerConnectionState ::
  "sessionConfig \<Rightarrow> peerConnectionState \<Rightarrow> 'w session \<Rightarrow> 'w session" where
  "handlePeerConnectionState cfg state s =
     (let s1 = peerStateLocked cfg state (logEvent ''peer_connection_state_changed'' '''' s);
          s2 = (if state = PeerConnected then startAudioPrime cfg s1 else s1) in
      if state = PeerFailed \<or> state = PeerClosed then go ThClose (stopAudioPrime s2) else s2)"

definition closeIfStillDisconnected :: "64 word \<Rightarrow> 'w session \<Rightarrow> 'w session \<times> bool" where
  "closeIfStillDisconnected generation s =
     (let shouldClose = (\<not> ctxDone s \<and> peerState s = PeerDisconnected \<and>
            disconnectGeneration s = generation) in
      (if shouldClose then s\<lparr>disconnectTimer := None\<rparr> else s, shouldClose))"

text \<open>The body of \<^verbatim>\<open>Close\<close>, one piece per action that other goroutines can observe.\<close>

definition closeCancel :: "'w session \<Rightarrow> 'w session" where
  "closeCancel s = s\<lparr>ctxDone := True, closeOnce := CloseCancelled\<rparr>"

definition closeStopPrime :: "'w session \<Rightarrow> 'w session" where
  "closeStopPrime s = (stopAudioPrime s)\<lparr>closeOnce := ClosePrimeStopped\<rparr>"

definition closeDetach :: "'w session \<Rightarrow> 'w session" where
  "closeDetach s =
     (let s1 = dropDisconnectTimer s;
          s2 = (case expiryTimer s1 of None \<Rightarrow> s1 | Some i \<Rightarrow> (stopTimer i s1)\<lparr>expiryTimer := None\<rparr>)
      in s2\<lparr>closeRecorderVar := recorder s2, recorder := None, closeOnce := CloseDetached\<rparr>)"

definition closeRecording :: "('w \<Rightarrow> 'w \<times> string option) \<Rightarrow> 'w session \<Rightarrow> 'w session" where
  "closeRecording writerClose s =
     (case closeRecorderVar s of
        None \<Rightarrow> s\<lparr>closeOnce := CloseRecorded\<rparr>
      | Some i \<Rightarrow>
          let (r, err) = CloseRecorder writerClose (recorders s ! i);
              s1 = s\<lparr>recorders := (recorders s)[i := r]\<rparr>;
              s2 = (case err of None \<Rightarrow> s1
                | Some e \<Rightarrow> logEvent ''session_error'' ''recording_close'' (s1\<lparr>closeErr := Some e\<rparr>))
          in (logEvent ''recording_stopped'' (Base (path r)) s2)\<lparr>closeOnce := CloseRecorded\<rparr>)"

definition closePeer :: "string option \<Rightarrow> 'w session \<Rightarrow> 'w session" where
  "closePeer peerErr s =
     s\<lparr>peerCloses := peerCloses s + 1,
       closeErr := (if peerErr \<noteq> None \<and> closeErr s = None then peerErr else closeErr s),
       closeOnce := ClosePeerDone\<rparr>"

definition closeTerminal :: "sessionConfig \<Rightarrow> 'w session \<Rightarrow> 'w session" where
  "closeTerminal cfg s =
     (logEvent ''session_closed'' ''''
       (if hasOnTerminal cfg then s\<lparr>terminalCalls := terminalCalls s + 1\<rparr> else s))
     \<lparr>closeOnce := CloseDone\<rparr>"

definition closeNext ::
  "sessionConfig \<Rightarrow> ('w \<Rightarrow> 'w \<times> string option) \<Rightarrow> string option \<Rightarrow> 'w session \<Rightarrow> 'w session" where
  "closeNext cfg writerClose peerErr s =
     (case closeOnce s of
        CloseIdle \<Rightarrow> closeCancel s
      | CloseCancelled \<Rightarrow> closeStopPrime s
      | ClosePrimeStopped \<Rightarrow> closeDetach s
      | CloseDetached \<Rightarrow> closeRecording writerClose s
      | CloseRecorded \<Rightarrow> closePeer peerErr s
      | ClosePeerDone \<Rightarrow> closeTerminal cfg s
      | CloseDone \<Rightarrow> s)"

fun phaseRank :: "closePhase \<Rightarrow> nat" where
  "phaseRank CloseIdle = 0"
| "phaseRank CloseCancelled = 1"
| "phaseRank ClosePrimeStopped = 2"
| "phaseRank CloseDetached = 3"
| "phaseRank CloseRecorded = 4"
| "phaseRank ClosePeerDone = 5"
| "phaseRank CloseDone = 6"

lemma phaseRank_closeNext:
  "closeOnce s \<noteq> CloseDone \<Longrightarrow> phaseRank (closeOnce (closeNext cfg C pe s)) = Suc (phaseRank (closeOnce s))"
  by (cases "closeOnce s")
    (simp_all add: closeNext_def closeCancel_def closeStopPrime_def closeDetach_def closeRecording_def
      closePeer_def closeTerminal_def Let_def split: option.splits prod.splits)

lemma phaseRank_le: "phaseRank p \<le> 6"
  by (cases p) simp_all

text \<open>A call of \<^verbatim>\<open>Close\<close> returns when the body is done, whoever runs it.\<close>

function closeRun ::
  "sessionConfig \<Rightarrow> ('w \<Rightarrow> 'w \<times> string option) \<Rightarrow> string option \<Rightarrow> 'w session \<Rightarrow> 'w session" where
  "closeRun cfg writerClose peerErr s =
     (if closeOnce s = CloseDone then s else closeRun cfg writerClose peerErr (closeNext cfg writerClose peerErr s))"
  by pat_completeness auto
termination
proof (relation "measure (\<lambda>(cfg, C, pe, s). 6 - phaseRank (closeOnce s))")
  fix cfg C pe and s :: "'w session"
  assume "closeOnce s \<noteq> CloseDone"
  then show "((cfg, C, pe, closeNext cfg C pe s), cfg, C, pe, s) \<in>
      measure (\<lambda>(cfg, C, pe, s). 6 - phaseRank (closeOnce s))"
    using phaseRank_closeNext [of s cfg C pe] phaseRank_le [of "closeOnce (closeNext cfg C pe s)"] by simp
qed simp

declare closeRun.simps [simp del]

definition Close ::
  "sessionConfig \<Rightarrow> ('w \<Rightarrow> 'w \<times> string option) \<Rightarrow> string option \<Rightarrow> 'w session \<Rightarrow> 'w session \<times> string option" where
  "Close cfg writerClose peerErr s =
     (let s' = closeRun cfg writerClose peerErr s in (s', closeErr s'))"

end
