(* ===== verification/SessionFrames.thy ===== *)
theory SessionFrames
  imports Session
begin

text \<open>
  What each operation of a session leaves alone.  The rules are collected in
  \<open>sess_simps\<close>; with them a proof about an operation only looks at the fields it changes.
\<close>

lemma logEvent_frame [sess_simps]:
  "ctxDone (logEvent name detail s) = ctxDone s"
  "audioClaimed (logEvent name detail s) = audioClaimed s"
  "recorder (logEvent name detail s) = recorder s"
  "disconnectTimer (logEvent name detail s) = disconnectTimer s"
  "disconnectGeneration (logEvent name detail s) = disconnectGeneration s"
  "peerState (logEvent name detail s) = peerState s"
  "expiryTimer (logEvent name detail s) = expiryTimer s"
  "audioPrimeCancel (logEvent name detail s) = audioPrimeCancel s"
  "audioPrimeOnce (logEvent name detail s) = audioPrimeOnce s"
  "closeOnce (logEvent name detail s) = closeOnce s"
  "closeErr (logEvent name detail s) = closeErr s"
  "closeRecorderVar (logEvent name detail s) = closeRecorderVar s"
  "timers (logEvent name detail s) = timers s" "recorders (logEvent name detail s) = recorders s"
  "primeCancelled (logEvent name detail s) = primeCancelled s"
  "expiryCreated (logEvent name detail s) = expiryCreated s"
  "threads (logEvent name detail s) = threads s"
  "peerCloses (logEvent name detail s) = peerCloses s"
  "terminalCalls (logEvent name detail s) = terminalCalls s"
  by (simp_all add: logEvent_def Let_def split: option.splits sum.splits prod.splits rtpError.splits)

lemma go_frame [sess_simps]:
  "ctxDone (go th s) = ctxDone s" "audioClaimed (go th s) = audioClaimed s"
  "recorder (go th s) = recorder s" "disconnectTimer (go th s) = disconnectTimer s"
  "disconnectGeneration (go th s) = disconnectGeneration s" "peerState (go th s) = peerState s"
  "expiryTimer (go th s) = expiryTimer s" "audioPrimeCancel (go th s) = audioPrimeCancel s"
  "audioPrimeOnce (go th s) = audioPrimeOnce s" "closeOnce (go th s) = closeOnce s"
  "closeErr (go th s) = closeErr s" "closeRecorderVar (go th s) = closeRecorderVar s"
  "timers (go th s) = timers s" "recorders (go th s) = recorders s"
  "primeCancelled (go th s) = primeCancelled s" "expiryCreated (go th s) = expiryCreated s"
  "peerCloses (go th s) = peerCloses s" "terminalCalls (go th s) = terminalCalls s"
  by (simp_all add: go_def Let_def split: option.splits sum.splits prod.splits rtpError.splits)

lemma ends_frame [sess_simps]:
  "ctxDone (ends th s) = ctxDone s" "audioClaimed (ends th s) = audioClaimed s"
  "recorder (ends th s) = recorder s" "disconnectTimer (ends th s) = disconnectTimer s"
  "disconnectGeneration (ends th s) = disconnectGeneration s" "peerState (ends th s) = peerState s"
  "expiryTimer (ends th s) = expiryTimer s" "audioPrimeCancel (ends th s) = audioPrimeCancel s"
  "audioPrimeOnce (ends th s) = audioPrimeOnce s" "closeOnce (ends th s) = closeOnce s"
  "closeErr (ends th s) = closeErr s" "closeRecorderVar (ends th s) = closeRecorderVar s"
  "timers (ends th s) = timers s" "recorders (ends th s) = recorders s"
  "primeCancelled (ends th s) = primeCancelled s" "expiryCreated (ends th s) = expiryCreated s"
  "peerCloses (ends th s) = peerCloses s" "terminalCalls (ends th s) = terminalCalls s"
  by (simp_all add: ends_def Let_def split: option.splits sum.splits prod.splits rtpError.splits)

lemma stopTimer_frame [sess_simps]:
  "ctxDone (stopTimer i s) = ctxDone s" "audioClaimed (stopTimer i s) = audioClaimed s"
  "recorder (stopTimer i s) = recorder s" "disconnectTimer (stopTimer i s) = disconnectTimer s"
  "disconnectGeneration (stopTimer i s) = disconnectGeneration s"
  "peerState (stopTimer i s) = peerState s" "expiryTimer (stopTimer i s) = expiryTimer s"
  "audioPrimeCancel (stopTimer i s) = audioPrimeCancel s"
  "audioPrimeOnce (stopTimer i s) = audioPrimeOnce s" "closeOnce (stopTimer i s) = closeOnce s"
  "closeErr (stopTimer i s) = closeErr s" "closeRecorderVar (stopTimer i s) = closeRecorderVar s"
  "recorders (stopTimer i s) = recorders s" "primeCancelled (stopTimer i s) = primeCancelled s"
  "expiryCreated (stopTimer i s) = expiryCreated s" "threads (stopTimer i s) = threads s"
  "peerCloses (stopTimer i s) = peerCloses s" "terminalCalls (stopTimer i s) = terminalCalls s"
  by (simp_all add: stopTimer_def Let_def split: option.splits sum.splits prod.splits rtpError.splits)

lemma dropDisconnectTimer_frame [sess_simps]:
  "ctxDone (dropDisconnectTimer s) = ctxDone s"
  "audioClaimed (dropDisconnectTimer s) = audioClaimed s"
  "recorder (dropDisconnectTimer s) = recorder s"
  "disconnectGeneration (dropDisconnectTimer s) = disconnectGeneration s"
  "peerState (dropDisconnectTimer s) = peerState s"
  "expiryTimer (dropDisconnectTimer s) = expiryTimer s"
  "audioPrimeCancel (dropDisconnectTimer s) = audioPrimeCancel s"
  "audioPrimeOnce (dropDisconnectTimer s) = audioPrimeOnce s"
  "closeOnce (dropDisconnectTimer s) = closeOnce s" "closeErr (dropDisconnectTimer s) = closeErr s"
  "closeRecorderVar (dropDisconnectTimer s) = closeRecorderVar s"
  "recorders (dropDisconnectTimer s) = recorders s"
  "primeCancelled (dropDisconnectTimer s) = primeCancelled s"
  "expiryCreated (dropDisconnectTimer s) = expiryCreated s"
  "threads (dropDisconnectTimer s) = threads s" "peerCloses (dropDisconnectTimer s) = peerCloses s"
  "terminalCalls (dropDisconnectTimer s) = terminalCalls s"
  by (simp_all add: dropDisconnectTimer_def stopTimer_def Let_def split: option.splits sum.splits prod.splits rtpError.splits)

lemma peerStateLocked_frame [sess_simps]:
  "ctxDone (peerStateLocked cfg state s) = ctxDone s"
  "audioClaimed (peerStateLocked cfg state s) = audioClaimed s"
  "recorder (peerStateLocked cfg state s) = recorder s"
  "expiryTimer (peerStateLocked cfg state s) = expiryTimer s"
  "audioPrimeCancel (peerStateLocked cfg state s) = audioPrimeCancel s"
  "audioPrimeOnce (peerStateLocked cfg state s) = audioPrimeOnce s"
  "closeOnce (peerStateLocked cfg state s) = closeOnce s"
  "closeErr (peerStateLocked cfg state s) = closeErr s"
  "closeRecorderVar (peerStateLocked cfg state s) = closeRecorderVar s"
  "recorders (peerStateLocked cfg state s) = recorders s"
  "primeCancelled (peerStateLocked cfg state s) = primeCancelled s"
  "expiryCreated (peerStateLocked cfg state s) = expiryCreated s"
  "threads (peerStateLocked cfg state s) = threads s"
  "peerCloses (peerStateLocked cfg state s) = peerCloses s"
  "terminalCalls (peerStateLocked cfg state s) = terminalCalls s"
  by (simp_all add: peerStateLocked_def dropDisconnectTimer_def stopTimer_def Let_def split: option.splits sum.splits prod.splits rtpError.splits)

lemma setExpiryTimer_frame [sess_simps]:
  "ctxDone (setExpiryTimer i s) = ctxDone s" "audioClaimed (setExpiryTimer i s) = audioClaimed s"
  "recorder (setExpiryTimer i s) = recorder s"
  "disconnectTimer (setExpiryTimer i s) = disconnectTimer s"
  "disconnectGeneration (setExpiryTimer i s) = disconnectGeneration s"
  "peerState (setExpiryTimer i s) = peerState s"
  "audioPrimeCancel (setExpiryTimer i s) = audioPrimeCancel s"
  "audioPrimeOnce (setExpiryTimer i s) = audioPrimeOnce s"
  "closeOnce (setExpiryTimer i s) = closeOnce s" "closeErr (setExpiryTimer i s) = closeErr s"
  "closeRecorderVar (setExpiryTimer i s) = closeRecorderVar s"
  "recorders (setExpiryTimer i s) = recorders s"
  "primeCancelled (setExpiryTimer i s) = primeCancelled s"
  "expiryCreated (setExpiryTimer i s) = expiryCreated s" "threads (setExpiryTimer i s) = threads s"
  "peerCloses (setExpiryTimer i s) = peerCloses s"
  "terminalCalls (setExpiryTimer i s) = terminalCalls s"
  by (simp_all add: setExpiryTimer_def stopTimer_def Let_def split: option.splits sum.splits prod.splits rtpError.splits)

lemma MarkConnected_frame [sess_simps]:
  "ctxDone (MarkConnected s) = ctxDone s" "audioClaimed (MarkConnected s) = audioClaimed s"
  "recorder (MarkConnected s) = recorder s" "disconnectTimer (MarkConnected s) = disconnectTimer s"
  "disconnectGeneration (MarkConnected s) = disconnectGeneration s"
  "peerState (MarkConnected s) = peerState s" "expiryTimer (MarkConnected s) = expiryTimer s"
  "audioPrimeCancel (MarkConnected s) = audioPrimeCancel s"
  "audioPrimeOnce (MarkConnected s) = audioPrimeOnce s" "closeOnce (MarkConnected s) = closeOnce s"
  "closeErr (MarkConnected s) = closeErr s"
  "closeRecorderVar (MarkConnected s) = closeRecorderVar s" "timers (MarkConnected s) = timers s"
  "recorders (MarkConnected s) = recorders s" "primeCancelled (MarkConnected s) = primeCancelled s"
  "expiryCreated (MarkConnected s) = expiryCreated s" "threads (MarkConnected s) = threads s"
  "peerCloses (MarkConnected s) = peerCloses s" "terminalCalls (MarkConnected s) = terminalCalls s"
  by (simp_all add: MarkConnected_def Let_def split: option.splits sum.splits prod.splits rtpError.splits)

lemma primeFinished_frame [sess_simps]:
  "ctxDone (primeFinished out s) = ctxDone s" "audioClaimed (primeFinished out s) = audioClaimed s"
  "recorder (primeFinished out s) = recorder s"
  "disconnectTimer (primeFinished out s) = disconnectTimer s"
  "disconnectGeneration (primeFinished out s) = disconnectGeneration s"
  "peerState (primeFinished out s) = peerState s"
  "expiryTimer (primeFinished out s) = expiryTimer s"
  "audioPrimeCancel (primeFinished out s) = audioPrimeCancel s"
  "audioPrimeOnce (primeFinished out s) = audioPrimeOnce s"
  "closeOnce (primeFinished out s) = closeOnce s" "closeErr (primeFinished out s) = closeErr s"
  "closeRecorderVar (primeFinished out s) = closeRecorderVar s"
  "timers (primeFinished out s) = timers s" "recorders (primeFinished out s) = recorders s"
  "primeCancelled (primeFinished out s) = primeCancelled s"
  "expiryCreated (primeFinished out s) = expiryCreated s"
  "threads (primeFinished out s) = threads s" "peerCloses (primeFinished out s) = peerCloses s"
  "terminalCalls (primeFinished out s) = terminalCalls s"
  by (simp_all add: primeFinished_def logEvent_def Let_def split: option.splits sum.splits prod.splits rtpError.splits)

lemma stopAudioPrime_frame [sess_simps]:
  "ctxDone (stopAudioPrime s) = ctxDone s" "audioClaimed (stopAudioPrime s) = audioClaimed s"
  "recorder (stopAudioPrime s) = recorder s"
  "disconnectTimer (stopAudioPrime s) = disconnectTimer s"
  "disconnectGeneration (stopAudioPrime s) = disconnectGeneration s"
  "peerState (stopAudioPrime s) = peerState s" "expiryTimer (stopAudioPrime s) = expiryTimer s"
  "audioPrimeCancel (stopAudioPrime s) = audioPrimeCancel s"
  "audioPrimeOnce (stopAudioPrime s) = audioPrimeOnce s"
  "closeOnce (stopAudioPrime s) = closeOnce s" "closeErr (stopAudioPrime s) = closeErr s"
  "closeRecorderVar (stopAudioPrime s) = closeRecorderVar s" "timers (stopAudioPrime s) = timers s"
  "recorders (stopAudioPrime s) = recorders s" "expiryCreated (stopAudioPrime s) = expiryCreated s"
  "threads (stopAudioPrime s) = threads s" "peerCloses (stopAudioPrime s) = peerCloses s"
  "terminalCalls (stopAudioPrime s) = terminalCalls s"
  by (simp_all add: stopAudioPrime_def Let_def split: option.splits sum.splits prod.splits rtpError.splits)

lemma primeGo_frame [sess_simps]:
  "ctxDone (primeGo cfg s) = ctxDone s" "audioClaimed (primeGo cfg s) = audioClaimed s"
  "recorder (primeGo cfg s) = recorder s" "disconnectTimer (primeGo cfg s) = disconnectTimer s"
  "disconnectGeneration (primeGo cfg s) = disconnectGeneration s"
  "peerState (primeGo cfg s) = peerState s" "expiryTimer (primeGo cfg s) = expiryTimer s"
  "audioPrimeCancel (primeGo cfg s) = audioPrimeCancel s"
  "audioPrimeOnce (primeGo cfg s) = audioPrimeOnce s" "closeOnce (primeGo cfg s) = closeOnce s"
  "closeErr (primeGo cfg s) = closeErr s" "closeRecorderVar (primeGo cfg s) = closeRecorderVar s"
  "timers (primeGo cfg s) = timers s" "recorders (primeGo cfg s) = recorders s"
  "primeCancelled (primeGo cfg s) = primeCancelled s"
  "expiryCreated (primeGo cfg s) = expiryCreated s" "peerCloses (primeGo cfg s) = peerCloses s"
  "terminalCalls (primeGo cfg s) = terminalCalls s"
  by (simp_all add: primeGo_def go_def logEvent_def Let_def split: option.splits sum.splits prod.splits rtpError.splits)

lemma primeEnter_frame [sess_simps]:
  "ctxDone (fst (primeEnter cfg s)) = ctxDone s"
  "audioClaimed (fst (primeEnter cfg s)) = audioClaimed s"
  "recorder (fst (primeEnter cfg s)) = recorder s"
  "disconnectTimer (fst (primeEnter cfg s)) = disconnectTimer s"
  "disconnectGeneration (fst (primeEnter cfg s)) = disconnectGeneration s"
  "peerState (fst (primeEnter cfg s)) = peerState s"
  "expiryTimer (fst (primeEnter cfg s)) = expiryTimer s"
  "audioPrimeCancel (fst (primeEnter cfg s)) = audioPrimeCancel s"
  "closeOnce (fst (primeEnter cfg s)) = closeOnce s"
  "closeErr (fst (primeEnter cfg s)) = closeErr s"
  "closeRecorderVar (fst (primeEnter cfg s)) = closeRecorderVar s"
  "timers (fst (primeEnter cfg s)) = timers s" "recorders (fst (primeEnter cfg s)) = recorders s"
  "primeCancelled (fst (primeEnter cfg s)) = primeCancelled s"
  "expiryCreated (fst (primeEnter cfg s)) = expiryCreated s"
  "threads (fst (primeEnter cfg s)) = threads s"
  "peerCloses (fst (primeEnter cfg s)) = peerCloses s"
  "terminalCalls (fst (primeEnter cfg s)) = terminalCalls s"
  by (simp_all add: primeEnter_def Let_def split: option.splits sum.splits prod.splits rtpError.splits)

lemma primeLocked_frame [sess_simps]:
  "ctxDone (fst (primeLocked s)) = ctxDone s" "audioClaimed (fst (primeLocked s)) = audioClaimed s"
  "recorder (fst (primeLocked s)) = recorder s"
  "disconnectTimer (fst (primeLocked s)) = disconnectTimer s"
  "disconnectGeneration (fst (primeLocked s)) = disconnectGeneration s"
  "peerState (fst (primeLocked s)) = peerState s"
  "expiryTimer (fst (primeLocked s)) = expiryTimer s"
  "audioPrimeOnce (fst (primeLocked s)) = audioPrimeOnce s"
  "closeOnce (fst (primeLocked s)) = closeOnce s" "closeErr (fst (primeLocked s)) = closeErr s"
  "closeRecorderVar (fst (primeLocked s)) = closeRecorderVar s"
  "timers (fst (primeLocked s)) = timers s" "recorders (fst (primeLocked s)) = recorders s"
  "expiryCreated (fst (primeLocked s)) = expiryCreated s"
  "threads (fst (primeLocked s)) = threads s" "peerCloses (fst (primeLocked s)) = peerCloses s"
  "terminalCalls (fst (primeLocked s)) = terminalCalls s"
  by (simp_all add: primeLocked_def Let_def split: option.splits sum.splits prod.splits rtpError.splits)

lemma closeIfStillDisconnected_frame [sess_simps]:
  "ctxDone (fst (closeIfStillDisconnected g s)) = ctxDone s"
  "audioClaimed (fst (closeIfStillDisconnected g s)) = audioClaimed s"
  "recorder (fst (closeIfStillDisconnected g s)) = recorder s"
  "disconnectGeneration (fst (closeIfStillDisconnected g s)) = disconnectGeneration s"
  "peerState (fst (closeIfStillDisconnected g s)) = peerState s"
  "expiryTimer (fst (closeIfStillDisconnected g s)) = expiryTimer s"
  "audioPrimeCancel (fst (closeIfStillDisconnected g s)) = audioPrimeCancel s"
  "audioPrimeOnce (fst (closeIfStillDisconnected g s)) = audioPrimeOnce s"
  "closeOnce (fst (closeIfStillDisconnected g s)) = closeOnce s"
  "closeErr (fst (closeIfStillDisconnected g s)) = closeErr s"
  "closeRecorderVar (fst (closeIfStillDisconnected g s)) = closeRecorderVar s"
  "timers (fst (closeIfStillDisconnected g s)) = timers s"
  "recorders (fst (closeIfStillDisconnected g s)) = recorders s"
  "primeCancelled (fst (closeIfStillDisconnected g s)) = primeCancelled s"
  "expiryCreated (fst (closeIfStillDisconnected g s)) = expiryCreated s"
  "threads (fst (closeIfStillDisconnected g s)) = threads s"
  "peerCloses (fst (closeIfStillDisconnected g s)) = peerCloses s"
  "terminalCalls (fst (closeIfStillDisconnected g s)) = terminalCalls s"
  by (simp_all add: closeIfStillDisconnected_def Let_def split: option.splits sum.splits prod.splits rtpError.splits)

lemma startRecorder_frame [sess_simps]:
  "ctxDone (fst (startRecorder res s)) = ctxDone s"
  "disconnectTimer (fst (startRecorder res s)) = disconnectTimer s"
  "disconnectGeneration (fst (startRecorder res s)) = disconnectGeneration s"
  "peerState (fst (startRecorder res s)) = peerState s"
  "expiryTimer (fst (startRecorder res s)) = expiryTimer s"
  "audioPrimeCancel (fst (startRecorder res s)) = audioPrimeCancel s"
  "audioPrimeOnce (fst (startRecorder res s)) = audioPrimeOnce s"
  "closeOnce (fst (startRecorder res s)) = closeOnce s"
  "closeErr (fst (startRecorder res s)) = closeErr s"
  "closeRecorderVar (fst (startRecorder res s)) = closeRecorderVar s"
  "timers (fst (startRecorder res s)) = timers s"
  "primeCancelled (fst (startRecorder res s)) = primeCancelled s"
  "expiryCreated (fst (startRecorder res s)) = expiryCreated s"
  "peerCloses (fst (startRecorder res s)) = peerCloses s"
  "terminalCalls (fst (startRecorder res s)) = terminalCalls s"
  by (simp_all add: startRecorder_def go_def logEvent_def Let_def split: option.splits sum.splits prod.splits rtpError.splits)

lemma onTrack_frame [sess_simps]:
  "ctxDone (onTrack isAudio mime res s) = ctxDone s"
  "disconnectTimer (onTrack isAudio mime res s) = disconnectTimer s"
  "disconnectGeneration (onTrack isAudio mime res s) = disconnectGeneration s"
  "peerState (onTrack isAudio mime res s) = peerState s"
  "expiryTimer (onTrack isAudio mime res s) = expiryTimer s"
  "audioPrimeCancel (onTrack isAudio mime res s) = audioPrimeCancel s"
  "audioPrimeOnce (onTrack isAudio mime res s) = audioPrimeOnce s"
  "closeOnce (onTrack isAudio mime res s) = closeOnce s"
  "closeErr (onTrack isAudio mime res s) = closeErr s"
  "closeRecorderVar (onTrack isAudio mime res s) = closeRecorderVar s"
  "timers (onTrack isAudio mime res s) = timers s"
  "primeCancelled (onTrack isAudio mime res s) = primeCancelled s"
  "expiryCreated (onTrack isAudio mime res s) = expiryCreated s"
  "peerCloses (onTrack isAudio mime res s) = peerCloses s"
  "terminalCalls (onTrack isAudio mime res s) = terminalCalls s"
  by (simp_all add: onTrack_def startRecorder_def go_def logEvent_def Let_def split: option.splits sum.splits prod.splits rtpError.splits)

lemma recordStep_frame [sess_simps]:
  "ctxDone (fst (recordStep W i res s)) = ctxDone s"
  "audioClaimed (fst (recordStep W i res s)) = audioClaimed s"
  "recorder (fst (recordStep W i res s)) = recorder s"
  "disconnectTimer (fst (recordStep W i res s)) = disconnectTimer s"
  "disconnectGeneration (fst (recordStep W i res s)) = disconnectGeneration s"
  "peerState (fst (recordStep W i res s)) = peerState s"
  "expiryTimer (fst (recordStep W i res s)) = expiryTimer s"
  "audioPrimeCancel (fst (recordStep W i res s)) = audioPrimeCancel s"
  "audioPrimeOnce (fst (recordStep W i res s)) = audioPrimeOnce s"
  "closeOnce (fst (recordStep W i res s)) = closeOnce s"
  "closeErr (fst (recordStep W i res s)) = closeErr s"
  "closeRecorderVar (fst (recordStep W i res s)) = closeRecorderVar s"
  "timers (fst (recordStep W i res s)) = timers s"
  "primeCancelled (fst (recordStep W i res s)) = primeCancelled s"
  "expiryCreated (fst (recordStep W i res s)) = expiryCreated s"
  "peerCloses (fst (recordStep W i res s)) = peerCloses s"
  "terminalCalls (fst (recordStep W i res s)) = terminalCalls s"
  by (simp_all add: recordStep_def go_def logEvent_def Let_def split: option.splits sum.splits prod.splits rtpError.splits)

lemma closeCancel_frame [sess_simps]:
  "audioClaimed (closeCancel s) = audioClaimed s" "recorder (closeCancel s) = recorder s"
  "disconnectTimer (closeCancel s) = disconnectTimer s"
  "disconnectGeneration (closeCancel s) = disconnectGeneration s"
  "peerState (closeCancel s) = peerState s" "expiryTimer (closeCancel s) = expiryTimer s"
  "audioPrimeCancel (closeCancel s) = audioPrimeCancel s"
  "audioPrimeOnce (closeCancel s) = audioPrimeOnce s" "closeErr (closeCancel s) = closeErr s"
  "closeRecorderVar (closeCancel s) = closeRecorderVar s" "timers (closeCancel s) = timers s"
  "recorders (closeCancel s) = recorders s" "primeCancelled (closeCancel s) = primeCancelled s"
  "expiryCreated (closeCancel s) = expiryCreated s" "threads (closeCancel s) = threads s"
  "peerCloses (closeCancel s) = peerCloses s" "terminalCalls (closeCancel s) = terminalCalls s"
  by (simp_all add: closeCancel_def Let_def split: option.splits sum.splits prod.splits rtpError.splits)

lemma closeStopPrime_frame [sess_simps]:
  "ctxDone (closeStopPrime s) = ctxDone s" "audioClaimed (closeStopPrime s) = audioClaimed s"
  "recorder (closeStopPrime s) = recorder s"
  "disconnectTimer (closeStopPrime s) = disconnectTimer s"
  "disconnectGeneration (closeStopPrime s) = disconnectGeneration s"
  "peerState (closeStopPrime s) = peerState s" "expiryTimer (closeStopPrime s) = expiryTimer s"
  "audioPrimeCancel (closeStopPrime s) = audioPrimeCancel s"
  "audioPrimeOnce (closeStopPrime s) = audioPrimeOnce s" "closeErr (closeStopPrime s) = closeErr s"
  "closeRecorderVar (closeStopPrime s) = closeRecorderVar s" "timers (closeStopPrime s) = timers s"
  "recorders (closeStopPrime s) = recorders s" "expiryCreated (closeStopPrime s) = expiryCreated s"
  "threads (closeStopPrime s) = threads s" "peerCloses (closeStopPrime s) = peerCloses s"
  "terminalCalls (closeStopPrime s) = terminalCalls s"
  by (simp_all add: closeStopPrime_def stopAudioPrime_def Let_def split: option.splits sum.splits prod.splits rtpError.splits)

lemma closeDetach_frame [sess_simps]:
  "ctxDone (closeDetach s) = ctxDone s" "audioClaimed (closeDetach s) = audioClaimed s"
  "disconnectGeneration (closeDetach s) = disconnectGeneration s"
  "peerState (closeDetach s) = peerState s" "audioPrimeCancel (closeDetach s) = audioPrimeCancel s"
  "audioPrimeOnce (closeDetach s) = audioPrimeOnce s" "closeErr (closeDetach s) = closeErr s"
  "recorders (closeDetach s) = recorders s" "primeCancelled (closeDetach s) = primeCancelled s"
  "expiryCreated (closeDetach s) = expiryCreated s" "threads (closeDetach s) = threads s"
  "peerCloses (closeDetach s) = peerCloses s" "terminalCalls (closeDetach s) = terminalCalls s"
  by (simp_all add: closeDetach_def dropDisconnectTimer_def stopTimer_def Let_def split: option.splits sum.splits prod.splits rtpError.splits)

lemma closeRecording_frame [sess_simps]:
  "ctxDone (closeRecording C s) = ctxDone s" "audioClaimed (closeRecording C s) = audioClaimed s"
  "recorder (closeRecording C s) = recorder s"
  "disconnectTimer (closeRecording C s) = disconnectTimer s"
  "disconnectGeneration (closeRecording C s) = disconnectGeneration s"
  "peerState (closeRecording C s) = peerState s" "expiryTimer (closeRecording C s) = expiryTimer s"
  "audioPrimeCancel (closeRecording C s) = audioPrimeCancel s"
  "audioPrimeOnce (closeRecording C s) = audioPrimeOnce s"
  "closeRecorderVar (closeRecording C s) = closeRecorderVar s"
  "timers (closeRecording C s) = timers s" "primeCancelled (closeRecording C s) = primeCancelled s"
  "expiryCreated (closeRecording C s) = expiryCreated s" "threads (closeRecording C s) = threads s"
  "peerCloses (closeRecording C s) = peerCloses s"
  "terminalCalls (closeRecording C s) = terminalCalls s"
  by (simp_all add: closeRecording_def logEvent_def Let_def split: option.splits sum.splits prod.splits rtpError.splits)

lemma closePeer_frame [sess_simps]:
  "ctxDone (closePeer pe s) = ctxDone s" "audioClaimed (closePeer pe s) = audioClaimed s"
  "recorder (closePeer pe s) = recorder s" "disconnectTimer (closePeer pe s) = disconnectTimer s"
  "disconnectGeneration (closePeer pe s) = disconnectGeneration s"
  "peerState (closePeer pe s) = peerState s" "expiryTimer (closePeer pe s) = expiryTimer s"
  "audioPrimeCancel (closePeer pe s) = audioPrimeCancel s"
  "audioPrimeOnce (closePeer pe s) = audioPrimeOnce s"
  "closeRecorderVar (closePeer pe s) = closeRecorderVar s" "timers (closePeer pe s) = timers s"
  "recorders (closePeer pe s) = recorders s" "primeCancelled (closePeer pe s) = primeCancelled s"
  "expiryCreated (closePeer pe s) = expiryCreated s" "threads (closePeer pe s) = threads s"
  "terminalCalls (closePeer pe s) = terminalCalls s"
  by (simp_all add: closePeer_def Let_def split: option.splits sum.splits prod.splits rtpError.splits)

lemma closeTerminal_frame [sess_simps]:
  "ctxDone (closeTerminal cfg s) = ctxDone s" "audioClaimed (closeTerminal cfg s) = audioClaimed s"
  "recorder (closeTerminal cfg s) = recorder s"
  "disconnectTimer (closeTerminal cfg s) = disconnectTimer s"
  "disconnectGeneration (closeTerminal cfg s) = disconnectGeneration s"
  "peerState (closeTerminal cfg s) = peerState s"
  "expiryTimer (closeTerminal cfg s) = expiryTimer s"
  "audioPrimeCancel (closeTerminal cfg s) = audioPrimeCancel s"
  "audioPrimeOnce (closeTerminal cfg s) = audioPrimeOnce s"
  "closeErr (closeTerminal cfg s) = closeErr s"
  "closeRecorderVar (closeTerminal cfg s) = closeRecorderVar s"
  "timers (closeTerminal cfg s) = timers s" "recorders (closeTerminal cfg s) = recorders s"
  "primeCancelled (closeTerminal cfg s) = primeCancelled s"
  "expiryCreated (closeTerminal cfg s) = expiryCreated s"
  "threads (closeTerminal cfg s) = threads s" "peerCloses (closeTerminal cfg s) = peerCloses s"
  by (simp_all add: closeTerminal_def logEvent_def Let_def split: option.splits sum.splits prod.splits rtpError.splits)

end
