(* ===== verification/SessionMachine.thy ===== *)
theory SessionMachine
  imports SessionFrames
begin

text \<open>
  The session of \<^verbatim>\<open>internal/rtc/session.go\<close> under concurrency.  An event is one action of one
  goroutine between two points at which another may run: a critical section of \<open>stateMu\<close>, a
  piece of the body of \<open>closeOnce.Do\<close>, a timer that fires, a packet.  \<open>exec\<close> says when an event
  can happen and what it does, with the operations of the theory \<open>Session\<close>.
\<close>

section \<open>The machine\<close>

datatype ('w, 'p) sessionEvent =
    EvPeerState peerConnectionState
  | EvTrack bool string "(recError, 'w oggRecorder) result"
  | EvMarkConnected
  | EvNewExpiry duration
  | EvFire nat
  | EvCallClose
  | EvSetExpiry nat
  | EvExpire bool
  | EvStartPrime
  | EvPrimeLock
  | EvPrimeGo
  | EvPrimeFinish "primeEvent list"
  | EvStopPrime
  | EvDisconnect "64 word"
  | EvRecord nat "(string, 'p) result"
  | EvDrainEnds
  | EvCloseEnter
  | EvCloseNext "string option"
  | EvCloseReturn

abbreviation has :: "thread \<Rightarrow> 'w session \<Rightarrow> bool" where
  "has th s \<equiv> th \<in> set (threads s)"

definition guard :: "bool \<Rightarrow> 'a \<Rightarrow> 'a option" where
  "guard b x = (if b then Some x else None)"

lemma guard_Some [simp]: "guard b x = Some y \<longleftrightarrow> b \<and> x = y"
  by (simp add: guard_def)

text \<open>Firing turns an armed timer into the goroutine of its callback.\<close>

definition fire :: "nat \<Rightarrow> 'w session \<Rightarrow> 'w session" where
  "fire i s =
     go (case callback (timers s ! i) of CallDisconnect g \<Rightarrow> ThDisconnect g | CallExpire \<Rightarrow> ThExpire)
       (s\<lparr>timers := (timers s)[i := (timers s ! i)\<lparr>status := Fired\<rparr>]\<rparr>)"

text \<open>The continuations of \<^verbatim>\<open>handlePeerConnectionState\<close> after its critical section.\<close>

definition peerStateThread :: "peerConnectionState \<Rightarrow> 'w session \<Rightarrow> 'w session" where
  "peerStateThread state s =
     (if state = PeerConnected then go ThStartPrime s
      else if state = PeerFailed \<or> state = PeerClosed then go ThStopPrime s else s)"

fun exec ::
  "sessionConfig \<Rightarrow> ('w \<Rightarrow> 'p \<Rightarrow> 'w \<times> string option) \<Rightarrow> ('w \<Rightarrow> 'w \<times> string option) \<Rightarrow>
   ('w, 'p) sessionEvent \<Rightarrow> 'w session \<Rightarrow> 'w session option" where
  "exec cfg W C (EvPeerState state) s =
     guard (disconnectGeneration s + 1 \<noteq> 0)
       (peerStateThread state
         (peerStateLocked cfg state (logEvent ''peer_connection_state_changed'' '''' s)))"
| "exec cfg W C (EvTrack isAudio mime newResult) s =
     guard (case newResult of Inl _ \<Rightarrow> True | Inr r \<Rightarrow> \<not> closed r) (onTrack isAudio mime newResult s)"
| "exec cfg W C EvMarkConnected s = Some (MarkConnected s)"
| "exec cfg W C (EvNewExpiry ttl) s =
     guard (\<not> expiryCreated s)
       (go (ThSetExpiry (length (timers s)))
         (s\<lparr>expiryCreated := True,
            timers := timers s @ [\<lparr>callback = CallExpire, delay = ttl, status = Armed\<rparr>]\<rparr>))"
| "exec cfg W C (EvFire i) s =
     guard (i < length (timers s) \<and> status (timers s ! i) = Armed) (fire i s)"
| "exec cfg W C EvCallClose s = Some (go ThClose s)"
| "exec cfg W C (EvSetExpiry i) s =
     guard (has (ThSetExpiry i) s) (setExpiryTimer i (ends (ThSetExpiry i) s))"
| "exec cfg W C (EvExpire matches) s =
     guard (has ThExpire s) (if matches then go ThClose (ends ThExpire s) else ends ThExpire s)"
| "exec cfg W C EvStartPrime s =
     guard (has ThStartPrime s)
       (case primeEnter cfg (ends ThStartPrime s) of
          (s1, entered) \<Rightarrow> if entered then go ThPrimeLock s1 else s1)"
| "exec cfg W C EvPrimeLock s =
     guard (has ThPrimeLock s)
       (case primeLocked (ends ThPrimeLock s) of (s1, armed) \<Rightarrow> if armed then go ThPrimeGo s1 else s1)"
| "exec cfg W C EvPrimeGo s = guard (has ThPrimeGo s) (primeGo cfg (ends ThPrimeGo s))"
| "exec cfg W C (EvPrimeFinish events) s =
     (case runAudioPrime (primeTarget (audioPrimeDuration cfg))
         (audioPrimeFramesForMode (audioPrimeMode cfg)) events of
        None \<Rightarrow> None
      | Some (outcome, samples) \<Rightarrow>
          guard (has ThPrimeRun s \<and> (fst (snd outcome) = Some ReasonCancelled \<longrightarrow> primeCtxDone s))
            (primeFinished outcome (ends ThPrimeRun s)))"
| "exec cfg W C EvStopPrime s =
     guard (has ThStopPrime s) (go ThClose (stopAudioPrime (ends ThStopPrime s)))"
| "exec cfg W C (EvDisconnect g) s =
     guard (has (ThDisconnect g) s)
       (case closeIfStillDisconnected g (ends (ThDisconnect g) s) of
          (s1, shouldClose) \<Rightarrow> if shouldClose then go ThClose s1 else s1)"
| "exec cfg W C (EvRecord i readResult) s =
     guard (has (ThRecord i) s)
       (case recordStep W i readResult s of
          (s1, goesOn) \<Rightarrow> if goesOn then s1 else ends (ThRecord i) s1)"
| "exec cfg W C EvDrainEnds s = guard (has ThDrain s) (ends ThDrain s)"
| "exec cfg W C EvCloseEnter s =
     guard (has ThClose s \<and> closeOnce s = CloseIdle) (closeNext cfg C None (ends ThClose s))"
| "exec cfg W C (EvCloseNext peerErr) s =
     guard (closeOnce s \<noteq> CloseIdle \<and> closeOnce s \<noteq> CloseDone) (closeNext cfg C peerErr s)"
| "exec cfg W C EvCloseReturn s = guard (has ThClose s \<and> closeOnce s = CloseDone) (ends ThClose s)"

definition fresh :: "'w session \<Rightarrow> bool" where
  "fresh s = (\<exists>sid. s = newSession sid)"

interpretation sess: machine fresh "exec cfg W C"
  for cfg W C .

abbreviation sessionReachable ::
  "sessionConfig \<Rightarrow> ('w \<Rightarrow> 'p \<Rightarrow> 'w \<times> string option) \<Rightarrow> ('w \<Rightarrow> 'w \<times> string option) \<Rightarrow> 'w session \<Rightarrow> bool" where
  "sessionReachable cfg W C \<equiv> machine.reachable fresh (exec cfg W C)"

abbreviation sessionRuns ::
  "sessionConfig \<Rightarrow> ('w \<Rightarrow> 'p \<Rightarrow> 'w \<times> string option) \<Rightarrow> ('w \<Rightarrow> 'w \<times> string option) \<Rightarrow>
   ('w, 'p) sessionEvent list \<Rightarrow> 'w session \<Rightarrow> 'w session option" where
  "sessionRuns cfg W C \<equiv> runEvents (exec cfg W C)"

end
