(* ===== verification/SessionSafety.thy ===== *)
theory SessionSafety
  imports SessionMachine
begin

text \<open>
  Invariants of the session machine and what follows from them: no recorder and no timer
  outlives a closed session, at most one recording is made, the peer connection is closed
  once and the owner is told once, and a timer of an earlier disconnection has no effect.
\<close>

section \<open>Effects\<close>


lemma threads_effects [sess_simps]:
  "threads (go th s) = th # threads s" "threads (ends th s) = remove1 th (threads s)"
  "threads (primeGo cfg s) = ThPrimeRun # threads s"
  by (simp_all add: go_def ends_def primeGo_def logEvent_def)

lemma peerStateThread_effects [sess_simps]:
  "peerStateThread st s = (if st = PeerConnected then go ThStartPrime s
     else if st = PeerFailed \<or> st = PeerClosed then go ThStopPrime s else s)"
  by (simp add: peerStateThread_def)

lemma fire_frame [sess_simps]:
  "ctxDone (fire i s) = ctxDone s" "audioClaimed (fire i s) = audioClaimed s"
  "recorder (fire i s) = recorder s" "disconnectTimer (fire i s) = disconnectTimer s"
  "disconnectGeneration (fire i s) = disconnectGeneration s" "peerState (fire i s) = peerState s"
  "expiryTimer (fire i s) = expiryTimer s" "audioPrimeCancel (fire i s) = audioPrimeCancel s"
  "audioPrimeOnce (fire i s) = audioPrimeOnce s" "closeOnce (fire i s) = closeOnce s"
  "closeRecorderVar (fire i s) = closeRecorderVar s" "recorders (fire i s) = recorders s"
  "primeCancelled (fire i s) = primeCancelled s" "expiryCreated (fire i s) = expiryCreated s"
  "peerCloses (fire i s) = peerCloses s" "terminalCalls (fire i s) = terminalCalls s"
  by (simp_all add: fire_def go_def)

lemma closeOnce_effects [sess_simps]:
  "closeOnce (closeCancel s) = CloseCancelled" "ctxDone (closeCancel s)"
  "closeOnce (closeStopPrime s) = ClosePrimeStopped" "closeOnce (closeDetach s) = CloseDetached"
  "closeOnce (closeRecording C s) = CloseRecorded" "closeOnce (closePeer pe s) = ClosePeerDone"
  "closeOnce (closeTerminal cfg s) = CloseDone"
  by (simp_all add: closeCancel_def closeStopPrime_def closeDetach_def closeRecording_def closePeer_def
      closeTerminal_def Let_def split: option.splits prod.splits)

text \<open>The pieces of the body of \<open>Close\<close> by phase.\<close>

lemma closeNext_cases [consumes 1, case_names Cancelled PrimeStopped Detached Recorded PeerDone]:
  assumes "closeOnce s \<noteq> CloseIdle \<and> closeOnce s \<noteq> CloseDone"
  obtains "closeOnce s = CloseCancelled" "closeNext cfg C pe s = closeStopPrime s"
  | "closeOnce s = ClosePrimeStopped" "closeNext cfg C pe s = closeDetach s"
  | "closeOnce s = CloseDetached" "closeNext cfg C pe s = closeRecording C s"
  | "closeOnce s = CloseRecorded" "closeNext cfg C pe s = closePeer pe s"
  | "closeOnce s = ClosePeerDone" "closeNext cfg C pe s = closeTerminal cfg s"
  using assms by (cases "closeOnce s") (simp_all add: closeNext_def)

lemma closeNext_progress_phase: "closeOnce s \<noteq> CloseDone \<Longrightarrow> closeOnce (closeNext cfg C pe s) \<noteq> CloseIdle"
  using phaseRank_closeNext [of s cfg C pe] by auto

lemma closeNext_idle: "closeOnce s = CloseIdle \<Longrightarrow> closeNext cfg C pe (ends th s) = closeCancel (ends th s)"
  by (simp add: closeNext_def sess_simps)

section \<open>Cancellation\<close>

definition inv_close :: "'w session \<Rightarrow> bool" where
  "inv_close s = ((closeOnce s = CloseIdle) = (\<not> ctxDone s))"

lemma inv_close_step:
  assumes "inv_close s" "exec cfg W C e s = Some s'"
  shows "inv_close s'"
proof (cases e)
  case (EvCloseNext pe)
  then have "closeOnce s \<noteq> CloseIdle \<and> closeOnce s \<noteq> CloseDone" "s' = closeNext cfg C pe s"
    using assms(2) by simp_all
  then show ?thesis using assms(1)
    by (cases rule: closeNext_cases [of s cfg C pe]) (simp_all add: inv_close_def sess_simps)
qed (use assms in \<open>auto simp: inv_close_def sess_simps closeNext_idle case_prod_unfold split: option.splits if_splits\<close>)

section \<open>Recorders\<close>

text \<open>A session has no recorder yet; or it has one, which the field \<open>recorder\<close> holds until \<open>Close\<close>
  takes it out, which \<open>Close\<close> then holds, and which is closed after that.\<close>

definition recOk :: "'w oggRecorder list \<Rightarrow> nat option \<Rightarrow> nat option \<Rightarrow> closePhase \<Rightarrow> bool" where
  "recOk recs held taken phase =
     (case recs of
        [] \<Rightarrow> held = None \<and> taken = None
      | [r] \<Rightarrow> (closed r \<longleftrightarrow> 4 \<le> phaseRank phase) \<and>
          (if 3 \<le> phaseRank phase then held = None \<and> taken = Some 0 else held = Some 0 \<and> taken = None)
      | _ \<Rightarrow> False)"

definition inv_rec :: "'w session \<Rightarrow> bool" where
  "inv_rec s =
     (recOk (recorders s) (recorder s) (closeRecorderVar s) (closeOnce s) \<and>
      (recorders s \<noteq> [] \<longrightarrow> audioClaimed s))"

lemma recOk_cases:
  assumes "recOk recs held taken phase"
  obtains (None) "recs = []" "held = None" "taken = None"
  | (Held) r where "recs = [r]" "held = Some 0" "taken = None" "\<not> closed r" "\<not> 3 \<le> phaseRank phase"
  | (Taken) r where "recs = [r]" "held = None" "taken = Some 0" "\<not> closed r" "phase = CloseDetached"
  | (Done) r where "recs = [r]" "held = None" "taken = Some 0" "closed r" "4 \<le> phaseRank phase"
  using assms by (cases phase) (auto simp: recOk_def split: list.splits if_splits)

lemma recOk_simps [simp]:
  "recOk [] held taken phase \<longleftrightarrow> held = None \<and> taken = None"
  "recOk [r] held taken phase \<longleftrightarrow>
     (closed r \<longleftrightarrow> 4 \<le> phaseRank phase) \<and>
     (if 3 \<le> phaseRank phase then held = None \<and> taken = Some 0 else held = Some 0 \<and> taken = None)"
  by (simp_all add: recOk_def)

lemma onTrack_rec:
  "(recorders (onTrack isAudio mime res s) = recorders s \<and> recorder (onTrack isAudio mime res s) = recorder s \<and>
     (audioClaimed s \<longrightarrow> audioClaimed (onTrack isAudio mime res s))) \<or>
   (\<exists>r. \<not> audioClaimed s \<and> \<not> ctxDone s \<and> res = Inr r \<and> audioClaimed (onTrack isAudio mime res s) \<and>
     recorders (onTrack isAudio mime res s) = recorders s @ [r] \<and>
     recorder (onTrack isAudio mime res s) = Some (length (recorders s)))"
  by (auto simp: onTrack_def startRecorder_def go_def logEvent_def Let_def split: sum.splits)

lemma recordStep_rec:
  "recorders (fst (recordStep W i res s)) = recorders s \<or>
   (\<exists>p. recorders (fst (recordStep W i res s)) =
     (recorders s)[i := fst (WriteRTP W (Some p) (recorders s ! i))])"
  by (auto simp: recordStep_def go_def logEvent_def Let_def case_prod_unfold
      split: sum.splits option.splits rtpError.splits)

lemma recOk_write:
  "recOk recs held taken phase \<Longrightarrow> closed r = closed (recs ! i) \<Longrightarrow> recOk (recs[i := r]) held taken phase"
  by (cases recs; cases "tl recs"; cases i) (auto simp: recOk_def)

lemma closeDetach_rec:
  "recorder (closeDetach s) = None" "closeRecorderVar (closeDetach s) = recorder s"
  by (simp_all add: closeDetach_def dropDisconnectTimer_def stopTimer_def Let_def split: option.splits)

lemma closeRecording_rec:
  "recorders (closeRecording C s) =
     (case closeRecorderVar s of None \<Rightarrow> recorders s
      | Some i \<Rightarrow> (recorders s)[i := fst (CloseRecorder C (recorders s ! i))])"
  by (simp add: closeRecording_def logEvent_def Let_def case_prod_unfold split: option.splits)

lemma inv_rec_close:
  assumes "inv_rec s" "closeOnce s \<noteq> CloseIdle \<and> closeOnce s \<noteq> CloseDone"
  shows "inv_rec (closeNext cfg C pe s)"
proof -
  have ok: "recOk (recorders s) (recorder s) (closeRecorderVar s) (closeOnce s)"
    using assms(1) by (simp add: inv_rec_def)
  have closes: "closed (fst (CloseRecorder C r))" for r by (rule ogg.close_closes)
  show ?thesis
    using assms(2)
  proof (cases rule: closeNext_cases [of s cfg C pe])
    case Detached
    with ok show ?thesis using assms(1) closes
      by (cases rule: recOk_cases) (simp_all add: inv_rec_def sess_simps closeRecording_rec)
  qed (use ok assms(1) in \<open>cases rule: recOk_cases; simp add: inv_rec_def sess_simps closeDetach_rec\<close>)+
qed

lemma inv_rec_step:
  assumes "inv_rec s" "inv_close s" "exec cfg W C e s = Some s'"
  shows "inv_rec s'"
proof (cases e)
  case (EvTrack isAudio mime res)
  then have s': "s' = onTrack isAudio mime res s" and "\<And>r. res = Inr r \<Longrightarrow> \<not> closed r"
    using assms(3) by auto
  then show ?thesis using assms(1,2) onTrack_rec [of isAudio mime res s] unfolding s'
    by (auto simp: inv_rec_def inv_close_def sess_simps)
next
  case (EvRecord i res)
  have "closed (fst (WriteRTP W p r)) = closed r" for p r by (rule ogg.write_keeps)
  then have "inv_rec (fst (recordStep W i res s))"
    using assms(1) recordStep_rec [of W i res s]
    by (auto simp: inv_rec_def sess_simps recOk_write)
  then show ?thesis using EvRecord assms(3)
    by (auto simp: inv_rec_def sess_simps case_prod_unfold split: if_splits)
next
  case (EvCloseNext pe)
  then show ?thesis using assms(1,3) inv_rec_close by auto
next
  case EvCloseEnter
  have "recOk (recorders s) (recorder s) (closeRecorderVar s) (closeOnce s)"
    using assms(1) by (simp add: inv_rec_def)
  then show ?thesis using assms EvCloseEnter
    by (cases rule: recOk_cases) (auto simp: inv_rec_def sess_simps closeNext_idle)
qed (use assms in \<open>auto simp: inv_rec_def sess_simps case_prod_unfold split: option.splits if_splits\<close>)

section \<open>Effects on the peer connection and the owner\<close>

definition inv_once :: "sessionConfig \<Rightarrow> 'w session \<Rightarrow> bool" where
  "inv_once cfg s =
     (peerCloses s = (if 5 \<le> phaseRank (closeOnce s) then 1 else 0) \<and>
      terminalCalls s = (if closeOnce s = CloseDone \<and> hasOnTerminal cfg then 1 else 0))"

lemma closePeer_once: "peerCloses (closePeer pe s) = peerCloses s + 1"
  by (simp add: closePeer_def)

lemma closeTerminal_once:
  "terminalCalls (closeTerminal cfg s) = terminalCalls s + (if hasOnTerminal cfg then 1 else 0)"
  by (simp add: closeTerminal_def logEvent_def)

fun closing :: "('w, 'p) sessionEvent \<Rightarrow> bool" where
  "closing EvCloseEnter = True"
| "closing (EvCloseNext pe) = True"
| "closing e = False"

lemma exec_not_closing:
  "exec cfg W C e s = Some s' \<Longrightarrow> \<not> closing e \<Longrightarrow>
   closeOnce s' = closeOnce s \<and> ctxDone s' = ctxDone s \<and> peerCloses s' = peerCloses s \<and>
   terminalCalls s' = terminalCalls s"
  by (cases e) (auto simp: sess_simps case_prod_unfold split: option.splits if_splits)

lemma exec_closing:
  assumes "exec cfg W C e s = Some s'" "closing e"
  obtains "closeOnce s = CloseIdle" "s' = closeCancel (ends ThClose s)"
  | pe where "closeOnce s \<noteq> CloseIdle \<and> closeOnce s \<noteq> CloseDone" "s' = closeNext cfg C pe s"
  using assms by (cases e) (auto simp: closeNext_idle)

lemma inv_once_close:
  "inv_once cfg s \<Longrightarrow> closeOnce s \<noteq> CloseIdle \<and> closeOnce s \<noteq> CloseDone \<Longrightarrow>
   inv_once cfg (closeNext cfg C pe s)"
  by (erule closeNext_cases [of s cfg C pe])
    (simp_all add: inv_once_def sess_simps closePeer_once closeTerminal_once)

lemma inv_once_step:
  assumes "inv_once cfg s" "exec cfg W C e s = Some s'"
  shows "inv_once cfg s'"
proof (cases "closing e")
  case True
  with assms(2) show ?thesis
    by (rule exec_closing)
      (use assms(1) in \<open>simp add: inv_once_def sess_simps\<close>, use assms(1) inv_once_close in blast)
next
  case False
  then show ?thesis using assms exec_not_closing [OF assms(2)] by (simp add: inv_once_def)
qed

section \<open>Priming\<close>

definition primeThread :: "thread \<Rightarrow> bool" where
  "primeThread th = (th = ThPrimeLock \<or> th = ThPrimeGo \<or> th = ThPrimeRun)"

definition primeThreads :: "'w session \<Rightarrow> thread list" where
  "primeThreads s = filter primeThread (threads s)"

text \<open>At most one goroutine primes a session, and none before \<open>audioPrimeOnce\<close> is taken.\<close>

definition inv_prime :: "'w session \<Rightarrow> bool" where
  "inv_prime s = (length (primeThreads s) \<le> (if audioPrimeOnce s then 1 else 0))"

lemma primeThreads_go: "primeThreads (go th s) = (if primeThread th then [th] else []) @ primeThreads s"
  by (simp add: primeThreads_def sess_simps)

lemma primeThreads_ends:
  "primeThreads (ends th s) = (if primeThread th then remove1 th (primeThreads s) else primeThreads s)"
  by (simp add: primeThreads_def sess_simps filter_remove1 remove1_idem)

lemma primeThreads_onTrack: "primeThreads (onTrack isAudio mime res s) = primeThreads s"
  by (auto simp: primeThreads_def onTrack_def startRecorder_def go_def logEvent_def Let_def
      primeThread_def split: sum.splits)

lemma primeThreads_recordStep: "primeThreads (fst (recordStep W i rd s)) = primeThreads s"
  by (auto simp: primeThreads_def recordStep_def go_def logEvent_def Let_def
      primeThread_def case_prod_unfold split: sum.splits option.splits rtpError.splits)

lemma primeThreads_cong: "threads s' = threads s \<Longrightarrow> primeThreads s' = primeThreads s"
  by (simp add: primeThreads_def)

lemmas primeThreads_simps = primeThreads_go primeThreads_ends primeThreads_onTrack primeThreads_recordStep
  primeThread_def

lemma primeThreads_has: "has th s \<Longrightarrow> primeThread th \<Longrightarrow> th \<in> set (primeThreads s)"
  by (simp add: primeThreads_def)

lemma threads_fire:
  "threads (fire i s) =
     (case callback (timers s ! i) of CallDisconnect g \<Rightarrow> ThDisconnect g | CallExpire \<Rightarrow> ThExpire) # threads s"
  by (simp add: fire_def go_def)

text \<open>Only the steps of \<open>startAudioPrime\<close> change the list.\<close>

fun priming :: "('w, 'p) sessionEvent \<Rightarrow> bool" where
  "priming EvStartPrime = True"
| "priming EvPrimeLock = True"
| "priming EvPrimeGo = True"
| "priming (EvPrimeFinish events) = True"
| "priming e = False"

lemma exec_not_priming:
  assumes "exec cfg W C e s = Some s'" "\<not> priming e"
  shows "primeThreads s' = primeThreads s \<and> audioPrimeOnce s' = audioPrimeOnce s"
proof (cases "closing e")
  case True
  with assms(1) show ?thesis
  proof (rule exec_closing)
    fix pe
    assume "closeOnce s \<noteq> CloseIdle \<and> closeOnce s \<noteq> CloseDone" and s': "s' = closeNext cfg C pe s"
    then show ?thesis
      by (cases rule: closeNext_cases [of s cfg C pe]) (simp_all add: primeThreads_def sess_simps)
  qed (simp add: primeThreads_def sess_simps primeThread_def filter_remove1 remove1_idem)
next
  case False
  with assms show ?thesis
    by (cases e) (auto simp: primeThread_def sess_simps case_prod_unfold primeThreads_def filter_remove1
        remove1_idem threads_fire primeThreads_onTrack [unfolded primeThreads_def]
        primeThreads_recordStep [unfolded primeThreads_def] split: if_splits timerCallback.splits)
qed

lemma inv_prime_step:
  assumes "inv_prime s" "exec cfg W C e s = Some s'"
  shows "inv_prime s'"
proof (cases "priming e")
  case False
  then show ?thesis using assms(1) exec_not_priming [OF assms(2) False] by (simp add: inv_prime_def)
next
  case True
  have one: "primeThreads s = [th] \<and> audioPrimeOnce s" if "has th s" "primeThread th" for th
    using primeThreads_has [OF that] assms(1)
    by (cases "primeThreads s"; cases "tl (primeThreads s)") (auto simp: inv_prime_def split: if_splits)
  have enter: "primeThreads (fst (primeEnter cfg t)) = primeThreads t"
    "snd (primeEnter cfg t) \<Longrightarrow> \<not> audioPrimeOnce t \<and> audioPrimeOnce (fst (primeEnter cfg t))"
    "\<not> snd (primeEnter cfg t) \<Longrightarrow> fst (primeEnter cfg t) = t" for t :: "'a session"
    by (auto simp: primeThreads_def sess_simps primeEnter_def split: if_splits)
  show ?thesis
  proof (cases e)
    case EvStartPrime
    let ?t = "ends ThStartPrime s"
    have t: "primeThreads ?t = primeThreads s" "audioPrimeOnce ?t = audioPrimeOnce s"
      by (simp_all add: primeThreads_ends primeThread_def sess_simps)
    show ?thesis
    proof (cases "snd (primeEnter cfg ?t)")
      case entered: True
      then have "s' = go ThPrimeLock (fst (primeEnter cfg ?t))"
        using EvStartPrime assms(2) by (auto simp: case_prod_unfold)
      then show ?thesis using enter(1,2) [of ?t] entered t assms(1)
        by (simp add: inv_prime_def primeThreads_go sess_simps primeThread_def)
    next
      case skipped: False
      then have "s' = ?t" using EvStartPrime assms(2) enter(3) [of ?t] by (auto simp: case_prod_unfold)
      then show ?thesis using t assms(1) by (simp add: inv_prime_def)
    qed
  next
    case EvPrimeLock
    then have "has ThPrimeLock s" using assms(2) by simp
    from one [OF this] EvPrimeLock assms(2) show ?thesis
      by (auto simp: inv_prime_def primeThreads_def sess_simps case_prod_unfold filter_remove1 primeThread_def
          split: if_splits)
  next
    case EvPrimeGo
    then have "has ThPrimeGo s" using assms(2) by simp
    from one [OF this] EvPrimeGo assms(2) show ?thesis
      by (auto simp: inv_prime_def primeThreads_def sess_simps filter_remove1 primeThread_def)
  next
    case (EvPrimeFinish evs)
    then have "has ThPrimeRun s" using assms(2) by (auto split: option.splits)
    from one [OF this] EvPrimeFinish assms(2) show ?thesis
      by (auto simp: inv_prime_def primeThreads_def sess_simps filter_remove1 primeThread_def split: option.splits)
  qed (use True in auto)
qed

end
