(* ===== verification/SessionTimers.thy ===== *)
theory SessionTimers
  imports SessionSafety
begin

text \<open>
  The timers of a session: an armed timer is always one that the session can still stop, and
  the callback of a disconnect timer finds the generation it was started with only if no
  later state change has happened.
\<close>

section \<open>A view of the timers\<close>

text \<open>\<open>ts\<close> the timers, \<open>dt\<close> and \<open>et\<close> the fields \<open>disconnectTimer\<close> and \<open>expiryTimer\<close>, \<open>gen\<close> the
  generation, \<open>ps\<close> the peer state, \<open>th\<close> the goroutines, \<open>cr\<close> whether an expiry timer exists.\<close>

definition armedOk :: "timer list \<Rightarrow> nat option \<Rightarrow> nat option \<Rightarrow> thread set \<Rightarrow> bool" where
  "armedOk ts dt et th =
     (\<forall>i < length ts. status (ts ! i) = Armed \<longrightarrow>
        (callback (ts ! i) \<noteq> CallExpire \<longrightarrow> dt = Some i) \<and>
        (callback (ts ! i) = CallExpire \<longrightarrow> et = Some i \<or> ThSetExpiry i \<in> th))"

definition dtOk :: "timer list \<Rightarrow> nat option \<Rightarrow> 64 word \<Rightarrow> peerConnectionState \<Rightarrow> bool" where
  "dtOk ts dt gen ps =
     (case dt of None \<Rightarrow> True
      | Some i \<Rightarrow> i < length ts \<and> callback (ts ! i) = CallDisconnect gen \<and> ps = PeerDisconnected)"

definition callbacksOk :: "timer list \<Rightarrow> 64 word \<Rightarrow> bool \<Rightarrow> bool" where
  "callbacksOk ts gen cr =
     (distinct (map callback ts) \<and>
      (\<forall>g. CallDisconnect g \<in> set (map callback ts) \<longrightarrow> g \<le> gen) \<and>
      (CallExpire \<in> set (map callback ts) \<longrightarrow> cr))"

definition firedOk :: "timer list \<Rightarrow> thread set \<Rightarrow> bool" where
  "firedOk ts th =
     (\<forall>g. ThDisconnect g \<in> th \<longrightarrow> (\<exists>i < length ts. callback (ts ! i) = CallDisconnect g \<and> status (ts ! i) = Fired))"

definition expiryOk :: "timer list \<Rightarrow> nat option \<Rightarrow> thread set \<Rightarrow> bool" where
  "expiryOk ts et th =
     ((\<forall>i. et = Some i \<longrightarrow> i < length ts \<and> callback (ts ! i) = CallExpire) \<and>
      (\<forall>i. ThSetExpiry i \<in> th \<longrightarrow> i < length ts \<and> callback (ts ! i) = CallExpire))"

definition timersOk :: "timer list \<Rightarrow> nat option \<Rightarrow> nat option \<Rightarrow> 64 word \<Rightarrow> peerConnectionState \<Rightarrow>
    thread set \<Rightarrow> bool \<Rightarrow> bool" where
  "timersOk ts dt et gen ps th cr =
     (armedOk ts dt et th \<and> dtOk ts dt gen ps \<and> callbacksOk ts gen cr \<and> firedOk ts th \<and> expiryOk ts et th)"

lemmas timer_view_defs = armedOk_def dtOk_def callbacksOk_def firedOk_def expiryOk_def

lemma callback_unique:
  "callbacksOk ts gen cr \<Longrightarrow> i < length ts \<Longrightarrow> j < length ts \<Longrightarrow> callback (ts ! i) = callback (ts ! j) \<Longrightarrow> i = j"
  using nth_eq_iff_index_eq [of "map callback ts" i j] by (simp add: callbacksOk_def)

text \<open>Stopping or firing a timer.\<close>

definition quiet :: "timer \<Rightarrow> timer \<Rightarrow> bool" where
  "quiet t t' = (callback t' = callback t \<and> status t' \<noteq> Armed \<and> (status t = Fired \<longrightarrow> status t' = Fired))"

lemma map_callback_update: "callback t' = callback (ts ! i) \<Longrightarrow> map callback (ts[i := t']) = map callback ts"
proof (rule nth_equalityI)
  fix j
  assume "callback t' = callback (ts ! i)" "j < length (map callback (ts[i := t']))"
  then show "map callback (ts[i := t']) ! j = map callback ts ! j" by (cases "j = i") simp_all
qed simp

lemma timersOk_quiet:
  assumes ok: "timersOk ts dt et gen ps th cr" and q: "quiet (ts ! i) t'"
  shows "timersOk (ts[i := t']) dt et gen ps th cr"
proof (cases "i < length ts")
  case True
  have cb: "callback (ts[i := t'] ! j) = callback (ts ! j)" for j
    using q True by (cases "j = i") (simp_all add: quiet_def)
  have st: "status (ts[i := t'] ! j) = Armed \<Longrightarrow> status (ts ! j) = Armed"
    "status (ts ! j) = Fired \<Longrightarrow> status (ts[i := t'] ! j) = Fired" for j
    using q True by (cases "j = i"; simp add: quiet_def)+
  have "armedOk (ts[i := t']) dt et th" using ok st(1) by (simp add: timersOk_def armedOk_def cb)
  moreover have "firedOk (ts[i := t']) th"
    using ok st(2) by (simp add: timersOk_def firedOk_def cb) blast
  moreover have "callbacksOk (ts[i := t']) gen cr"
    using ok q map_callback_update [of t' ts i]
    by (simp only: timersOk_def callbacksOk_def quiet_def) blast
  ultimately show ?thesis using ok by (simp add: timersOk_def dtOk_def expiryOk_def cb split: option.splits)
next
  case False
  then have "ts[i := t'] = ts" by (simp add: not_less list_update_beyond)
  with ok show ?thesis by simp
qed

lemma timersOk_clear_dt:
  assumes "timersOk ts dt et gen ps th cr" "\<And>i. dt = Some i \<Longrightarrow> status (ts ! i) \<noteq> Armed"
  shows "timersOk ts None et gen ps th cr"
proof -
  have "armedOk ts None et th" unfolding armedOk_def
  proof (intro allI impI)
    fix i assume i: "i < length ts" "status (ts ! i) = Armed"
    then have "dt \<noteq> Some i" using assms(2) by blast
    then show "(callback (ts ! i) \<noteq> CallExpire \<longrightarrow> None = Some i) \<and>
        (callback (ts ! i) = CallExpire \<longrightarrow> et = Some i \<or> ThSetExpiry i \<in> th)"
      using assms(1) i by (auto simp: timersOk_def armedOk_def)
  qed
  then show ?thesis using assms(1) by (simp add: timersOk_def dtOk_def)
qed

lemma timersOk_clear_et:
  assumes "timersOk ts dt et gen ps th cr" "\<And>i. et = Some i \<Longrightarrow> status (ts ! i) \<noteq> Armed"
  shows "timersOk ts dt None gen ps th cr"
proof -
  have "armedOk ts dt None th" unfolding armedOk_def
  proof (intro allI impI)
    fix i assume i: "i < length ts" "status (ts ! i) = Armed"
    then have "et \<noteq> Some i" using assms(2) by blast
    then show "(callback (ts ! i) \<noteq> CallExpire \<longrightarrow> dt = Some i) \<and>
        (callback (ts ! i) = CallExpire \<longrightarrow> None = Some i \<or> ThSetExpiry i \<in> th)"
      using assms(1) i by (auto simp: timersOk_def armedOk_def)
  qed
  then show ?thesis using assms(1) by (simp add: timersOk_def expiryOk_def)
qed

lemma next_generation: "gen + 1 \<noteq> (0 :: 64 word) \<Longrightarrow> gen < gen + 1"
  using unatSuc [of gen] by (simp add: word_less_nat_alt add.commute)

lemma timersOk_state:
  assumes "timersOk ts None et gen ps th cr" "gen + 1 \<noteq> 0"
  shows "timersOk ts None et (gen + 1) ps' th cr"
proof -
  have "gen < gen + 1" by (rule next_generation [OF assms(2)])
  then show ?thesis using assms(1)
    by (simp add: timersOk_def dtOk_def callbacksOk_def) (meson order.trans order_less_imp_le)
qed

lemma timersOk_new_disconnect:
  assumes ok: "timersOk ts None et gen ps th cr" and "gen + 1 \<noteq> 0"
  shows "timersOk (ts @ [\<lparr>callback = CallDisconnect (gen + 1), delay = d, status = Armed\<rparr>]) (Some (length ts))
    et (gen + 1) PeerDisconnected th cr"
proof -
  have lt: "gen < gen + 1" by (rule next_generation [OF assms(2)])
  have "CallDisconnect (gen + 1) \<notin> set (map callback ts)"
    using ok lt by (auto simp: timersOk_def callbacksOk_def)
  then have "callbacksOk (ts @ [\<lparr>callback = CallDisconnect (gen + 1), delay = d, status = Armed\<rparr>]) (gen + 1) cr"
    using ok lt by (simp add: timersOk_def callbacksOk_def) (meson order.trans order_less_imp_le)
  moreover have "armedOk (ts @ [\<lparr>callback = CallDisconnect (gen + 1), delay = d, status = Armed\<rparr>])
      (Some (length ts)) et th"
    using ok by (fastforce simp: timersOk_def armedOk_def nth_append less_Suc_eq)
  moreover have "firedOk (ts @ [\<lparr>callback = CallDisconnect (gen + 1), delay = d, status = Armed\<rparr>]) th"
    using ok by (fastforce simp: timersOk_def firedOk_def nth_append)
  ultimately show ?thesis using ok
    by (auto simp: timersOk_def dtOk_def expiryOk_def nth_append)
qed

lemma timersOk_new_expiry:
  assumes ok: "timersOk ts dt et gen ps th False"
  shows "timersOk (ts @ [\<lparr>callback = CallExpire, delay = d, status = Armed\<rparr>]) dt et gen ps
    (insert (ThSetExpiry (length ts)) th) True"
proof -
  let ?ts = "ts @ [\<lparr>callback = CallExpire, delay = d, status = Armed\<rparr>]"
  have "callbacksOk ?ts gen True" using ok by (auto simp: timersOk_def callbacksOk_def)
  moreover have "armedOk ?ts dt et (insert (ThSetExpiry (length ts)) th)"
    using ok by (fastforce simp: timersOk_def armedOk_def nth_append less_Suc_eq)
  moreover have "firedOk ?ts (insert (ThSetExpiry (length ts)) th)"
    using ok by (fastforce simp: timersOk_def firedOk_def nth_append)
  ultimately show ?thesis using ok
    by (auto simp: timersOk_def dtOk_def expiryOk_def nth_append split: option.splits)
qed

text \<open>Goroutines that do not touch the timers may come and go.\<close>

definition timerThreads :: "thread set \<Rightarrow> thread set" where
  "timerThreads th = {t \<in> th. (\<exists>g. t = ThDisconnect g) \<or> (\<exists>i. t = ThSetExpiry i)}"

lemma timersOk_threads:
  assumes "timersOk ts dt et gen ps th cr" "timerThreads th' = timerThreads th"
  shows "timersOk ts dt et gen ps th' cr"
proof -
  have "ThDisconnect g \<in> th' \<longleftrightarrow> ThDisconnect g \<in> th" "ThSetExpiry i \<in> th' \<longleftrightarrow> ThSetExpiry i \<in> th" for g i
    using assms(2) by (auto simp: timerThreads_def set_eq_iff)
  then show ?thesis using assms(1) by (simp add: timersOk_def armedOk_def firedOk_def expiryOk_def)
qed

lemma timersOk_fewer_disconnect:
  assumes ok: "timersOk ts dt et gen ps th cr" and "th' \<subseteq> th"
    "\<And>i. ThSetExpiry i \<in> th \<Longrightarrow> ThSetExpiry i \<in> th'"
  shows "timersOk ts dt et gen ps th' cr"
proof -
  have "armedOk ts dt et th'"
    using ok assms(3) by (auto simp: timersOk_def armedOk_def)
  then show ?thesis using ok assms(2) by (auto simp: timersOk_def firedOk_def expiryOk_def)
qed

lemma timersOk_fire:
  assumes ok: "timersOk ts dt et gen ps th cr" and "i < length ts" "status (ts ! i) = Armed"
    "callback (ts ! i) = CallDisconnect g"
  shows "timersOk (ts[i := (ts ! i)\<lparr>status := Fired\<rparr>]) dt et gen ps (insert (ThDisconnect g) th) cr"
proof -
  have "timersOk (ts[i := (ts ! i)\<lparr>status := Fired\<rparr>]) dt et gen ps th cr"
    by (rule timersOk_quiet [OF ok]) (simp add: quiet_def)
  then show ?thesis using assms(2,4)
    by (auto simp: timersOk_def armedOk_def firedOk_def expiryOk_def)
qed

text \<open>The expiry timer gets into its field: it is the only one of its kind.\<close>

lemma timersOk_set_expiry:
  assumes ok: "timersOk ts dt et gen ps th cr" and "ThSetExpiry i \<in> th" "th' \<subseteq> th"
    "\<And>t. t \<in> th \<Longrightarrow> t \<noteq> ThSetExpiry i \<Longrightarrow> t \<in> th'"
  shows "timersOk ts dt (Some i) gen ps th' cr"
proof -
  have i: "i < length ts" "callback (ts ! i) = CallExpire"
    using ok assms(2) by (auto simp: timersOk_def expiryOk_def)
  have "armedOk ts dt (Some i) th'"
    unfolding armedOk_def
  proof (intro allI impI)
    fix j assume j: "j < length ts" "status (ts ! j) = Armed"
    have "j = i" if "callback (ts ! j) = CallExpire"
      using that ok i j(1) by (auto simp: timersOk_def intro: callback_unique)
    then show "(callback (ts ! j) \<noteq> CallExpire \<longrightarrow> dt = Some j) \<and>
        (callback (ts ! j) = CallExpire \<longrightarrow> Some i = Some j \<or> ThSetExpiry j \<in> th')"
      using ok j by (auto simp: timersOk_def armedOk_def)
  qed
  then show ?thesis using ok i assms(3)
    by (auto simp: timersOk_def firedOk_def expiryOk_def)
qed

lemma timersOk_stopped_expiry:
  assumes ok: "timersOk ts dt et gen ps th cr" and "ThSetExpiry i \<in> th" "th' \<subseteq> th"
    "\<And>t. t \<in> th \<Longrightarrow> t \<noteq> ThSetExpiry i \<Longrightarrow> t \<in> th'" "status (ts ! i) \<noteq> Armed"
  shows "timersOk ts dt et gen ps th' cr"
proof -
  have i: "i < length ts" "callback (ts ! i) = CallExpire"
    using ok assms(2) by (auto simp: timersOk_def expiryOk_def)
  have "armedOk ts dt et th'"
    using ok assms(4,5) by (fastforce simp: timersOk_def armedOk_def)
  then show ?thesis using ok assms(3) by (auto simp: timersOk_def firedOk_def expiryOk_def)
qed

section \<open>The invariant of the timers\<close>

definition inv_timer :: "'w session \<Rightarrow> bool" where
  "inv_timer s =
     (timersOk (timers s) (disconnectTimer s) (expiryTimer s) (disconnectGeneration s) (peerState s)
        (set (threads s)) (expiryCreated s) \<and>
      (3 \<le> phaseRank (closeOnce s) \<longrightarrow> disconnectTimer s = None \<and> expiryTimer s = None))"

fun timing :: "('w, 'p) sessionEvent \<Rightarrow> bool" where
  "timing (EvPeerState st) = True"
| "timing (EvNewExpiry d) = True"
| "timing (EvFire i) = True"
| "timing (EvSetExpiry i) = True"
| "timing (EvDisconnect g) = True"
| "timing (EvCloseNext pe) = True"
| "timing e = False"

lemma timerThreads_simps [simp]:
  "timerThreads (set (remove1 ThClose xs)) = timerThreads (set xs)"
  "timerThreads (set (remove1 ThStartPrime xs)) = timerThreads (set xs)"
  "timerThreads (set (remove1 ThPrimeLock xs)) = timerThreads (set xs)"
  "timerThreads (set (remove1 ThPrimeGo xs)) = timerThreads (set xs)"
  "timerThreads (set (remove1 ThPrimeRun xs)) = timerThreads (set xs)"
  "timerThreads (set (remove1 ThStopPrime xs)) = timerThreads (set xs)"
  "timerThreads (set (remove1 ThExpire xs)) = timerThreads (set xs)"
  "timerThreads (set (remove1 (ThRecord i) xs)) = timerThreads (set xs)"
  "timerThreads (set (remove1 ThDrain xs)) = timerThreads (set xs)"
  "timerThreads (insert ThClose th) = timerThreads th" "timerThreads (insert ThStartPrime th) = timerThreads th"
  "timerThreads (insert ThPrimeLock th) = timerThreads th" "timerThreads (insert ThPrimeGo th) = timerThreads th"
  "timerThreads (insert ThPrimeRun th) = timerThreads th" "timerThreads (insert ThStopPrime th) = timerThreads th"
  "timerThreads (insert ThExpire th) = timerThreads th" "timerThreads (insert (ThRecord i) th) = timerThreads th"
  "timerThreads (insert ThDrain th) = timerThreads th"
  by (auto simp: timerThreads_def in_set_remove1)

lemma timerThreads_onTrack:
  "timerThreads (set (threads (onTrack isAudio mime res s))) = timerThreads (set (threads s))"
  by (auto simp: onTrack_def startRecorder_def go_def logEvent_def Let_def split: sum.splits)

lemma timerThreads_recordStep:
  "timerThreads (set (threads (fst (recordStep W i rd s)))) = timerThreads (set (threads s))"
  by (auto simp: recordStep_def go_def logEvent_def Let_def case_prod_unfold
      split: sum.splits option.splits rtpError.splits)

lemma exec_not_timing:
  assumes "exec cfg W C e s = Some s'" "\<not> timing e"
  shows "timers s' = timers s \<and> disconnectTimer s' = disconnectTimer s \<and> expiryTimer s' = expiryTimer s \<and>
    disconnectGeneration s' = disconnectGeneration s \<and> peerState s' = peerState s \<and>
    expiryCreated s' = expiryCreated s \<and>
    timerThreads (set (threads s')) = timerThreads (set (threads s)) \<and>
    (closeOnce s' = closeOnce s \<or> closeOnce s' = CloseCancelled)"
  using assms
  by (cases e) (auto simp: sess_simps case_prod_unfold closeNext_idle timerThreads_onTrack
      timerThreads_recordStep split: option.splits if_splits)

definition stopped :: "timer \<Rightarrow> timer" where
  "stopped t = t\<lparr>status := (if status t = Armed then Stopped else status t)\<rparr>"

lemma status_stopped: "status (stopped t) \<noteq> Armed"
  by (simp add: stopped_def)

lemma quiet_stopped: "quiet t (stopped t)"
  by (simp add: quiet_def stopped_def)

lemma timers_stopTimer: "timers (stopTimer i s) = (timers s)[i := stopped (timers s ! i)]"
  by (simp add: stopTimer_def stopped_def)

text \<open>Stopping the timer that a field holds and clearing the field.\<close>

lemma timersOk_drop_dt:
  assumes "timersOk ts (Some i) et gen ps th cr"
  shows "timersOk (ts[i := stopped (ts ! i)]) None et gen ps th cr"
proof (rule timersOk_clear_dt [OF timersOk_quiet [OF assms quiet_stopped]])
  fix j assume "Some i = Some j"
  moreover have "i < length ts" using assms by (simp add: timersOk_def dtOk_def)
  ultimately show "status (ts[i := stopped (ts ! i)] ! j) \<noteq> Armed" by (simp add: status_stopped)
qed

lemma timersOk_drop_et:
  assumes "timersOk ts dt (Some i) gen ps th cr"
  shows "timersOk (ts[i := stopped (ts ! i)]) dt None gen ps th cr"
proof (rule timersOk_clear_et [OF timersOk_quiet [OF assms quiet_stopped]])
  fix j assume "Some i = Some j"
  moreover have "i < length ts" using assms by (simp add: timersOk_def expiryOk_def)
  ultimately show "status (ts[i := stopped (ts ! i)] ! j) \<noteq> Armed" by (simp add: status_stopped)
qed

definition timersOf :: "'w session \<Rightarrow> bool" where
  "timersOf s = timersOk (timers s) (disconnectTimer s) (expiryTimer s) (disconnectGeneration s) (peerState s)
     (set (threads s)) (expiryCreated s)"

lemma timersOf_drop: "timersOf s \<Longrightarrow> timersOf (dropDisconnectTimer s) \<and> disconnectTimer (dropDisconnectTimer s) = None"
  by (cases "disconnectTimer s")
    (auto simp: timersOf_def dropDisconnectTimer_def timers_stopTimer sess_simps intro: timersOk_drop_dt)

lemma drop_commute:
  "dropDisconnectTimer (s\<lparr>disconnectGeneration := g, peerState := p\<rparr>) =
   (dropDisconnectTimer s)\<lparr>disconnectGeneration := g, peerState := p\<rparr>"
  by (cases "disconnectTimer s") (simp_all add: dropDisconnectTimer_def stopTimer_def)

lemma timersOf_peerState:
  assumes "timersOf s" "disconnectGeneration s + 1 \<noteq> 0"
  shows "timersOf (peerStateLocked cfg st s)"
proof -
  let ?t = "dropDisconnectTimer s"
  have t: "timersOf ?t" "disconnectTimer ?t = None" using timersOf_drop [OF assms(1)] by simp_all
  have g: "disconnectGeneration ?t = disconnectGeneration s" by (simp add: sess_simps)
  have ok: "timersOk (timers ?t) None (expiryTimer ?t) (disconnectGeneration s) (peerState ?t)
      (set (threads ?t)) (expiryCreated ?t)"
    using t by (simp add: timersOf_def g)
  show ?thesis
  proof (cases "st = PeerDisconnected \<and> \<not> ctxDone ?t")
    case True
    with timersOk_new_disconnect [OF ok assms(2), of "disconnectGrace cfg"] show ?thesis
      by (simp add: peerStateLocked_def Let_def drop_commute timersOf_def)
  next
    case False
    with timersOk_state [OF ok assms(2), of st] t(2) show ?thesis
      by (auto simp: peerStateLocked_def Let_def drop_commute timersOf_def)
  qed
qed

lemma timersOf_detach:
  "timersOf s \<Longrightarrow> timersOf (closeDetach s) \<and> disconnectTimer (closeDetach s) = None \<and> expiryTimer (closeDetach s) = None"
proof -
  assume "timersOf s"
  then have t: "timersOf (dropDisconnectTimer s)" "disconnectTimer (dropDisconnectTimer s) = None"
    using timersOf_drop by blast+
  show ?thesis
    using t timersOk_drop_et [of "timers (dropDisconnectTimer s)" "disconnectTimer (dropDisconnectTimer s)"]
    by (cases "expiryTimer (dropDisconnectTimer s)")
      (auto simp: closeDetach_def Let_def timersOf_def timers_stopTimer sess_simps)
qed

lemma inv_timer_eq:
  "inv_timer s \<longleftrightarrow> timersOf s \<and> (3 \<le> phaseRank (closeOnce s) \<longrightarrow> disconnectTimer s = None \<and> expiryTimer s = None)"
  by (simp add: inv_timer_def timersOf_def)

lemma inv_timer_close:
  assumes "inv_timer s" "closeOnce s \<noteq> CloseIdle \<and> closeOnce s \<noteq> CloseDone"
  shows "inv_timer (closeNext cfg C pe s)"
  using assms(2)
proof (cases rule: closeNext_cases [of s cfg C pe])
  case PrimeStopped
  then show ?thesis using assms(1) timersOf_detach [of s] by (simp add: inv_timer_eq)
qed (use assms(1) in \<open>auto simp: inv_timer_def sess_simps\<close>)

lemma timersOf_go:
  "timerThreads (insert t (set (threads s))) = timerThreads (set (threads s)) \<Longrightarrow> timersOf s \<Longrightarrow> timersOf (go t s)"
  unfolding timersOf_def by (rule timersOk_threads) (simp_all add: sess_simps)

lemma timersOf_fire:
  assumes "timersOf s" "i < length (timers s)" "status (timers s ! i) = Armed"
  shows "timersOf (fire i s)"
proof (cases "callback (timers s ! i)")
  case (CallDisconnect g)
  with timersOk_fire [of "timers s" _ _ _ _ _ _ i g] assms show ?thesis
    by (simp add: timersOf_def fire_def go_def)
next
  case CallExpire
  have "timersOf (s\<lparr>timers := (timers s)[i := (timers s ! i)\<lparr>status := Fired\<rparr>]\<rparr>)"
    using assms(1) timersOk_quiet [of "timers s" _ _ _ _ _ _ i "(timers s ! i)\<lparr>status := Fired\<rparr>"]
    by (simp add: timersOf_def quiet_def)
  then show ?thesis using CallExpire by (simp add: fire_def timersOf_go)
qed

lemma set_remove1_sub: "set (remove1 x xs) \<subseteq> set xs" "t \<in> set xs \<Longrightarrow> t \<noteq> x \<Longrightarrow> t \<in> set (remove1 x xs)"
  using set_remove1_subset [of x xs] by (simp_all add: in_set_remove1)

lemma timersOf_setExpiry:
  assumes "timersOf s" "has (ThSetExpiry i) s"
  shows "timersOf (setExpiryTimer i (ends (ThSetExpiry i) s))"
proof (cases "ctxDone s")
  case True
  have i: "i < length (timers s)" using assms by (auto simp: timersOf_def timersOk_def expiryOk_def)
  have "timersOk (timers (stopTimer i s)) (disconnectTimer s) (expiryTimer s) (disconnectGeneration s)
      (peerState s) (set (threads s)) (expiryCreated s)"
    using assms(1) timersOk_quiet [OF _ quiet_stopped] by (simp add: timersOf_def timers_stopTimer)
  from timersOk_stopped_expiry [OF this assms(2) set_remove1_sub] True i show ?thesis
    by (simp add: timersOf_def setExpiryTimer_def sess_simps timers_stopTimer status_stopped)
next
  case False
  then show ?thesis
    using timersOk_set_expiry [OF assms(1) [unfolded timersOf_def] assms(2) set_remove1_sub]
    by (simp add: timersOf_def setExpiryTimer_def sess_simps)
qed

text \<open>The callback of the current disconnect timer clears its own field, which no armed timer uses.\<close>

lemma timersOf_disconnect:
  assumes "timersOf s" "has (ThDisconnect g) s"
  shows "timersOf (fst (closeIfStillDisconnected g (ends (ThDisconnect g) s)))"
proof -
  have e: "timersOf (ends (ThDisconnect g) s)"
    using timersOk_fewer_disconnect [OF assms(1) [unfolded timersOf_def] set_remove1_sub(1)]
    by (simp add: timersOf_def sess_simps in_set_remove1)
  obtain j where j: "j < length (timers s)" "callback (timers s ! j) = CallDisconnect g"
      "status (timers s ! j) = Fired"
    using assms by (auto simp: timersOf_def timersOk_def firedOk_def)
  have "status (timers s ! i) \<noteq> Armed" if "disconnectTimer s = Some i" "disconnectGeneration s = g" for i
  proof -
    have "i < length (timers s)" "callback (timers s ! i) = CallDisconnect g"
      using assms(1) that by (auto simp: timersOf_def timersOk_def dtOk_def)
    then have "i = j"
      using assms(1) j by (intro callback_unique) (auto simp: timersOf_def timersOk_def)
    with j(3) show ?thesis by simp
  qed
  then show ?thesis
    using e timersOk_clear_dt [OF e [unfolded timersOf_def]]
    by (auto simp: closeIfStillDisconnected_def Let_def timersOf_def sess_simps)
qed

lemma timersOf_newExpiry:
  "timersOf s \<Longrightarrow> \<not> expiryCreated s \<Longrightarrow>
   timersOf (go (ThSetExpiry (length (timers s))) (s\<lparr>expiryCreated := True,
     timers := timers s @ [\<lparr>callback = CallExpire, delay = d, status = Armed\<rparr>]\<rparr>))"
  using timersOk_new_expiry [of "timers s" "disconnectTimer s" "expiryTimer s" "disconnectGeneration s"
      "peerState s" "set (threads s)" d]
  by (simp add: timersOf_def go_def)

lemma timersOf_step:
  assumes "timersOf s" "exec cfg W C e s = Some s'" "\<And>pe. e \<noteq> EvCloseNext pe"
  shows "timersOf s'"
proof (cases "timing e")
  case False
  then show ?thesis using assms(1) exec_not_timing [OF assms(2) False] timersOk_threads
    by (simp add: timersOf_def)
next
  case True
  then show ?thesis
  proof (cases e)
    case (EvPeerState st)
    have "timersOf (logEvent n d s)" for n d using assms(1) by (simp add: timersOf_def sess_simps)
    then have "timersOf (peerStateLocked cfg st (logEvent ''peer_connection_state_changed'' '''' s))"
      using EvPeerState assms(2) by (intro timersOf_peerState) (simp_all add: sess_simps)
    then show ?thesis using EvPeerState assms(2) by (auto simp: peerStateThread_def intro!: timersOf_go)
  next
    case (EvDisconnect g)
    then show ?thesis using assms(1,2) timersOf_disconnect [of s g]
      by (auto simp: case_prod_unfold intro: timersOf_go split: if_splits)
  qed (use assms timersOf_fire timersOf_setExpiry timersOf_newExpiry in auto)
qed

lemma inv_timer_step:
  assumes "inv_timer s" "inv_close s" "exec cfg W C e s = Some s'"
  shows "inv_timer s'"
proof (cases "\<exists>pe. e = EvCloseNext pe")
  case True
  then obtain pe where "closeOnce s \<noteq> CloseIdle \<and> closeOnce s \<noteq> CloseDone" "s' = closeNext cfg C pe s"
    using assms(3) by auto
  then show ?thesis using inv_timer_close [OF assms(1)] by simp
next
  case False
  then have t: "timersOf s'" using timersOf_step [OF _ assms(3)] assms(1) by (auto simp: inv_timer_eq)
  have "disconnectTimer s' = None \<and> expiryTimer s' = None" if r: "3 \<le> phaseRank (closeOnce s')"
  proof -
    have "e \<noteq> EvCloseEnter" using assms(3) r by (auto simp: closeNext_idle sess_simps)
    then have cl: "\<not> closing e" using False by (cases e) auto
    then have c: "closeOnce s' = closeOnce s" using exec_not_closing [OF assms(3)] by simp
    then have fin: "ctxDone s" "disconnectTimer s = None" "expiryTimer s = None"
      using assms(1,2) r by (auto simp: inv_timer_eq inv_close_def)
    show ?thesis
    proof (cases "timing e")
      case True
      with False show ?thesis using assms(3) fin
        by (cases e) (auto simp: sess_simps peerStateLocked_def dropDisconnectTimer_def Let_def setExpiryTimer_def
            closeIfStillDisconnected_def case_prod_unfold split: if_splits)
    qed (use exec_not_timing [OF assms(3)] fin in simp)
  qed
  with t show ?thesis by (simp add: inv_timer_eq)
qed

section \<open>The invariant of a session\<close>

definition sessionInv :: "sessionConfig \<Rightarrow> 'w session \<Rightarrow> bool" where
  "sessionInv cfg s = (inv_close s \<and> inv_rec s \<and> inv_once cfg s \<and> inv_prime s \<and> inv_timer s)"

lemma sessionInv_new: "sessionInv cfg (newSession sid)"
  by (simp add: sessionInv_def inv_close_def inv_rec_def inv_once_def inv_prime_def primeThreads_def inv_timer_def
      newSession_def timersOk_def armedOk_def dtOk_def callbacksOk_def firedOk_def expiryOk_def)

interpretation sess: machine_invariant fresh "exec cfg W C" "sessionInv cfg"
  for cfg W C
proof unfold_locales
  show "fresh s \<Longrightarrow> sessionInv cfg s" for s :: "'a session"
    using sessionInv_new by (auto simp: fresh_def)
  show "sessionInv cfg s \<Longrightarrow> exec cfg W C e s = Some s' \<Longrightarrow> sessionInv cfg s'" for s e s'
    unfolding sessionInv_def
    by (blast intro: inv_close_step inv_rec_step inv_once_step inv_prime_step inv_timer_step)
qed

end
