(* ===== verification/Manager.thy ===== *)
theory Manager
  imports SessionTimers SdpMeta "HOL-Library.AList"
begin

text \<open>
  \<^verbatim>\<open>internal/rtc/session_manager.go\<close>: the sessions by identifier.  The map holds pointers to
  entries and an entry points to its session once it is published, so both are addressed
  by position here: \<open>entries\<close> and \<open>heap\<close> only grow, and comparing pointers is comparing
  positions.  \<open>owners\<close> records which identifier and entry the callback \<open>onTerminal\<close> of a
  session was built with.  \<open>creating\<close> lists the calls of \<open>Create\<close> under way, and \<open>entryIds\<close>
  remembers for the proofs which identifier an entry was made for.  The critical sections of \<open>m.mu\<close> are one function each; the
  operations compose them with the operations of the session as the code does.
\<close>

section \<open>State and critical sections\<close>

datatype createPhase =
    Building string nat
  | Built string nat nat
  | Abandoning string nat nat
  | Published nat
  | Rejected nat

record 'w manager =
  sessions :: "(string \<times> nat) list"
  entries :: "nat option list"
  heap :: "'w session list"
  owners :: "(string \<times> nat) list"
  creating :: "createPhase list"
  entryIds :: "string list"

definition NewManager :: "'w manager" where
  "NewManager = \<lparr>sessions = [], entries = [], heap = [], owners = [], creating = [], entryIds = []\<rparr>"

abbreviation lookup :: "'w manager \<Rightarrow> string \<Rightarrow> nat option" where
  "lookup m ident \<equiv> map_of (sessions m) ident"

text \<open>The first critical section of \<^verbatim>\<open>Create\<close>: an identifier in use is an error, otherwise it is
  reserved with an entry that has no session yet.\<close>

definition reserve :: "string \<Rightarrow> 'w manager \<Rightarrow> (rtcError, 'w manager \<times> nat) result" where
  "reserve ident m =
     (case lookup m ident of
        Some _ \<Rightarrow> Inl ErrSessionExists
      | None \<Rightarrow> let e = length (entries m) in
          Inr (m\<lparr>sessions := (ident, e) # sessions m, entries := entries m @ [None],
                 entryIds := entryIds m @ [ident]\<rparr>, e))"

definition removeEntry :: "string \<Rightarrow> nat \<Rightarrow> 'w manager \<Rightarrow> 'w manager" where
  "removeEntry ident expected m =
     (if lookup m ident = Some expected then m\<lparr>sessions := AList.delete ident (sessions m)\<rparr> else m)"

text \<open>The session that \<^verbatim>\<open>NewSession\<close> has built for a reservation.\<close>

definition addSession :: "string \<Rightarrow> nat \<Rightarrow> 'w session \<Rightarrow> 'w manager \<Rightarrow> 'w manager \<times> nat" where
  "addSession ident e s m =
     (m\<lparr>heap := heap m @ [s], owners := owners m @ [(ident, e)]\<rparr>, length (heap m))"

text \<open>The second critical section of \<^verbatim>\<open>Create\<close>: the session is published unless the reservation is
  gone or has been replaced.\<close>

definition publish :: "string \<Rightarrow> nat \<Rightarrow> nat \<Rightarrow> 'w manager \<Rightarrow> 'w manager \<times> bool" where
  "publish ident e k m =
     (if lookup m ident \<noteq> Some e then (m, False) else (m\<lparr>entries := (entries m)[e := Some k]\<rparr>, True))"

definition onSession :: "nat \<Rightarrow> ('w session \<Rightarrow> 'w session) \<Rightarrow> 'w manager \<Rightarrow> 'w manager" where
  "onSession k f m = m\<lparr>heap := (heap m)[k := f (heap m ! k)]\<rparr>"

text \<open>The lookup of a published session, under the read lock.\<close>

definition published :: "'w manager \<Rightarrow> string \<Rightarrow> nat option" where
  "published m ident = (case lookup m ident of None \<Rightarrow> None | Some e \<Rightarrow> entries m ! e)"

definition expireLocked :: "string \<Rightarrow> nat \<Rightarrow> 'w manager \<Rightarrow> 'w manager \<times> bool" where
  "expireLocked ident expected m =
     (if published m ident = Some expected
      then (m\<lparr>sessions := AList.delete ident (sessions m)\<rparr>, True) else (m, False))"

definition closeLocked :: "string \<Rightarrow> 'w manager \<Rightarrow> 'w manager \<times> nat option" where
  "closeLocked ident m =
     (case lookup m ident of
        None \<Rightarrow> (m, None)
      | Some e \<Rightarrow> (m\<lparr>sessions := AList.delete ident (sessions m)\<rparr>, entries m ! e))"

definition closeAllLocked :: "'w manager \<Rightarrow> 'w manager \<times> nat list" where
  "closeAllLocked m =
     (m\<lparr>sessions := []\<rparr>, List.map_filter (\<lambda>(ident, e). entries m ! e) (sessions m))"

section \<open>Operations\<close>

text \<open>The manager passes a callback \<open>onTerminal\<close> to every session it creates.\<close>

definition managed :: "sessionConfig \<Rightarrow> sessionConfig" where
  "managed cfg = cfg\<lparr>hasOnTerminal := True\<rparr>"

text \<open>\<^verbatim>\<open>session.Close()\<close> with the callback \<open>onTerminal\<close>, which removes the session's own entry.\<close>

definition closeSession ::
  "sessionConfig \<Rightarrow> ('w \<Rightarrow> 'w \<times> string option) \<Rightarrow> (nat \<Rightarrow> string option) \<Rightarrow> nat \<Rightarrow> 'w manager \<Rightarrow>
   'w manager \<times> string option" where
  "closeSession cfg writerClose peerErr k m =
     (let (s', err) = Close (managed cfg) writerClose (peerErr k) (heap m ! k);
          m' = m\<lparr>heap := (heap m)[k := s']\<rparr>;
          (ident, e) = owners m ! k in
      (if terminalCalls s' \<noteq> terminalCalls (heap m ! k) then removeEntry ident e m' else m', err))"

text \<open>The callback that \<^verbatim>\<open>Create\<close> passes to \<^verbatim>\<open>NewSession\<close> has run before \<^verbatim>\<open>NewSession\<close> returns if the session it
  returns was closed meanwhile by its own goroutines.\<close>

definition calledBack :: "string \<Rightarrow> nat \<Rightarrow> 'w session \<Rightarrow> 'w manager \<Rightarrow> 'w manager" where
  "calledBack ident e s m = (if terminalCalls s \<noteq> 0 then removeEntry ident e m else m)"

text \<open>\<^verbatim>\<open>Create\<close> with the session and the answer, or the error, that \<^verbatim>\<open>NewSession\<close> returns.  \<open>during\<close> is what
  other calls do to the manager while \<^verbatim>\<open>NewSession\<close> runs without the lock; what the new session's
  own goroutines do to it, the callback, follows from the session.\<close>

definition Create ::
  "sessionConfig \<Rightarrow> ('w \<Rightarrow> 'w \<times> string option) \<Rightarrow> (nat \<Rightarrow> string option) \<Rightarrow> duration \<Rightarrow>
   (rtcError, 'w session \<times> string) result \<Rightarrow> ('w manager \<Rightarrow> 'w manager) \<Rightarrow> string \<Rightarrow> 'w manager \<Rightarrow>
   'w manager \<times> (rtcError, string) result" where
  "Create cfg writerClose peerErr ttl factory during ident m =
     (case reserve ident m of
        Inl err \<Rightarrow> (m, Inl err)
      | Inr (m1, e) \<Rightarrow> (case factory of
          Inl err \<Rightarrow> (removeEntry ident e (during m1), Inl err)
        | Inr (s, answer) \<Rightarrow>
            let (m2, k) = addSession ident e s m1;
                (m3, ok) = publish ident e k (during (calledBack ident e s m2)) in
            if \<not> ok then (fst (closeSession cfg writerClose peerErr k m3), Inl ErrSessionNotFound)
            else if 0 < ttl then
              (onSession k (\<lambda>s. setExpiryTimer (length (timers s))
                 (s\<lparr>expiryCreated := True,
                    timers := timers s @ [\<lparr>callback = CallExpire, delay = ttl, status = Armed\<rparr>]\<rparr>)) m3, Inr answer)
            else (m3, Inr answer)))"

definition expire ::
  "sessionConfig \<Rightarrow> ('w \<Rightarrow> 'w \<times> string option) \<Rightarrow> (nat \<Rightarrow> string option) \<Rightarrow> string \<Rightarrow> nat \<Rightarrow>
   'w manager \<Rightarrow> 'w manager" where
  "expire cfg writerClose peerErr ident expected m =
     (let (m1, matches) = expireLocked ident expected m in
      if matches then fst (closeSession cfg writerClose peerErr expected m1) else m1)"

definition MarkConnectedId :: "string \<Rightarrow> 'w manager \<Rightarrow> 'w manager \<times> rtcError option" where
  "MarkConnectedId ident m =
     (case published m ident of
        None \<Rightarrow> (m, Some ErrSessionNotFound)
      | Some k \<Rightarrow> (onSession k MarkConnected m, None))"

definition CloseId ::
  "sessionConfig \<Rightarrow> ('w \<Rightarrow> 'w \<times> string option) \<Rightarrow> (nat \<Rightarrow> string option) \<Rightarrow> string \<Rightarrow>
   'w manager \<Rightarrow> 'w manager \<times> rtcError option" where
  "CloseId cfg writerClose peerErr ident m =
     (case closeLocked ident m of
        (m1, None) \<Rightarrow> (m1, Some ErrSessionNotFound)
      | (m1, Some k) \<Rightarrow> let (m2, err) = closeSession cfg writerClose peerErr k m1 in
          (m2, map_option OtherError err))"

text \<open>\<^verbatim>\<open>CloseAll\<close>; \<open>errors.Join\<close> collects the errors that are not nil.  Go visits a map in no fixed
  order; the order of the list stands for the one it happens to take.\<close>

fun closeEach ::
  "sessionConfig \<Rightarrow> ('w \<Rightarrow> 'w \<times> string option) \<Rightarrow> (nat \<Rightarrow> string option) \<Rightarrow> nat list \<Rightarrow>
   'w manager \<Rightarrow> 'w manager \<times> string list" where
  "closeEach cfg writerClose peerErr [] m = (m, [])"
| "closeEach cfg writerClose peerErr (k # ks) m =
     (let (m1, err) = closeSession cfg writerClose peerErr k m;
          (m2, errs) = closeEach cfg writerClose peerErr ks m1 in
      (m2, (case err of None \<Rightarrow> errs | Some e \<Rightarrow> e # errs)))"

definition CloseAll ::
  "sessionConfig \<Rightarrow> ('w \<Rightarrow> 'w \<times> string option) \<Rightarrow> (nat \<Rightarrow> string option) \<Rightarrow> 'w manager \<Rightarrow>
   'w manager \<times> string list" where
  "CloseAll cfg writerClose peerErr m =
     (let (m1, ks) = closeAllLocked m in closeEach cfg writerClose peerErr ks m1)"

definition Len :: "'w manager \<Rightarrow> nat" where
  "Len m = length (sessions m)"

section \<open>The manager under concurrency\<close>

text \<open>An event is one critical section of the manager or one step of one of its sessions.  A
  goroutine that closes a session enters the session's machine as a caller of \<open>Close\<close>; the
  step of that machine that calls \<open>onTerminal\<close> removes the entry.  \<^verbatim>\<open>NewSession\<close> may fail before it has
  a session (\<open>MBuildFails\<close>), or make one (\<open>MBuilt\<close>), whose goroutines run from then on, and
  still fail: it closes the session (\<open>MAbandon\<close>) and returns its error to \<^verbatim>\<open>Create\<close>, which
  removes the entry, once that call of \<^verbatim>\<open>Close\<close> has returned (\<open>MAbandoned\<close>).\<close>

datatype ('w, 'p) managerEvent =
    MReserve string
  | MBuildFails string nat
  | MBuilt string nat
  | MAbandon string nat nat
  | MAbandoned string nat nat
  | MPublish string nat nat
  | MReject nat
  | MArmExpiry nat
  | MExpire nat
  | MMarkConnected string
  | MClose string
  | MCloseAll
  | MSession nat "('w, 'p) sessionEvent"

definition leaves :: "createPhase \<Rightarrow> 'w manager \<Rightarrow> 'w manager" where
  "leaves p m = m\<lparr>creating := remove1 p (creating m)\<rparr>"

definition enters :: "createPhase \<Rightarrow> 'w manager \<Rightarrow> 'w manager" where
  "enters p m = m\<lparr>creating := p # creating m\<rparr>"

text \<open>The events of a session that come from its own goroutines; the others belong to the manager.\<close>

fun ownEvent :: "('w, 'p) sessionEvent \<Rightarrow> bool" where
  "ownEvent (EvNewExpiry d) = False"
| "ownEvent EvMarkConnected = False"
| "ownEvent EvCallClose = False"
| "ownEvent (EvExpire b) = False"
| "ownEvent e = True"

definition sessionStep ::
  "sessionConfig \<Rightarrow> ('w \<Rightarrow> 'p \<Rightarrow> 'w \<times> string option) \<Rightarrow> ('w \<Rightarrow> 'w \<times> string option) \<Rightarrow> nat \<Rightarrow>
   ('w, 'p) sessionEvent \<Rightarrow> 'w manager \<Rightarrow> 'w manager option" where
  "sessionStep cfg W C k e m =
     (case exec (managed cfg) W C e (heap m ! k) of
        None \<Rightarrow> None
      | Some s' \<Rightarrow>
          let m' = m\<lparr>heap := (heap m)[k := s']\<rparr>; (ident, en) = owners m ! k in
          Some (if terminalCalls s' \<noteq> terminalCalls (heap m ! k) then removeEntry ident en m' else m'))"

fun mexec ::
  "sessionConfig \<Rightarrow> duration \<Rightarrow> ('w \<Rightarrow> 'p \<Rightarrow> 'w \<times> string option) \<Rightarrow> ('w \<Rightarrow> 'w \<times> string option) \<Rightarrow>
   ('w, 'p) managerEvent \<Rightarrow> 'w manager \<Rightarrow> 'w manager option" where
  "mexec cfg ttl W C (MReserve ident) m =
     (case reserve ident m of Inl _ \<Rightarrow> Some m | Inr (m1, e) \<Rightarrow> Some (enters (Building ident e) m1))"
| "mexec cfg ttl W C (MBuildFails ident e) m =
     guard (Building ident e \<in> set (creating m)) (removeEntry ident e (leaves (Building ident e) m))"
| "mexec cfg ttl W C (MBuilt ident e) m =
     guard (Building ident e \<in> set (creating m))
       (case addSession ident e (newSession ident) (leaves (Building ident e) m) of (m1, k) \<Rightarrow> enters (Built ident e k) m1)"
| "mexec cfg ttl W C (MAbandon ident e k) m =
     guard (Built ident e k \<in> set (creating m))
       (enters (Abandoning ident e k) (onSession k (go ThClose) (leaves (Built ident e k) m)))"
| "mexec cfg ttl W C (MAbandoned ident e k) m =
     guard (Abandoning ident e k \<in> set (creating m) \<and> closeOnce (heap m ! k) = CloseDone)
       (removeEntry ident e (leaves (Abandoning ident e k) m))"
| "mexec cfg ttl W C (MPublish ident e k) m =
     guard (Built ident e k \<in> set (creating m))
       (case publish ident e k (leaves (Built ident e k) m) of
          (m1, ok) \<Rightarrow> if ok then enters (Published k) m1 else enters (Rejected k) m1)"
| "mexec cfg ttl W C (MReject k) m =
     guard (Rejected k \<in> set (creating m)) (onSession k (go ThClose) (leaves (Rejected k) m))"
| "mexec cfg ttl W C (MArmExpiry k) m =
     (if Published k \<notin> set (creating m) then None
      else if 0 < ttl then sessionStep cfg W C k (EvNewExpiry ttl) (leaves (Published k) m)
      else Some (leaves (Published k) m))"
| "mexec cfg ttl W C (MExpire k) m =
     guard (k < length (heap m) \<and> has ThExpire (heap m ! k))
       (case expireLocked (fst (owners m ! k)) k m of
          (m1, matches) \<Rightarrow> onSession k (\<lambda>s. if matches then go ThClose (ends ThExpire s) else ends ThExpire s) m1)"
| "mexec cfg ttl W C (MMarkConnected ident) m = Some (fst (MarkConnectedId ident m))"
| "mexec cfg ttl W C (MClose ident) m =
     (case closeLocked ident m of
        (m1, None) \<Rightarrow> Some m1 | (m1, Some k) \<Rightarrow> Some (onSession k (go ThClose) m1))"
| "mexec cfg ttl W C MCloseAll m =
     (case closeAllLocked m of (m1, ks) \<Rightarrow> Some (fold (\<lambda>k. onSession k (go ThClose)) ks m1))"
| "mexec cfg ttl W C (MSession k e) m =
     (if k < length (heap m) \<and> ownEvent e then sessionStep cfg W C k e m else None)"

interpretation mgr: machine "\<lambda>m. m = NewManager" "mexec cfg ttl W C"
  for cfg ttl W C .

abbreviation managerReachable where
  "managerReachable cfg ttl W C \<equiv> machine.reachable (\<lambda>m. m = NewManager) (mexec cfg ttl W C)"

end
