(* ===== verification/ManagerSafety.thy ===== *)
theory ManagerSafety
  imports Manager
begin

text \<open>
  Invariants of the session manager under concurrency: every session the manager has ever
  created is published, still owned by the call of \<open>Create\<close> that made it, or being closed;
  and the map never holds a session that is completely closed.
\<close>

section \<open>Closing is never forgotten\<close>

definition closeRequested :: "'w session \<Rightarrow> bool" where
  "closeRequested s = (has ThClose s \<or> closeOnce s \<noteq> CloseIdle)"

lemma has_ends: "th \<noteq> th' \<Longrightarrow> has th (ends th' s) = has th s"
  by (simp add: sess_simps)

lemma threads_close:
  "threads (closeNext cfg C pe s) = threads s"
  by (cases "closeOnce s") (simp_all add: closeNext_def sess_simps)

lemma closeRequested_onTrack: "closeRequested s \<Longrightarrow> closeRequested (onTrack isAudio mime res s)"
  by (auto simp: closeRequested_def onTrack_def startRecorder_def go_def logEvent_def Let_def split: sum.splits)

lemma closeRequested_recordStep: "closeRequested s \<Longrightarrow> closeRequested (fst (recordStep W i rd s))"
  by (auto simp: closeRequested_def recordStep_def go_def logEvent_def Let_def case_prod_unfold
      split: sum.splits option.splits rtpError.splits)

lemma closeRequested_step:
  assumes "exec cfg W C e s = Some s'" "closeRequested s"
  shows "closeRequested s'"
proof (cases "closing e")
  case True
  with assms(1) show ?thesis
  proof (rule exec_closing)
    fix pe assume "closeOnce s \<noteq> CloseIdle \<and> closeOnce s \<noteq> CloseDone" "s' = closeNext cfg C pe s"
    then show ?thesis using closeNext_progress_phase [of s cfg C pe] by (simp add: closeRequested_def)
  qed (simp add: closeRequested_def sess_simps)
next
  case False
  show ?thesis
  proof (cases e)
    case (EvTrack a b c)
    then show ?thesis using assms closeRequested_onTrack by auto
  next
    case (EvRecord a b)
    then show ?thesis using assms closeRequested_recordStep [OF assms(2), of W a b]
      by (auto simp: closeRequested_def case_prod_unfold sess_simps split: if_splits)
  qed (use assms False in \<open>auto simp: closeRequested_def sess_simps case_prod_unfold threads_fire
      split: option.splits if_splits\<close>)
qed

section \<open>The invariant\<close>

text \<open>The map points to the session's entry, and the entry to the session.\<close>

definition inMap :: "'w manager \<Rightarrow> nat \<Rightarrow> bool" where
  "inMap m k = (lookup m (fst (owners m ! k)) = Some (snd (owners m ! k)))"

definition holds :: "'w manager \<Rightarrow> nat \<Rightarrow> bool" where
  "holds m k = (inMap m k \<and> entries m ! snd (owners m ! k) = Some k)"

definition inCreate :: "'w manager \<Rightarrow> nat \<Rightarrow> bool" where
  "inCreate m k = (Built (fst (owners m ! k)) (snd (owners m ! k)) k \<in> set (creating m) \<or> Rejected k \<in> set (creating m))"

definition tracked :: "'w manager \<Rightarrow> nat \<Rightarrow> bool" where
  "tracked m k = (holds m k \<or> inCreate m k \<or> closeRequested (heap m ! k))"

fun phaseEntry :: "createPhase \<Rightarrow> nat option" where
  "phaseEntry (Building i e) = Some e"
| "phaseEntry (Built i e k) = Some e"
| "phaseEntry (Abandoning i e k) = Some e"
| "phaseEntry p = None"

fun phaseOk :: "'w manager \<Rightarrow> createPhase \<Rightarrow> bool" where
  "phaseOk m (Building i e) =
     (e < length (entries m) \<and> entryIds m ! e = i \<and> entries m ! e = None \<and> e \<notin> snd ` set (owners m))"
| "phaseOk m (Built i e k) = (k < length (heap m) \<and> owners m ! k = (i, e) \<and> entries m ! e = None)"
| "phaseOk m (Abandoning i e k) = (k < length (heap m) \<and> owners m ! k = (i, e) \<and> entries m ! e = None)"
| "phaseOk m (Published k) = (k < length (heap m))"
| "phaseOk m (Rejected k) = (k < length (heap m))"

definition pendingEntries :: "createPhase list \<Rightarrow> nat list" where
  "pendingEntries ps = List.map_filter phaseEntry ps"

definition shape :: "'w manager \<Rightarrow> bool" where
  "shape m =
     (length (owners m) = length (heap m) \<and> length (entryIds m) = length (entries m) \<and>
      distinct (map snd (owners m)) \<and>
      (\<forall>k < length (heap m). snd (owners m ! k) < length (entries m) \<and>
         entryIds m ! snd (owners m ! k) = fst (owners m ! k)) \<and>
      (\<forall>i e. lookup m i = Some e \<longrightarrow> e < length (entries m) \<and> entryIds m ! e = i) \<and>
      (\<forall>e < length (entries m). \<forall>k. entries m ! e = Some k \<longrightarrow> k < length (heap m) \<and> snd (owners m ! k) = e))"

definition phases :: "'w manager \<Rightarrow> bool" where
  "phases m = ((\<forall>p \<in> set (creating m). phaseOk m p) \<and> distinct (pendingEntries (creating m)))"

definition noLeak :: "'w manager \<Rightarrow> bool" where
  "noLeak m = (\<forall>k < length (heap m). tracked m k)"

definition noZombie :: "'w manager \<Rightarrow> bool" where
  "noZombie m = (\<forall>k < length (heap m). inMap m k \<longrightarrow> closeOnce (heap m ! k) \<noteq> CloseDone)"

definition managerInv :: "sessionConfig \<Rightarrow> 'w manager \<Rightarrow> bool" where
  "managerInv cfg m =
     (shape m \<and> phases m \<and> noLeak m \<and> noZombie m \<and> (\<forall>k < length (heap m). sessionInv cfg (heap m ! k)))"

lemmas manager_defs = managerInv_def noLeak_def noZombie_def tracked_def inCreate_def holds_def inMap_def

lemma pendingEntries_simps [simp]:
  "pendingEntries [] = []"
  "pendingEntries (p # ps) = (case phaseEntry p of None \<Rightarrow> [] | Some e \<Rightarrow> [e]) @ pendingEntries ps"
  by (simp_all add: pendingEntries_def List.map_filter_simps split: option.splits)

lemma set_pendingEntries: "set (pendingEntries ps) = {e. \<exists>p \<in> set ps. phaseEntry p = Some e}"
  by (induction ps) (auto split: option.splits)

lemma pendingEntries_remove1:
  "distinct (pendingEntries ps) \<Longrightarrow> distinct (pendingEntries (remove1 p ps)) \<and>
   (\<forall>e. phaseEntry p = Some e \<longrightarrow> p \<in> set ps \<longrightarrow> e \<notin> set (pendingEntries (remove1 p ps)))"
  by (induction ps) (auto simp: set_pendingEntries split: option.splits dest: notin_set_remove1 set_remove1_subset [THEN subsetD])

lemma map_of_delete: "map_of (AList.delete i al) j = (if j = i then None else map_of al j)"
  by (simp add: AList.delete_conv')

text \<open>Two sessions never share an entry.\<close>

lemma owner_unique:
  "shape m \<Longrightarrow> k < length (heap m) \<Longrightarrow> k' < length (heap m) \<Longrightarrow> snd (owners m ! k) = snd (owners m ! k') \<Longrightarrow> k = k'"
  using nth_eq_iff_index_eq [of "map snd (owners m)" k k'] by (simp add: shape_def)

section \<open>Changes of the heap\<close>

lemma managerInv_heap:
  assumes inv: "managerInv cfg m" and k: "k < length (heap m)"
    and s': "sessionInv cfg s'" "closeRequested (heap m ! k) \<Longrightarrow> closeRequested s'"
    and fin: "closeOnce s' = CloseDone \<Longrightarrow> inMap m k \<Longrightarrow> closeOnce (heap m ! k) = CloseDone"
  shows "managerInv cfg (m\<lparr>heap := (heap m)[k := s']\<rparr>)"
proof -
  let ?m = "m\<lparr>heap := (heap m)[k := s']\<rparr>"
  have "phaseOk ?m p = phaseOk m p" for p by (cases p) simp_all
  then have "phases ?m" using inv by (simp add: managerInv_def phases_def)
  moreover have "shape ?m" using inv by (simp add: managerInv_def shape_def)
  moreover have "tracked ?m j" if "j < length (heap m)" for j
  proof -
    have "tracked m j" using inv that by (simp add: managerInv_def noLeak_def)
    then show ?thesis using that s'(2)
      by (cases "j = k") (auto simp: tracked_def holds_def inMap_def inCreate_def)
  qed
  moreover have "noZombie ?m"
    using inv fin k by (auto simp: managerInv_def noZombie_def inMap_def nth_list_update)
  ultimately show ?thesis using inv s'(1) k
    by (auto simp: managerInv_def noLeak_def nth_list_update)
qed

section \<open>Changes of the map\<close>

text \<open>Entries may be taken out of the map if the sessions they hold are being closed.\<close>

lemma managerInv_fewer:
  assumes inv: "managerInv cfg m"
    and sub: "\<And>i e. map_of al i = Some e \<Longrightarrow> lookup m i = Some e"
    and lost: "\<And>k. k < length (heap m) \<Longrightarrow> holds m k \<Longrightarrow>
      map_of al (fst (owners m ! k)) \<noteq> lookup m (fst (owners m ! k)) \<Longrightarrow> closeRequested (heap m ! k)"
  shows "managerInv cfg (m\<lparr>sessions := al\<rparr>)"
proof -
  let ?m = "m\<lparr>sessions := al\<rparr>"
  have "phaseOk ?m p = phaseOk m p" for p by (cases p) simp_all
  then have "phases ?m" using inv by (simp add: managerInv_def phases_def)
  moreover have "shape ?m" using inv unfolding managerInv_def shape_def by (auto dest!: sub)
  moreover have "tracked ?m k" if "k < length (heap m)" for k
  proof (cases "holds m k \<and> \<not> closeRequested (heap m ! k)")
    case True
    then have "map_of al (fst (owners m ! k)) = lookup m (fst (owners m ! k))" using lost that by blast
    then show ?thesis using True by (simp add: tracked_def holds_def inMap_def)
  next
    case False
    have "tracked m k" using inv that by (simp add: managerInv_def noLeak_def)
    with False show ?thesis by (auto simp: tracked_def inCreate_def)
  qed
  moreover have "noZombie ?m" using inv sub by (auto simp: managerInv_def noZombie_def inMap_def)
  ultimately show ?thesis using inv by (simp add: managerInv_def noLeak_def)
qed

lemma managerInv_delete:
  assumes "managerInv cfg m" "\<And>k. k < length (heap m) \<Longrightarrow> holds m k \<Longrightarrow> fst (owners m ! k) = ident \<Longrightarrow>
      closeRequested (heap m ! k)"
  shows "managerInv cfg (m\<lparr>sessions := AList.delete ident (sessions m)\<rparr>)"
  using assms by (intro managerInv_fewer) (auto simp: map_of_delete split: if_splits)

text \<open>The session that an entry of the map holds is unique.\<close>

lemma holds_entry:
  assumes "shape m" "lookup m ident = Some e" "entries m ! e = Some k"
  shows "k < length (heap m) \<and> owners m ! k = (ident, e) \<and> holds m k"
proof -
  have e: "e < length (entries m)" "entryIds m ! e = ident" using assms(1,2) by (auto simp: shape_def)
  then have k: "k < length (heap m)" "snd (owners m ! k) = e" using assms(1,3) by (auto simp: shape_def)
  then have "fst (owners m ! k) = ident" using assms(1) e(2) by (auto simp: shape_def)
  then have "owners m ! k = (ident, e)" using k(2) by (simp add: prod_eq_iff)
  then show ?thesis using k(1) assms(2,3) by (simp add: holds_def inMap_def)
qed

lemma holds_only:
  assumes "shape m" "lookup m ident = Some e" "k < length (heap m)" "holds m k" "fst (owners m ! k) = ident"
  shows "entries m ! e = Some k"
  using assms by (auto simp: holds_def inMap_def)

section \<open>Calls of \<open>Create\<close>\<close>

lemma managerInv_creating:
  assumes inv: "managerInv cfg m" and ph: "phases (m\<lparr>creating := cs\<rparr>)"
    and kept: "\<And>k. k < length (heap m) \<Longrightarrow> inCreate m k \<Longrightarrow>
      inCreate (m\<lparr>creating := cs\<rparr>) k \<or> holds m k \<or> closeRequested (heap m ! k)"
  shows "managerInv cfg (m\<lparr>creating := cs\<rparr>)"
proof -
  have same: "holds (m\<lparr>creating := cs\<rparr>) k = holds m k" "inMap (m\<lparr>creating := cs\<rparr>) k = inMap m k" for k
    by (simp_all add: holds_def inMap_def)
  have "shape (m\<lparr>creating := cs\<rparr>)" using inv by (simp add: managerInv_def shape_def)
  moreover have "noLeak (m\<lparr>creating := cs\<rparr>)"
    using inv kept by (auto simp: managerInv_def noLeak_def tracked_def same)
  moreover have "noZombie (m\<lparr>creating := cs\<rparr>)" using inv by (simp add: managerInv_def noZombie_def same)
  ultimately show ?thesis using inv ph by (simp add: managerInv_def)
qed

lemma phaseOk_creating [simp]: "phaseOk (m\<lparr>creating := cs\<rparr>) p = phaseOk m p"
  by (cases p) simp_all

lemma phases_remove: "phases m \<Longrightarrow> phases (m\<lparr>creating := remove1 p (creating m)\<rparr>)"
  using pendingEntries_remove1 [of "creating m" p] set_remove1_subset [of p "creating m"]
  by (auto simp: phases_def)

lemma managerInv_leaves:
  assumes "managerInv cfg m" "\<And>i e k. p \<noteq> Built i e k" "\<And>k. p \<noteq> Rejected k"
  shows "managerInv cfg (leaves p m)"
  unfolding leaves_def
proof (rule managerInv_creating [OF assms(1) phases_remove])
  show "phases m" using assms(1) by (simp add: managerInv_def)
  fix k
  assume "inCreate m k"
  then have "inCreate (m\<lparr>creating := remove1 p (creating m)\<rparr>) k"
    using assms(2) [THEN not_sym] assms(3) [THEN not_sym] by (auto simp: inCreate_def in_set_remove1)
  then show "inCreate (m\<lparr>creating := remove1 p (creating m)\<rparr>) k \<or> holds m k \<or> closeRequested (heap m ! k)" ..
qed

lemma managerInv_enters:
  assumes "managerInv cfg m" "phaseOk m p"
    "\<And>e. phaseEntry p = Some e \<Longrightarrow> e \<notin> set (pendingEntries (creating m))"
  shows "managerInv cfg (enters p m)"
  unfolding enters_def
proof (rule managerInv_creating [OF assms(1)])
  show "phases (m\<lparr>creating := p # creating m\<rparr>)"
    using assms by (auto simp: managerInv_def phases_def split: option.splits)
qed (auto simp: inCreate_def)

lemma phaseOk_new_entry:
  assumes "shape m" "phaseOk m p"
  shows "phaseOk (m\<lparr>sessions := al, entries := entries m @ [None], entryIds := entryIds m @ [ident]\<rparr>) p"
proof (cases p)
  case (Built i e k)
  then have "e < length (entries m)" using assms by (auto simp: shape_def)
  then show ?thesis using assms Built by (simp add: nth_append)
next
  case (Abandoning i e k)
  then have "e < length (entries m)" using assms by (auto simp: shape_def)
  then show ?thesis using assms Abandoning by (simp add: nth_append)
qed (use assms in \<open>auto simp: nth_append shape_def\<close>)

lemma managerInv_reserve:
  assumes inv: "managerInv cfg m" and r: "reserve ident m = Inr (m1, e)"
  shows "managerInv cfg (enters (Building ident e) m1)"
proof (rule managerInv_enters)
  have none: "lookup m ident = None" and e: "e = length (entries m)" and
    m1: "m1 = m\<lparr>sessions := (ident, e) # sessions m, entries := entries m @ [None],
      entryIds := entryIds m @ [ident]\<rparr>"
    using r by (auto simp: reserve_def Let_def split: option.splits)
  have sh: "shape m" and ph: "phases m" using inv by (simp_all add: managerInv_def)
  have lt: "snd (owners m ! k) < length (entries m)" if "k < length (heap m)" for k
    using sh that by (simp add: shape_def)
  have map: "inMap m1 k = inMap m k" "holds m1 k = holds m k" if "k < length (heap m)" for k
    using lt [OF that] none by (auto simp: m1 e inMap_def holds_def nth_append)
  have "shape m1" using sh by (auto simp: shape_def m1 e nth_append less_Suc_eq)
  moreover have "phases m1" using ph phaseOk_new_entry [OF sh] by (simp add: phases_def m1)
  moreover have "noLeak m1"
    using inv map(2) by (simp add: managerInv_def noLeak_def tracked_def) (simp add: m1 inCreate_def)
  moreover have "noZombie m1" using inv map(1) by (simp add: managerInv_def noZombie_def) (simp add: m1)
  ultimately show "managerInv cfg m1" using inv by (simp add: managerInv_def) (simp add: m1)
  have "length (entries m) \<notin> snd ` set (owners m)"
  proof
    assume "length (entries m) \<in> snd ` set (owners m)"
    then obtain k where "k < length (owners m)" "snd (owners m ! k) = length (entries m)"
      by (auto simp: in_set_conv_nth)
    then show False using lt [of k] sh by (simp add: shape_def)
  qed
  then show "phaseOk m1 (Building ident e)"
    using sh by (simp add: m1 e nth_append shape_def)
  show "x \<notin> set (pendingEntries (creating m1))" if "phaseEntry (Building ident e) = Some x" for x
  proof
    assume "x \<in> set (pendingEntries (creating m1))"
    moreover from that have "x = e" by simp
    ultimately obtain p where "p \<in> set (creating m)" "phaseEntry p = Some e"
      by (auto simp: set_pendingEntries m1)
    moreover from this have "phaseOk m p" using ph by (simp add: phases_def)
    ultimately show False using sh e by - (cases p, auto simp: shape_def)
  qed
qed

lemma managerInv_built:
  assumes inv: "managerInv cfg m" and b: "Building ident e \<in> set (creating m)"
  shows "managerInv cfg (m\<lparr>heap := heap m @ [newSession ident], owners := owners m @ [(ident, e)],
    creating := Built ident e (length (heap m)) # remove1 (Building ident e) (creating m)\<rparr>)"
    (is "managerInv cfg ?m")
proof -
  let ?c = "remove1 (Building ident e) (creating m)" and ?k = "length (heap m)"
  have sh: "shape m" and ph: "phases m" and lk: "noLeak m" and zo: "noZombie m"
    using inv by (simp_all add: managerInv_def)
  have be: "e < length (entries m)" "entryIds m ! e = ident" "entries m ! e = None" "e \<notin> snd ` set (owners m)"
  proof -
    have "phaseOk m (Building ident e)" using ph b unfolding phases_def by blast
    then show "e < length (entries m)" "entryIds m ! e = ident" "entries m ! e = None"
      "e \<notin> snd ` set (owners m)" by simp_all
  qed
  have free: "e \<notin> set (pendingEntries ?c)" "distinct (pendingEntries ?c)"
    using ph b pendingEntries_remove1 [of "creating m" "Building ident e"] by (simp_all add: phases_def)
  have len: "length (owners m) = ?k" using sh by (simp add: shape_def)
  have "shape ?m" using sh be len unfolding shape_def by (auto simp: nth_append less_Suc_eq)
  moreover have "phaseOk ?m p" if "p \<in> set ?c" for p
  proof -
    have "phaseOk m p" using ph that set_remove1_subset [of "Building ident e" "creating m"]
      by (auto simp: phases_def)
    moreover have "phaseEntry p \<noteq> Some e" using that free(1) by (auto simp: set_pendingEntries)
    ultimately show ?thesis using len by (cases p rule: phaseEntry.cases) (auto simp: nth_append)
  qed
  then have "phases ?m" using free be len by (simp add: phases_def nth_append)
  moreover have "tracked ?m k" if "k < Suc ?k" for k
  proof (cases "k = ?k")
    case True
    then show ?thesis using len by (simp add: tracked_def inCreate_def nth_append)
  next
    case False
    then have "k < ?k" using that by simp
    moreover from this have "tracked m k" using lk by (simp add: noLeak_def)
    ultimately show ?thesis using len
      by (auto simp: tracked_def holds_def inMap_def inCreate_def nth_append in_set_remove1)
  qed
  moreover have "noZombie ?m" using zo len
    by (auto simp: noZombie_def inMap_def nth_append less_Suc_eq newSession_def)
  ultimately show ?thesis using inv sessionInv_new by (auto simp: managerInv_def noLeak_def nth_append less_Suc_eq)
qed

lemma builtD:
  assumes "managerInv cfg m" "Built ident e k \<in> set (creating m)"
  shows "k < length (heap m) \<and> owners m ! k = (ident, e) \<and> entries m ! e = None \<and> e < length (entries m)"
proof -
  have "phaseOk m (Built ident e k)" using assms unfolding managerInv_def phases_def by blast
  then show ?thesis using assms(1) by (auto simp: managerInv_def shape_def)
qed

lemma managerInv_publish_fails:
  assumes inv: "managerInv cfg m" and b: "Built ident e k \<in> set (creating m)"
  shows "managerInv cfg (m\<lparr>creating := Rejected k # remove1 (Built ident e k) (creating m)\<rparr>)"
proof (rule managerInv_creating [OF inv])
  have ph: "phases m" using inv by (simp add: managerInv_def)
  note d = builtD [OF inv b]
  show "phases (m\<lparr>creating := Rejected k # remove1 (Built ident e k) (creating m)\<rparr>)"
    using phases_remove [OF ph, of "Built ident e k"] d by (simp add: phases_def)
  fix j assume "j < length (heap m)" "inCreate m j"
  then show "inCreate (m\<lparr>creating := Rejected k # remove1 (Built ident e k) (creating m)\<rparr>) j \<or> holds m j \<or>
      closeRequested (heap m ! j)"
    by (auto simp: inCreate_def in_set_remove1)
qed

lemma managerInv_publish_ok:
  assumes inv: "managerInv cfg m" and b: "Built ident e k \<in> set (creating m)" and l: "lookup m ident = Some e"
  shows "managerInv cfg (m\<lparr>entries := (entries m)[e := Some k],
    creating := Published k # remove1 (Built ident e k) (creating m)\<rparr>)" (is "managerInv cfg ?m")
proof -
  let ?c = "remove1 (Built ident e k) (creating m)"
  have sh: "shape m" and ph: "phases m" and lk: "noLeak m" and zo: "noZombie m"
    using inv by (simp_all add: managerInv_def)
  note d = builtD [OF inv b]
  have free: "e \<notin> set (pendingEntries ?c)" "distinct (pendingEntries ?c)"
    using ph b pendingEntries_remove1 [of "creating m" "Built ident e k"] by (simp_all add: phases_def)
  have "shape ?m" using sh d unfolding shape_def by (auto simp: nth_list_update)
  moreover have "phaseOk ?m p" if "p \<in> set ?c" for p
  proof -
    have "phaseOk m p" using ph that set_remove1_subset [of "Built ident e k" "creating m"]
      by (auto simp: phases_def)
    moreover have "phaseEntry p \<noteq> Some e" using that free(1) by (auto simp: set_pendingEntries)
    ultimately show ?thesis by (cases p rule: phaseEntry.cases) auto
  qed
  then have "phases ?m" using free d by (simp add: phases_def)
  moreover have "tracked ?m j" if j: "j < length (heap m)" for j
  proof (cases "j = k")
    case True
    then show ?thesis using d l by (simp add: tracked_def holds_def inMap_def)
  next
    case False
    then have "snd (owners m ! j) \<noteq> e" using owner_unique [OF sh j, of k] d by auto
    moreover have "tracked m j" using lk j by (simp add: noLeak_def)
    ultimately show ?thesis using False
      by (auto simp: tracked_def holds_def inMap_def inCreate_def in_set_remove1)
  qed
  moreover have "noZombie ?m" using zo by (simp add: noZombie_def inMap_def)
  ultimately show ?thesis using inv by (simp add: managerInv_def noLeak_def)
qed

section \<open>Steps of one session\<close>

lemma managerInv_exec:
  assumes inv: "managerInv cfg m" and k: "k < length (heap m)" and x: "exec cfg W C e (heap m ! k) = Some s'"
    and fin: "closeOnce s' = CloseDone \<Longrightarrow> inMap m k \<Longrightarrow> closeOnce (heap m ! k) = CloseDone"
  shows "managerInv cfg (m\<lparr>heap := (heap m)[k := s']\<rparr>)"
proof (rule managerInv_heap [OF inv k _ _ fin])
  have "sessionInv cfg (heap m ! k)" using inv k by (simp add: managerInv_def)
  then show "sessionInv cfg s'" by (rule sess.inv_step [OF _ x])
qed (auto intro: closeRequested_step [OF x])

lemma managerInv_callClose:
  assumes "managerInv cfg m" "k < length (heap m)"
  shows "managerInv cfg (onSession k (go ThClose) m)"
proof -
  have "exec cfg W C EvCallClose (heap m ! k) = Some (go ThClose (heap m ! k))"
    for W :: "'a \<Rightarrow> unit \<Rightarrow> 'a \<times> string option" and C by simp
  from managerInv_exec [OF assms this] show ?thesis by (simp add: onSession_def sess_simps)
qed

lemma onSession_simps [simp]:
  "sessions (onSession k f m) = sessions m" "entries (onSession k f m) = entries m"
  "owners (onSession k f m) = owners m" "creating (onSession k f m) = creating m"
  "entryIds (onSession k f m) = entryIds m" "length (heap (onSession k f m)) = length (heap m)"
  "onSession k f (m\<lparr>sessions := al\<rparr>) = (onSession k f m)\<lparr>sessions := al\<rparr>"
  "onSession k f (m\<lparr>creating := cs\<rparr>) = (onSession k f m)\<lparr>creating := cs\<rparr>"
  by (simp_all add: onSession_def)

lemma holds_onSession [simp]: "holds (onSession k f m) j = holds m j"
  by (simp add: holds_def inMap_def)

lemma closeRequested_called:
  "k < length (heap m) \<Longrightarrow> closeRequested (heap (onSession k (go ThClose) m) ! k)"
  by (simp add: onSession_def closeRequested_def sess_simps)

lemma managerInv_reject:
  assumes inv: "managerInv cfg m" and r: "Rejected k \<in> set (creating m)"
  shows "managerInv cfg (onSession k (go ThClose) (leaves (Rejected k) m))"
proof -
  have "phaseOk m (Rejected k)" using inv r unfolding managerInv_def phases_def by blast
  then have k: "k < length (heap m)" by simp
  let ?m = "onSession k (go ThClose) m"
  have i: "managerInv cfg ?m" by (rule managerInv_callClose [OF inv k])
  have "managerInv cfg (?m\<lparr>creating := remove1 (Rejected k) (creating ?m)\<rparr>)"
  proof (rule managerInv_creating [OF i phases_remove])
    show "phases ?m" using i by (simp add: managerInv_def)
    fix j assume "inCreate ?m j"
    then show "inCreate (?m\<lparr>creating := remove1 (Rejected k) (creating ?m)\<rparr>) j \<or> holds ?m j \<or>
        closeRequested (heap ?m ! j)"
      using closeRequested_called [OF k] by (cases "j = k") (auto simp: inCreate_def in_set_remove1)
  qed
  then show ?thesis by (simp add: leaves_def)
qed

lemma managerInv_abandon:
  assumes inv: "managerInv cfg m" and b: "Built ident e k \<in> set (creating m)"
  shows "managerInv cfg (enters (Abandoning ident e k) (onSession k (go ThClose) (leaves (Built ident e k) m)))"
proof -
  note d = builtD [OF inv b]
  then have k: "k < length (heap m)" by simp
  let ?m = "onSession k (go ThClose) m" and ?c = "remove1 (Built ident e k) (creating m)"
  have i: "managerInv cfg ?m" by (rule managerInv_callClose [OF inv k])
  have free: "e \<notin> set (pendingEntries ?c)"
    using inv b pendingEntries_remove1 [of "creating m" "Built ident e k"] by (simp add: managerInv_def phases_def)
  have "managerInv cfg (?m\<lparr>creating := Abandoning ident e k # ?c\<rparr>)"
  proof (rule managerInv_creating [OF i])
    have "phases ?m" using i by (simp add: managerInv_def)
    from phases_remove [OF this, of "Built ident e k"]
    show "phases (?m\<lparr>creating := Abandoning ident e k # ?c\<rparr>)" using d free by (simp add: phases_def)
    fix j assume "inCreate ?m j"
    then show "inCreate (?m\<lparr>creating := Abandoning ident e k # ?c\<rparr>) j \<or> holds ?m j \<or> closeRequested (heap ?m ! j)"
      using closeRequested_called [OF k] by (cases "j = k") (auto simp: inCreate_def in_set_remove1)
  qed
  then show ?thesis by (simp add: leaves_def enters_def)
qed

lemma managerInv_close:
  assumes inv: "managerInv cfg m" and l: "lookup m ident = Some e" and k: "entries m ! e = Some k"
    and m': "managerInv cfg m'" "sessions m' = sessions m" "entries m' = entries m" "owners m' = owners m"
      "length (heap m') = length (heap m)" "closeRequested (heap m' ! k)"
  shows "managerInv cfg (m'\<lparr>sessions := AList.delete ident (sessions m)\<rparr>)"
proof -
  have sh: "shape m" using inv by (simp add: managerInv_def)
  have "managerInv cfg (m'\<lparr>sessions := AList.delete ident (sessions m')\<rparr>)"
  proof (rule managerInv_delete [OF m'(1)])
    fix j assume "j < length (heap m')" "holds m' j" "fst (owners m' ! j) = ident"
    then have "entries m ! e = Some j"
      using holds_only [OF sh l] m' by (simp add: holds_def inMap_def)
    then show "closeRequested (heap m' ! j)" using k m'(6) by simp
  qed
  then show ?thesis by (simp add: m'(2))
qed

lemma managerInv_closeId:
  assumes inv: "managerInv cfg m" and c: "closeLocked ident m = (m1, res)"
  shows "managerInv cfg (case res of None \<Rightarrow> m1 | Some k \<Rightarrow> onSession k (go ThClose) m1)"
proof (cases "lookup m ident")
  case None
  then show ?thesis using inv c by (auto simp: closeLocked_def)
next
  case (Some e)
  have sh: "shape m" using inv by (simp add: managerInv_def)
  have c1: "m1 = m\<lparr>sessions := AList.delete ident (sessions m)\<rparr>" "res = entries m ! e"
    using c Some by (auto simp: closeLocked_def)
  show ?thesis
  proof (cases "entries m ! e")
    case None
    have "managerInv cfg m1" unfolding c1(1)
      by (rule managerInv_delete [OF inv]) (use holds_only [OF sh Some] None in auto)
    then show ?thesis using c1(2) None by simp
  next
    case k: (Some k)
    have kl: "k < length (heap m)" using holds_entry [OF sh Some k] by simp
    from managerInv_close [OF inv Some k managerInv_callClose [OF inv kl]] closeRequested_called [OF kl]
    show ?thesis using c1 k by simp
  qed
qed

lemma managerInv_expire:
  assumes inv: "managerInv cfg m" and k: "k < length (heap m)" "has ThExpire (heap m ! k)"
    and x: "expireLocked (fst (owners m ! k)) k m = (m1, b)"
  shows "managerInv cfg (onSession k (\<lambda>s. if b then go ThClose (ends ThExpire s) else ends ThExpire s) m1)"
proof -
  let ?f = "\<lambda>s. if b then go ThClose (ends ThExpire s) else ends ThExpire s"
  have e: "exec cfg W C (EvExpire b) (heap m ! k) = Some (?f (heap m ! k))"
    for W :: "'a \<Rightarrow> unit \<Rightarrow> 'a \<times> string option" and C using k(2) by (simp add: guard_def)
  have f: "managerInv cfg (onSession k ?f m)"
    using managerInv_exec [OF inv k(1) e] by (cases b) (simp_all add: onSession_def sess_simps)
  show ?thesis
  proof (cases b)
    case False
    then have "m1 = m" using x by (simp add: expireLocked_def split: if_splits)
    with f show ?thesis by simp
  next
    case True
    let ?ident = "fst (owners m ! k)"
    obtain en where en: "lookup m ?ident = Some en" "entries m ! en = Some k"
      and m1: "m1 = m\<lparr>sessions := AList.delete ?ident (sessions m)\<rparr>"
      using x True by (auto simp: expireLocked_def published_def split: if_splits option.splits)
    have "closeRequested (heap (onSession k ?f m) ! k)"
      using True k(1) by (simp add: onSession_def closeRequested_def sess_simps)
    from managerInv_close [OF inv en f _ _ _ _ this] show ?thesis using m1 by simp
  qed
qed

lemma fold_callClose:
  "list_all (\<lambda>k. k < length (heap m)) ks \<Longrightarrow> managerInv cfg m \<Longrightarrow>
   managerInv cfg (fold (\<lambda>k. onSession k (go ThClose)) ks m)"
  by (induction ks arbitrary: m) (simp_all add: managerInv_callClose)

lemma fold_onSession_simps [simp]:
  "sessions (fold (\<lambda>k. onSession k f) ks m) = sessions m" "entries (fold (\<lambda>k. onSession k f) ks m) = entries m"
  "owners (fold (\<lambda>k. onSession k f) ks m) = owners m"
  "length (heap (fold (\<lambda>k. onSession k f) ks m)) = length (heap m)"
  "fold (\<lambda>k. onSession k f) ks (m\<lparr>sessions := al\<rparr>) = (fold (\<lambda>k. onSession k f) ks m)\<lparr>sessions := al\<rparr>"
  by (induction ks arbitrary: m) simp_all

lemma fold_callClose_keeps:
  "closeRequested (heap m ! j) \<Longrightarrow> closeRequested (heap (fold (\<lambda>k. onSession k (go ThClose)) ks m) ! j)"
proof (induction ks arbitrary: m)
  case (Cons k ks)
  have "closeRequested (heap (onSession k (go ThClose) m) ! j)"
    using Cons.prems by (cases "j = k"; cases "k < length (heap m)")
      (auto simp: onSession_def closeRequested_def sess_simps list_update_beyond not_less)
  then show ?case using Cons.IH by simp
qed simp

lemma fold_callClose_called:
  "j \<in> set ks \<Longrightarrow> j < length (heap m) \<Longrightarrow>
   closeRequested (heap (fold (\<lambda>k. onSession k (go ThClose)) ks m) ! j)"
  by (induction ks arbitrary: m) (auto intro: fold_callClose_keeps closeRequested_called)

lemma managerInv_closeAll:
  assumes inv: "managerInv cfg m" and c: "closeAllLocked m = (m1, ks)"
  shows "managerInv cfg (fold (\<lambda>k. onSession k (go ThClose)) ks m1)"
proof -
  have sh: "shape m" using inv by (simp add: managerInv_def)
  have m1: "m1 = m\<lparr>sessions := []\<rparr>" and ks: "ks = List.map_filter (\<lambda>(ident, e). entries m ! e) (sessions m)"
    using c by (simp_all add: closeAllLocked_def)
  let ?ks = "filter (\<lambda>k. k < length (heap m)) ks"
  let ?m = "fold (\<lambda>k. onSession k (go ThClose)) ks m"
  have drop: "fold (\<lambda>k. onSession k (go ThClose)) xs n =
      fold (\<lambda>k. onSession k (go ThClose)) (filter (\<lambda>k. k < length (heap n)) xs) n" for xs and n :: "'a manager"
  proof (induction xs arbitrary: n)
    case (Cons x xs)
    show ?case
    proof (cases "x < length (heap n)")
      case False
      then have "onSession x (go ThClose) n = n" by (simp add: onSession_def list_update_beyond not_less)
      then show ?thesis using False Cons.IH by simp
    qed (use Cons.IH [of "onSession x (go ThClose) n"] in simp)
  qed simp
  have i: "managerInv cfg ?m"
    unfolding drop [of ks m] by (rule fold_callClose [OF _ inv]) (simp add: list_all_iff)
  have "managerInv cfg (?m\<lparr>sessions := []\<rparr>)"
  proof (rule managerInv_fewer [OF i])
    fix k assume k: "k < length (heap ?m)" "holds ?m k"
    then have l: "lookup m (fst (owners m ! k)) = Some (snd (owners m ! k))"
      "entries m ! snd (owners m ! k) = Some k"
      by (simp_all add: holds_def inMap_def)
    then have "k \<in> set ks"
      unfolding ks List.map_filter_def by (force dest: map_of_SomeD)
    then show "closeRequested (heap ?m ! k)" using k(1) by (simp add: fold_callClose_called)
  qed simp
  then show ?thesis by (simp add: m1)
qed

lemma managerInv_session:
  assumes inv: "managerInv (managed cfg) m" and k: "k < length (heap m)"
    and st: "sessionStep cfg W C k e m = Some m'"
  shows "managerInv (managed cfg) m'"
proof -
  obtain s' where x: "exec (managed cfg) W C e (heap m ! k) = Some s'"
    using st by (auto simp: sessionStep_def split: option.splits)
  obtain ident en where o: "owners m ! k = (ident, en)" by (cases "owners m ! k")
  have m': "m' = (if terminalCalls s' \<noteq> terminalCalls (heap m ! k)
      then removeEntry ident en (m\<lparr>heap := (heap m)[k := s']\<rparr>) else m\<lparr>heap := (heap m)[k := s']\<rparr>)"
    using st x o by (simp add: sessionStep_def Let_def)
  have inv1: "inv_once (managed cfg) (heap m ! k)" using inv k by (simp add: managerInv_def sessionInv_def)
  then have inv2: "inv_once (managed cfg) s'" by (rule inv_once_step [OF _ x])
  have t: "terminalCalls s' = terminalCalls (heap m ! k) \<longleftrightarrow>
      (closeOnce s' = CloseDone \<longleftrightarrow> closeOnce (heap m ! k) = CloseDone)"
    using inv1 inv2 by (auto simp: inv_once_def managed_def)
  show ?thesis
  proof (cases "terminalCalls s' = terminalCalls (heap m ! k)")
    case True
    then show ?thesis using managerInv_exec [OF inv k x] t m' by simp
  next
    case False
    have sh: "shape m" using inv by (simp add: managerInv_def)
    have "\<not> closing e \<Longrightarrow> terminalCalls s' = terminalCalls (heap m ! k)" using exec_not_closing [OF x] by simp
    then have "closing e" using False by blast
    with x have "closeOnce (heap m ! k) \<noteq> CloseIdle"
      by (rule exec_closing) (use False in \<open>simp_all add: sess_simps\<close>)
    then have req: "closeRequested (heap m ! k)" by (simp add: closeRequested_def)
    let ?r = "removeEntry ident en m"
    have same: "heap ?r = heap m" "owners ?r = owners m" by (simp_all add: removeEntry_def)
    have r: "managerInv (managed cfg) ?r"
    proof (cases "lookup m ident = Some en")
      case True
      have "managerInv (managed cfg) (m\<lparr>sessions := AList.delete ident (sessions m)\<rparr>)"
      proof (rule managerInv_delete [OF inv])
        fix j assume j: "j < length (heap m)" "holds m j" "fst (owners m ! j) = ident"
        then have "snd (owners m ! j) = en" using True by (simp add: holds_def inMap_def)
        then have "j = k" using owner_unique [OF sh j(1) k] o by simp
        then show "closeRequested (heap m ! j)" using req by simp
      qed
      then show ?thesis using True by (simp add: removeEntry_def)
    qed (use inv in \<open>simp add: removeEntry_def\<close>)
    have "\<not> inMap ?r k" using o by (auto simp: inMap_def removeEntry_def map_of_delete)
    then have "managerInv (managed cfg) (?r\<lparr>heap := (heap ?r)[k := s']\<rparr>)"
      using k x by (intro managerInv_exec [OF r]) (simp_all add: same)
    moreover have "m' = ?r\<lparr>heap := (heap ?r)[k := s']\<rparr>"
      using m' False by (simp add: removeEntry_def)
    ultimately show ?thesis by simp
  qed
qed

section \<open>Every step keeps the invariant\<close>

lemma managerInv_fails:
  assumes inv: "managerInv cfg m" and p: "p \<in> set (creating m)" "p = Building ident e \<or> p = Abandoning ident e k"
  shows "managerInv cfg (removeEntry ident e (leaves p m))"
proof -
  let ?l = "leaves p m"
  have l: "managerInv cfg ?l" by (rule managerInv_leaves [OF inv]) (use p(2) in auto)
  have "phaseOk m p" using inv p(1) unfolding managerInv_def phases_def by blast
  then have none: "entries m ! e = None" using p(2) by auto
  show ?thesis
  proof (cases "lookup m ident = Some e")
    case True
    have "managerInv cfg (?l\<lparr>sessions := AList.delete ident (sessions ?l)\<rparr>)"
      by (rule managerInv_delete [OF l]) (use True none in \<open>auto simp: holds_def inMap_def leaves_def\<close>)
    then show ?thesis using True by (simp add: removeEntry_def leaves_def)
  qed (use l in \<open>simp add: removeEntry_def leaves_def\<close>)
qed

lemma managerInv_mark:
  assumes inv: "managerInv cfg m"
  shows "managerInv cfg (fst (MarkConnectedId ident m))"
proof (cases "published m ident")
  case (Some k)
  then obtain e where "lookup m ident = Some e" "entries m ! e = Some k"
    by (auto simp: published_def split: option.splits)
  then have k: "k < length (heap m)" using holds_entry inv by (auto simp: managerInv_def)
  have "exec cfg W C EvMarkConnected (heap m ! k) = Some (MarkConnected (heap m ! k))"
    for W :: "'a \<Rightarrow> unit \<Rightarrow> 'a \<times> string option" and C by simp
  from managerInv_exec [OF inv k this] show ?thesis
    using Some by (simp add: MarkConnectedId_def onSession_def sess_simps)
qed (use inv in \<open>simp add: MarkConnectedId_def\<close>)

lemma managerInv_step:
  assumes inv: "managerInv (managed cfg) m" and st: "mexec cfg ttl W C ev m = Some m'"
  shows "managerInv (managed cfg) m'"
proof (cases ev)
  case (MReserve ident)
  then show ?thesis using st inv managerInv_reserve [OF inv] by (auto split: sum.splits)
next
  case (MBuildFails ident e)
  then show ?thesis using st managerInv_fails [OF inv] by auto
next
  case (MAbandon ident e k)
  then show ?thesis using st managerInv_abandon [OF inv] by auto
next
  case (MAbandoned ident e k)
  then show ?thesis using st managerInv_fails [OF inv] by auto
next
  case (MBuilt ident e)
  then show ?thesis using st managerInv_built [OF inv, of ident e]
    by (auto simp: addSession_def leaves_def enters_def)
next
  case (MPublish ident e k)
  then have b: "Built ident e k \<in> set (creating m)" using st by simp
  show ?thesis using st MPublish managerInv_publish_ok [OF inv b] managerInv_publish_fails [OF inv b]
    by (auto simp: publish_def leaves_def enters_def split: if_splits)
next
  case (MReject k)
  then show ?thesis using st managerInv_reject [OF inv] by auto
next
  case (MArmExpiry k)
  then have p: "Published k \<in> set (creating m)" using st by (auto split: if_splits)
  then have "phaseOk m (Published k)" using inv unfolding managerInv_def phases_def by blast
  then have k: "k < length (heap (leaves (Published k) m))" by (simp add: leaves_def)
  have l: "managerInv (managed cfg) (leaves (Published k) m)" by (rule managerInv_leaves [OF inv]) simp_all
  show ?thesis using st MArmExpiry managerInv_session [OF l k] l by (auto split: if_splits)
next
  case (MExpire k)
  obtain m1 b where "expireLocked (fst (owners m ! k)) k m = (m1, b)"
    by (cases "expireLocked (fst (owners m ! k)) k m")
  then show ?thesis using st MExpire managerInv_expire [OF inv, of k m1 b] by simp
next
  case (MMarkConnected ident)
  then show ?thesis using st managerInv_mark [OF inv] by auto
next
  case (MClose ident)
  obtain m1 res where "closeLocked ident m = (m1, res)" by (cases "closeLocked ident m")
  then show ?thesis using st MClose managerInv_closeId [OF inv, of ident m1 res] by (auto split: option.splits)
next
  case MCloseAll
  obtain m1 ks where "closeAllLocked m = (m1, ks)" by (cases "closeAllLocked m")
  then show ?thesis using st MCloseAll managerInv_closeAll [OF inv, of m1 ks] by simp
next
  case (MSession k e)
  then show ?thesis using st managerInv_session [OF inv] by (auto split: if_splits)
qed

lemma managerInv_new: "managerInv cfg NewManager"
  by (simp add: managerInv_def shape_def phases_def noLeak_def noZombie_def NewManager_def)

interpretation mgr: machine_invariant "\<lambda>m. m = NewManager" "mexec cfg ttl W C" "managerInv (managed cfg)"
  for cfg ttl W C
  by unfold_locales (use managerInv_new in blast, erule (1) managerInv_step)

end
