(* ===== verification/SessionProperties.thy ===== *)
theory SessionProperties
  imports SessionTimers
begin

text \<open>
  The properties of a session: what a closed session has released, that closing ends and is
  idempotent, what \<open>Close\<close> returns, that a timer of an earlier disconnection has no effect, and
  the life cycle that the concurrent session refines.
\<close>

section \<open>The life cycle\<close>

datatype recordingStage = NotRecording | Recording | Recorded

datatype lifecycle = Live recordingStage | Closing recordingStage | Closed recordingStage

inductive lifecycleStep :: "lifecycle \<Rightarrow> lifecycle \<Rightarrow> bool" where
  "lifecycleStep (Live NotRecording) (Live Recording)"
| "lifecycleStep (Live r) (Closing r)"
| "lifecycleStep (Closing Recording) (Closing Recorded)"
| "r \<noteq> Recording \<Longrightarrow> lifecycleStep (Closing r) (Closed r)"

inductive_cases lifecycleStep_Closed: "lifecycleStep (Closed r) b"
inductive_simps lifecycleStep_simps [simp]:
  "lifecycleStep (Live r) b" "lifecycleStep (Closing r) b" "lifecycleStep (Closed r) b"

definition recordingStageOf :: "'w session \<Rightarrow> recordingStage" where
  "recordingStageOf s =
     (if recorders s = [] then NotRecording else if closed (hd (recorders s)) then Recorded else Recording)"

definition lifecycleOf :: "'w session \<Rightarrow> lifecycle" where
  "lifecycleOf s =
     (if closeOnce s = CloseIdle then Live (recordingStageOf s)
      else if closeOnce s = CloseDone then Closed (recordingStageOf s)
      else Closing (recordingStageOf s))"

lemma recordingStage_write:
  "closed r = closed (recs ! i) \<Longrightarrow> recs \<noteq> [] \<Longrightarrow> closed (hd (recs[i := r])) = closed (hd recs)"
  by (cases recs; cases i) simp_all

text \<open>Away from closing a session only starts its recording, and only while it is live.\<close>

lemma recordingStage_other:
  assumes "sessionInv cfg s" "exec cfg W C e s = Some s'" "\<not> closing e"
  shows "recordingStageOf s' = recordingStageOf s \<or>
    (recordingStageOf s = NotRecording \<and> recordingStageOf s' = Recording \<and> closeOnce s = CloseIdle)"
proof (cases e)
  case (EvTrack isAudio mime res)
  then have s': "s' = onTrack isAudio mime res s" and "\<And>r. res = Inr r \<Longrightarrow> \<not> closed r"
    using assms(2) by auto
  then show ?thesis using assms(1) onTrack_rec [of isAudio mime res s] unfolding s'
    by (auto simp: sessionInv_def inv_rec_def inv_close_def recordingStageOf_def)
next
  case (EvRecord i res)
  have "closed (fst (WriteRTP W p r)) = closed r" for p r by (rule ogg.write_keeps)
  then have "recordingStageOf (fst (recordStep W i res s)) = recordingStageOf s"
    using recordStep_rec [of W i res s]
    by (auto simp: recordingStageOf_def recordingStage_write eq_commute [of "[]"])
  then show ?thesis using EvRecord assms(2)
    by (auto simp: case_prod_unfold recordingStageOf_def sess_simps split: if_splits)
qed (use assms in \<open>auto simp: recordingStageOf_def sess_simps case_prod_unfold split: option.splits if_splits\<close>)

lemma recordingStage_close:
  assumes "sessionInv cfg s" "closeOnce s \<noteq> CloseIdle \<and> closeOnce s \<noteq> CloseDone"
  shows "lifecycleOf (closeNext cfg C pe s) = lifecycleOf s \<or>
    lifecycleStep (lifecycleOf s) (lifecycleOf (closeNext cfg C pe s))"
proof -
  have ok: "recOk (recorders s) (recorder s) (closeRecorderVar s) (closeOnce s)"
    using assms(1) by (simp add: sessionInv_def inv_rec_def)
  have closes: "closed (fst (CloseRecorder C r))" for r by (rule ogg.close_closes)
  show ?thesis
    using assms(2)
  proof (cases rule: closeNext_cases [of s cfg C pe])
    case Detached
    with ok show ?thesis using closes
      by (cases rule: recOk_cases)
        (simp_all add: lifecycleOf_def recordingStageOf_def sess_simps closeRecording_rec)
  next
    case PeerDone
    with ok show ?thesis
      by (cases rule: recOk_cases) (simp_all add: lifecycleOf_def recordingStageOf_def sess_simps)
  qed (simp_all add: lifecycleOf_def recordingStageOf_def sess_simps)
qed

interpretation lifecycle: machine_refinement fresh "exec cfg W C" "sessionInv cfg"
  "\<lambda>a. a = Live NotRecording" lifecycleStep lifecycleOf
  for cfg W C
proof unfold_locales
  show "fresh s \<Longrightarrow> lifecycleOf s = Live NotRecording" for s :: "'a session"
    by (auto simp: fresh_def newSession_def lifecycleOf_def recordingStageOf_def)
  fix s :: "'a session" and e s'
  assume inv: "sessionInv cfg s" and step: "exec cfg W C e s = Some s'"
  show "lifecycleOf s' = lifecycleOf s \<or> lifecycleStep (lifecycleOf s) (lifecycleOf s')"
  proof (cases "closing e")
    case True
    with step show ?thesis
      by (rule exec_closing) (simp add: lifecycleOf_def recordingStageOf_def sess_simps,
        use recordingStage_close [OF inv] in simp)
  next
    case False
    then show ?thesis
      using recordingStage_other [OF inv step False] exec_not_closing [OF step False]
      by (auto simp: lifecycleOf_def)
  qed
qed

section \<open>Properties\<close>

text \<open>A trace for the witnesses: a session records, its peer disconnects and fails, and it closes.\<close>

definition exConfig :: sessionConfig where
  "exConfig = \<lparr>disconnectGrace = 5 * second, audioPrimeEnabled = False, audioPrimeDuration = 10 * second,
     audioPrimeMode = ''silence'', hasPrimeWriter = True, hasOnTerminal = True\<rparr>"

definition exWrite :: "nat \<Rightarrow> nat \<Rightarrow> nat \<times> string option" where
  "exWrite w p = (w + p, None)"

definition exClose :: "nat \<Rightarrow> nat \<times> string option" where
  "exClose w = (w, None)"

definition exTrace :: "(nat, nat) sessionEvent list" where
  "exTrace =
     [EvNewExpiry second, EvTrack True ''audio/opus'' (Inr \<lparr>path = ''/r/a.ogg'', writer = 0, closed = False\<rparr>),
      EvSetExpiry 0, EvRecord 0 (Inr 7), EvPeerState PeerDisconnected, EvPeerState PeerFailed, EvStopPrime,
      EvCloseEnter, EvCloseNext None, EvCloseNext None, EvCloseNext None, EvCloseNext None, EvCloseNext None]"

definition exDone :: "nat session" where
  "exDone = the (sessionRuns exConfig exWrite exClose exTrace (newSession ''a''))"

lemma exDone_runs: "sessionRuns exConfig exWrite exClose exTrace (newSession ''a'') = Some exDone"
proof -
  have "sessionRuns exConfig exWrite exClose exTrace (newSession ''a'') \<noteq> None" by code_simp
  then show ?thesis by (auto simp: exDone_def)
qed

lemma exDone_reachable: "sessionReachable exConfig exWrite exClose exDone"
  unfolding sess.reachable_iff using exDone_runs by (auto simp: fresh_def)

lemma exDone_closed: "closeOnce exDone = CloseDone"
  unfolding exDone_def by code_simp

text \<open>What a closed session has given back.\<close>

lemma inv_released:
  assumes inv: "sessionInv cfg s" and fin: "closeOnce s = CloseDone"
  shows "list_all closed (recorders s) \<and> recorder s = None \<and> disconnectTimer s = None \<and> expiryTimer s = None \<and>
    list_all (\<lambda>i. status (timers s ! i) = Armed \<longrightarrow> has (ThSetExpiry i) s) [0..<length (timers s)] \<and>
    primeCtxDone s \<and> peerCloses s = 1 \<and> terminalCalls s = (if hasOnTerminal cfg then 1 else 0)"
proof -
  from inv have "recOk (recorders s) (recorder s) (closeRecorderVar s) (closeOnce s)"
    by (simp add: sessionInv_def inv_rec_def)
  then have "list_all closed (recorders s)" "recorder s = None"
    using fin by (auto elim: recOk_cases)
  moreover have "ctxDone s" using inv fin by (simp add: sessionInv_def inv_close_def)
  moreover have t: "timersOf s" "disconnectTimer s = None" "expiryTimer s = None"
    using inv fin by (simp_all add: sessionInv_def inv_timer_eq)
  moreover have "has (ThSetExpiry i) s" if "i < length (timers s)" "status (timers s ! i) = Armed" for i
    using t that by (auto simp: timersOf_def timersOk_def armedOk_def)
  ultimately show ?thesis using inv fin
    by (auto simp: sessionInv_def inv_once_def primeCtxDone_def list_all_iff)
qed

text \<open>C7: in every interleaving, a session whose \<open>Close\<close> has finished holds nothing back: every
  recorder it ever opened is closed, no disconnect or expiry timer is left in a field, an
  armed timer can only be one that is just being handed over by the manager (and will be
  stopped there), the context of the priming loop is done, the peer connection was closed
  exactly once and the owner was told exactly once.\<close>

theorem closed_session_released:
  assumes "sessionReachable cfg W C s" "closeOnce s = CloseDone"
  shows "list_all closed (recorders s) \<and> recorder s = None \<and> disconnectTimer s = None \<and> expiryTimer s = None \<and>
    list_all (\<lambda>i. status (timers s ! i) = Armed \<longrightarrow> has (ThSetExpiry i) s) [0..<length (timers s)] \<and>
    primeCtxDone s \<and> peerCloses s = 1 \<and> terminalCalls s = (if hasOnTerminal cfg then 1 else 0)"
  by (rule inv_released [OF sess.inv_reachable [OF assms(1)] assms(2)])

theorem closed_session_released_witness:
  "length (recorders exDone) = 1 \<and> list_all closed (recorders exDone) \<and> length (timers exDone) = 2 \<and>
   list_all (\<lambda>i. status (timers exDone ! i) = Armed \<longrightarrow> has (ThSetExpiry i) exDone) [0..<length (timers exDone)] \<and>
   peerCloses exDone = 1 \<and> terminalCalls exDone = 1"
proof -
  have "length (recorders exDone) = 1" "length (timers exDone) = 2" unfolding exDone_def by code_simp+
  moreover have "hasOnTerminal exConfig" by (simp add: exConfig_def)
  ultimately show ?thesis
    using closed_session_released [OF exDone_reachable exDone_closed] by simp
qed

text \<open>C24: in every interleaving a session makes at most one recording, which exists only if audio was
  claimed, at most one goroutine primes it, and at most one disconnect timer is armed: the
  one in the field, started by the last state change, which was a disconnection.\<close>

theorem session_single_resources:
  assumes "sessionReachable cfg W C s"
  shows "length (recorders s) \<le> (if audioClaimed s then 1 else 0) \<and> length (primeThreads s) \<le> 1 \<and>
    list_all (\<lambda>i. status (timers s ! i) = Armed \<and> callback (timers s ! i) \<noteq> CallExpire \<longrightarrow>
        disconnectTimer s = Some i \<and> callback (timers s ! i) = CallDisconnect (disconnectGeneration s) \<and>
        peerState s = PeerDisconnected) [0..<length (timers s)]"
proof -
  have inv: "sessionInv cfg s" by (rule sess.inv_reachable [OF assms])
  then have ok: "recOk (recorders s) (recorder s) (closeRecorderVar s) (closeOnce s)"
    and cl: "recorders s \<noteq> [] \<longrightarrow> audioClaimed s" and t: "timersOf s"
    by (simp_all add: sessionInv_def inv_rec_def inv_timer_eq)
  have "length (recorders s) \<le> (if audioClaimed s then 1 else 0)"
    using ok cl by (cases rule: recOk_cases) simp_all
  moreover have "length (primeThreads s) \<le> 1"
    using inv by (simp add: sessionInv_def inv_prime_def split: if_splits)
  moreover have "disconnectTimer s = Some i \<and> callback (timers s ! i) = CallDisconnect (disconnectGeneration s) \<and>
        peerState s = PeerDisconnected"
    if "i < length (timers s)" "status (timers s ! i) = Armed" "callback (timers s ! i) \<noteq> CallExpire" for i
  proof -
    have "disconnectTimer s = Some i" using t that by (auto simp: timersOf_def timersOk_def armedOk_def)
    then show ?thesis using t by (auto simp: timersOf_def timersOk_def dtOk_def)
  qed
  ultimately show ?thesis by (simp add: list_all_iff)
qed

theorem session_single_resources_witness:
  "length (recorders exDone) \<le> (if audioClaimed exDone then 1 else 0) \<and> length (primeThreads exDone) \<le> 1"
  using session_single_resources [OF exDone_reachable] by blast

lemma closeRun_done: "closeOnce (closeRun cfg C pe s) = CloseDone"
proof (induction cfg C pe s rule: closeRun.induct)
  case (1 cfg C pe s)
  then show ?case by (cases "closeOnce s = CloseDone") (simp_all add: closeRun.simps [of cfg C pe s])
qed

text \<open>A sequential call of \<open>Close\<close> is one schedule of the machine.\<close>

lemma closeRun_reachable:
  "sessionReachable cfg W C s \<Longrightarrow> sessionReachable cfg W C (closeRun cfg C pe s)"
proof (induction cfg C pe s rule: closeRun.induct)
  case (1 cfg C pe s)
  show ?case
  proof (cases "closeOnce s = CloseDone")
    case True
    then show ?thesis using "1.prems" by (simp add: closeRun.simps [of cfg C pe s])
  next
    case False
    have "sessionReachable cfg W C (closeNext cfg C pe s)"
    proof (cases "closeOnce s = CloseIdle")
      case True
      have "exec cfg W C EvCallClose s = Some (go ThClose s)"
        "exec cfg W C EvCloseEnter (go ThClose s) = Some (closeNext cfg C pe s)"
        using True by (simp_all add: go_def ends_def closeNext_def guard_def)
      then show ?thesis using "1.prems" by (blast intro: sess.reach_step)
    next
      case idle: False
      have "exec cfg W C (EvCloseNext pe) s = Some (closeNext cfg C pe s)" using False idle by (simp add: guard_def)
      then show ?thesis using "1.prems" by (blast intro: sess.reach_step)
    qed
    then show ?thesis using "1.IH" [OF False] False by (simp add: closeRun.simps [of cfg C pe s])
  qed
qed

lemma closeNext_runs:
  assumes "closeOnce s \<noteq> CloseIdle"
  shows "sessionRuns cfg W C (replicate (6 - phaseRank (closeOnce s)) (EvCloseNext pe)) s = Some (closeRun cfg C pe s)"
proof -
  have "sessionRuns cfg W C (replicate n (EvCloseNext pe)) s = Some (closeRun cfg C pe s)"
    if "closeOnce s \<noteq> CloseIdle" "n = 6 - phaseRank (closeOnce s)" for n s
    using that
  proof (induction n arbitrary: s)
    case 0
    then have "closeOnce s = CloseDone" using phaseRank_le [of "closeOnce s"] by (cases "closeOnce s") simp_all
    then show ?case by (simp add: closeRun.simps [of cfg C pe s])
  next
    case (Suc n)
    then have nd: "closeOnce s \<noteq> CloseDone" by auto
    then have "n = 6 - phaseRank (closeOnce (closeNext cfg C pe s))"
      using Suc.prems(2) phaseRank_closeNext [OF nd, of cfg C pe] by simp
    from Suc.IH [OF closeNext_progress_phase [OF nd] this] show ?case
      using nd Suc.prems(1) by (simp add: closeRun.simps [of cfg C pe s] guard_def)
  qed
  from this [OF assms refl] show ?thesis .
qed

lemma closeNext_keeps:
  "map path (recorders (closeNext cfg C pe s)) = map path (recorders s) \<and>
   length (timers (closeNext cfg C pe s)) = length (timers s)"
proof -
  have p: "path (fst (CloseRecorder C r)) = path r" for r by (simp add: CloseRecorder_def case_prod_unfold Let_def)
  have "map path (xs[i := r]) = map path xs" if "path r = path (xs ! i)" for xs :: "'a oggRecorder list" and i r
    using that by (cases "i < length xs") (simp_all add: map_update list_update_same_conv list_update_beyond)
  then show ?thesis
    by (cases "closeOnce s") (simp_all add: closeNext_def closeCancel_def closeStopPrime_def closeDetach_def stopAudioPrime_def
      dropDisconnectTimer_def stopTimer_def closeRecording_def closePeer_def closeTerminal_def logEvent_def Let_def p
      case_prod_unfold split: option.split)
qed

lemma closeRun_keeps:
  "map path (recorders (closeRun cfg C pe s)) = map path (recorders s) \<and>
   length (timers (closeRun cfg C pe s)) = length (timers s)"
proof (induction cfg C pe s rule: closeRun.induct)
  case (1 cfg C pe s)
  then show ?case using closeNext_keeps [of cfg C pe s]
    by (cases "closeOnce s = CloseDone") (simp_all add: closeRun.simps [of cfg C pe s])
qed

text \<open>The schedule in which a pending call of \<open>Close\<close> runs the body, or what is left of it, to its end.\<close>

definition closeSchedule :: "string option \<Rightarrow> 'w session \<Rightarrow> ('w, 'p) sessionEvent list" where
  "closeSchedule pe s =
     (if closeOnce s = CloseIdle then EvCloseEnter # replicate 5 (EvCloseNext pe)
      else replicate (6 - phaseRank (closeOnce s)) (EvCloseNext pe))"

lemma closeSchedule_runs:
  assumes "has ThClose s \<or> closeOnce s \<noteq> CloseIdle"
  obtains s' where "sessionRuns cfg W C (closeSchedule pe s) s = Some s'" "closeOnce s' = CloseDone"
    "map path (recorders s') = map path (recorders s)" "length (timers s') = length (timers s)"
proof (cases "closeOnce s = CloseIdle")
  case True
  let ?s = "closeNext cfg C pe (ends ThClose s)"
  have one: "exec cfg W C EvCloseEnter s = Some ?s" using assms True by (simp add: guard_def closeNext_def sess_simps)
  have i: "closeOnce ?s = CloseCancelled" using True by (simp add: closeNext_def sess_simps)
  have "sessionRuns cfg W C (closeSchedule pe s) s = Some (closeRun cfg C pe ?s)"
    using closeNext_runs [of ?s cfg W C pe] one i True by (simp add: closeSchedule_def guard_def)
  then show thesis
    by (rule that) (use closeRun_keeps [of cfg C pe ?s] closeNext_keeps [of cfg C pe "ends ThClose s"]
        in \<open>simp_all add: closeRun_done sess_simps\<close>)
next
  case False
  then have "sessionRuns cfg W C (closeSchedule pe s) s = Some (closeRun cfg C pe s)"
    using closeNext_runs [OF False] by (simp add: closeSchedule_def)
  then show thesis by (rule that) (use closeRun_keeps [of cfg C pe s] in \<open>simp_all add: closeRun_done\<close>)
qed

lemma closeSchedule_own: "set (closeSchedule pe s) \<subseteq> {EvCloseEnter, EvCloseNext pe} \<and> length (closeSchedule pe s) \<le> 6"
  using phaseRank_le [of "closeOnce s"] by (auto simp: closeSchedule_def)

text \<open>C22: closing can always be completed, and completing it releases everything.  In every reachable
  state in which some goroutine has called \<open>Close\<close> or has begun it, the pieces of \<open>Close\<close> that
  are left, at most six, are possible one after the other, whatever the peer connection
  answers, with no step of any other goroutine needed.  In the state they lead to the recorders
  and timers are those the session had, every recorder is closed, no timer is armed but one that
  the manager is just handing over, the context of the priming loop is done, the peer connection
  was closed once and the owner was told once.  The critical sections of the mutexes are
  single steps here, so a mutex is free between two steps.\<close>

theorem close_completes:
  assumes "sessionReachable cfg W C s" "has ThClose s \<or> closeOnce s \<noteq> CloseIdle"
  shows "\<exists>es s'. set es \<subseteq> {EvCloseEnter, EvCloseNext pe} \<and> length es \<le> 6 \<and>
    sessionRuns cfg W C es s = Some s' \<and> closeOnce s' = CloseDone \<and>
    map path (recorders s') = map path (recorders s) \<and> list_all closed (recorders s') \<and>
    length (timers s') = length (timers s) \<and> disconnectTimer s' = None \<and> expiryTimer s' = None \<and>
    list_all (\<lambda>i. status (timers s' ! i) \<noteq> Armed \<or> has (ThSetExpiry i) s') [0..<length (timers s')] \<and>
    primeCtxDone s' \<and> peerCloses s' = 1 \<and> terminalCalls s' = (if hasOnTerminal cfg then 1 else 0)"
proof -
  obtain s' where s': "sessionRuns cfg W C (closeSchedule pe s) s = Some s'" "closeOnce s' = CloseDone"
    "map path (recorders s') = map path (recorders s)" "length (timers s') = length (timers s)"
    by (rule closeSchedule_runs [OF assms(2)])
  have "sessionInv cfg s'" by (rule sess.inv_runs [OF sess.inv_reachable [OF assms(1)] s'(1)])
  from inv_released [OF this s'(2)] have "list_all closed (recorders s')" "disconnectTimer s' = None" "expiryTimer s' = None"
    "list_all (\<lambda>i. status (timers s' ! i) \<noteq> Armed \<or> has (ThSetExpiry i) s') [0..<length (timers s')]"
    "primeCtxDone s'" "peerCloses s' = 1" "terminalCalls s' = (if hasOnTerminal cfg then 1 else 0)"
    by (auto simp: list_all_iff)
  with s' show ?thesis using closeSchedule_own by (intro exI [of _ "closeSchedule pe s"] exI [of _ s']) simp
qed

definition exOpen :: "nat session" where
  "exOpen = the (sessionRuns exConfig exWrite exClose (take 7 exTrace) (newSession ''a''))"

theorem close_completes_witness:
  "length (recorders exOpen) = 1 \<and> \<not> list_all closed (recorders exOpen) \<and>
   (\<exists>es s'. set es \<subseteq> {EvCloseEnter, EvCloseNext (Some ''e'')} \<and> sessionRuns exConfig exWrite exClose es exOpen = Some s' \<and>
      length (recorders s') = 1 \<and> list_all closed (recorders s') \<and> peerCloses s' = 1)"
proof -
  have "sessionRuns exConfig exWrite exClose (take 7 exTrace) (newSession ''a'') \<noteq> None" by code_simp
  then have "sessionRuns exConfig exWrite exClose (take 7 exTrace) (newSession ''a'') = Some exOpen"
    by (auto simp: exOpen_def)
  then have r: "sessionReachable exConfig exWrite exClose exOpen" unfolding sess.reachable_iff by (auto simp: fresh_def)
  have h: "has ThClose exOpen" "length (recorders exOpen) = 1" "\<not> list_all closed (recorders exOpen)"
    unfolding exOpen_def by code_simp+
  obtain es s' where "set es \<subseteq> {EvCloseEnter, EvCloseNext (Some ''e'')}" "sessionRuns exConfig exWrite exClose es exOpen = Some s'"
    "map path (recorders s') = map path (recorders exOpen)" "list_all closed (recorders s')" "peerCloses s' = 1"
    using close_completes [OF r disjI1 [OF h(1)], of "Some ''e''"] by blast
  then show ?thesis using h(2,3) map_eq_imp_length_eq [of path "recorders s'" path "recorders exOpen"] by auto
qed

text \<open>C23: \<open>Close\<close> always returns; a second call changes nothing and returns the same error; on a
  session that is still open the error is the recorder's if closing it failed and the peer
  connection's otherwise, whether or not there is a recording.\<close>

theorem Close_correct:
  assumes "Close cfg C pe s = (s', err)"
  shows "closeOnce s' = CloseDone \<and> Close cfg C' pe' s' = (s', err) \<and>
    (closeOnce s = CloseIdle \<and> closeErr s = None \<longrightarrow>
      err = (case recorder s of None \<Rightarrow> pe
        | Some i \<Rightarrow> (case snd (CloseRecorder C (recorders s ! i)) of Some e \<Rightarrow> Some e | None \<Rightarrow> pe)))"
proof -
  have s': "s' = closeRun cfg C pe s" "err = closeErr s'" using assms by (auto simp: Close_def Let_def)
  have "closeOnce s' = CloseDone" by (simp add: s' closeRun_done)
  moreover from this have "Close cfg C' pe' s' = (s', err)"
    by (simp add: Close_def closeRun.simps [of cfg C' pe' s'] s'(2))
  moreover have "closeErr s' = (case recorder s of None \<Rightarrow> pe
        | Some i \<Rightarrow> (case snd (CloseRecorder C (recorders s ! i)) of Some e \<Rightarrow> Some e | None \<Rightarrow> pe))"
    if "closeOnce s = CloseIdle" "closeErr s = None"
  proof -
    let ?d = "closeDetach (closeStopPrime (closeCancel s))"
    have body: "closeRun cfg C pe s = closeTerminal cfg (closePeer pe (closeRecording C ?d))"
      using that(1) by (simp add: closeRun.simps closeNext_def sess_simps)
    have d: "closeErr ?d = None" "closeRecorderVar ?d = recorder s" "recorders ?d = recorders s"
      using that(2) by (simp_all add: sess_simps closeDetach_rec)
    have "closeErr (closeRecording C ?d) = (case recorder s of None \<Rightarrow> None
        | Some i \<Rightarrow> snd (CloseRecorder C (recorders s ! i)))"
      using d by (simp add: closeRecording_def logEvent_def Let_def case_prod_unfold split: option.splits)
    then show ?thesis unfolding s'(1) body
      by (auto simp: sess_simps closePeer_def split: option.splits)
  qed
  ultimately show ?thesis using s'(2) by simp
qed

theorem Close_correct_witness:
  "closeOnce (fst (Close exConfig exClose (Some ''e'') (newSession ''a''))) = CloseDone \<and>
   snd (Close exConfig exClose (Some ''e'') (newSession ''a'')) = Some ''e''"
  using Close_correct [of exConfig exClose "Some ''e''" "newSession ''a''" _ _ exClose None, OF prod.collapse [symmetric]]
  by (simp add: newSession_def)

text \<open>C25: the callback of a disconnect timer does nothing if between one and \<open>2 ^ 64 - 1\<close> further state
  changes have been handled since it was started, even if the peer is disconnected again.\<close>

theorem stale_disconnect_ignored:
  assumes "0 < length states" "length states < 2 ^ 64"
    "g = disconnectGeneration s" "s' = fold (handlePeerConnectionState cfg) states s"
  shows "closeIfStillDisconnected g s' = (s', False)"
proof -
  have step: "disconnectGeneration (handlePeerConnectionState cfg st t) = disconnectGeneration t + 1" for st t
    by (simp add: handlePeerConnectionState_def startAudioPrime_def Let_def case_prod_unfold sess_simps)
      (simp add: peerStateLocked_def Let_def drop_commute logEvent_def)
  have "disconnectGeneration (fold (handlePeerConnectionState cfg) sts t) = disconnectGeneration t + of_nat (length sts)" for sts t
    by (induction sts arbitrary: t) (simp_all add: step algebra_simps)
  then have "disconnectGeneration s' = g + of_nat (length states)" by (simp add: assms(3,4))
  moreover have "(of_nat (length states) :: 64 word) \<noteq> 0"
    using nat_dvd_not_less [OF assms(1,2)] by (simp add: word_of_nat_eq_0_iff)
  ultimately have "disconnectGeneration s' \<noteq> g" by simp
  then show ?thesis by (simp add: closeIfStillDisconnected_def Let_def)
qed

theorem stale_disconnect_ignored_witness:
  "closeIfStillDisconnected 0 (fold (handlePeerConnectionState exConfig) [PeerConnected, PeerDisconnected]
     (newSession ''a'' :: nat session)) =
   (fold (handlePeerConnectionState exConfig) [PeerConnected, PeerDisconnected] (newSession ''a''), False)"
  by (rule stale_disconnect_ignored [of "[PeerConnected, PeerDisconnected]", OF _ _ _ refl])
    (simp_all add: newSession_def)

text \<open>C14: whatever the interleaving, the session goes through the life cycle live, closing, closed in
  this order; a recording starts only while it is live, ends only while it is closing, and
  the session is closed only when no recording is open.\<close>

theorem session_lifecycle:
  assumes "sessionReachable cfg W C s" "sessionRuns cfg W C events s = Some s'"
  shows "lifecycleStep\<^sup>*\<^sup>* (Live NotRecording) (lifecycleOf s) \<and> lifecycleStep\<^sup>*\<^sup>* (lifecycleOf s) (lifecycleOf s')"
  using lifecycle.reachable_simulated [OF assms(1)]
    lifecycle.simulation [OF sess.inv_reachable [OF assms(1)] assms(2)] by simp

theorem session_lifecycle_witness:
  "lifecycleStep\<^sup>*\<^sup>* (Live NotRecording) (lifecycleOf exDone) \<and> lifecycleOf exDone = Closed Recorded"
proof -
  have "fresh (newSession ''a'' :: nat session)" by (auto simp: fresh_def)
  then have "sessionReachable exConfig exWrite exClose (newSession ''a'')" by (rule machine.reach_start)
  from session_lifecycle [OF this exDone_runs]
  have "lifecycleStep\<^sup>*\<^sup>* (lifecycleOf (newSession ''a'' :: nat session)) (lifecycleOf exDone)" by blast
  moreover have "lifecycleOf (newSession ''a'' :: nat session) = Live NotRecording" by code_simp
  moreover have "lifecycleOf exDone = Closed Recorded" unfolding exDone_def by code_simp
  ultimately show ?thesis by simp
qed

lemma ends_go [sess_simps]: "ends th (go th s) = s"
  by (simp add: ends_def go_def)

text \<open>The handler of a peer connection state, as the code writes it from top to bottom, is the
  schedule of the machine in which no other goroutine gets in between.\<close>

lemma handler_is_schedule:
  assumes "disconnectGeneration s + 1 \<noteq> 0"
  shows "\<exists>events. sessionRuns cfg W C (EvPeerState st # events) s = Some (handlePeerConnectionState cfg st s)"
proof -
  let ?t = "peerStateLocked cfg st (logEvent ''peer_connection_state_changed'' '''' s)"
  have g: "disconnectGeneration (logEvent ''peer_connection_state_changed'' '''' s) + 1 \<noteq> 0"
    using assms by (simp add: sess_simps)
  consider (Connected) "st = PeerConnected" | (Ended) "st = PeerFailed \<or> st = PeerClosed"
    | (Other) "st \<noteq> PeerConnected" "\<not> (st = PeerFailed \<or> st = PeerClosed)" by auto
  then show ?thesis
  proof cases
    case Connected
    obtain s1 b1 where p1: "primeEnter cfg ?t = (s1, b1)" by (cases "primeEnter cfg ?t")
    obtain s2 b2 where p2: "primeLocked s1 = (s2, b2)" by (cases "primeLocked s1")
    let ?events = "EvStartPrime # (if b1 then EvPrimeLock # (if b2 then [EvPrimeGo] else []) else [])"
    have "sessionRuns cfg W C (EvPeerState st # ?events) s = Some (handlePeerConnectionState cfg st s)"
      using Connected assms p1 p2
      by (simp add: guard_def peerStateThread_def handlePeerConnectionState_def startAudioPrime_def Let_def
          sess_simps)
    then show ?thesis by blast
  next
    case Ended
    have "sessionRuns cfg W C [EvPeerState st, EvStopPrime] s = Some (handlePeerConnectionState cfg st s)"
      using Ended assms
      by (auto simp: guard_def peerStateThread_def handlePeerConnectionState_def Let_def sess_simps)
    then show ?thesis by blast
  next
    case Other
    have "sessionRuns cfg W C [EvPeerState st] s = Some (handlePeerConnectionState cfg st s)"
      using Other assms by (simp add: guard_def peerStateThread_def handlePeerConnectionState_def Let_def)
    then show ?thesis by blast
  qed
qed

lemma handler_is_schedule_example:
  "\<exists>events. sessionRuns exConfig exWrite exClose (EvPeerState PeerFailed # events) (newSession ''a'') =
     Some (handlePeerConnectionState exConfig PeerFailed (newSession ''a''))"
  by (rule handler_is_schedule) (simp add: newSession_def)

end
