(* ===== verification/ManagerProperties.thy ===== *)
theory ManagerProperties
  imports ManagerSafety SessionProperties
begin

text \<open>
  The properties of the session manager, in every interleaving and for each operation on its
  own: no session is lost, no closed session stays in the map, and the errors
  \<^verbatim>\<open>ErrSessionExists\<close> and \<^verbatim>\<open>ErrSessionNotFound\<close> mean what they say.
\<close>

section \<open>Closing a session\<close>

lemma Close_done: "closeOnce (fst (Close cfg C pe s)) = CloseDone"
  by (simp add: Close_def Let_def closeRun_done)

lemma closeSession_simps [simp]:
  "entries (fst (closeSession cfg C pe k m)) = entries m" "owners (fst (closeSession cfg C pe k m)) = owners m"
  "length (heap (fst (closeSession cfg C pe k m))) = length (heap m)"
  by (simp_all add: closeSession_def removeEntry_def Let_def case_prod_unfold)

lemma closeSession_heap:
  "heap (fst (closeSession cfg C pe k m)) = (heap m)[k := fst (Close (managed cfg) C (pe k) (heap m ! k))]"
  by (simp add: closeSession_def removeEntry_def Let_def case_prod_unfold)

lemma closeSession_lookup:
  "lookup (fst (closeSession cfg C pe k m)) i = Some e \<Longrightarrow> lookup m i = Some e"
  by (auto simp: closeSession_def removeEntry_def Let_def case_prod_unfold map_of_delete split: if_splits)

lemma closeSession_none:
  "sessions m = [] \<Longrightarrow> sessions (fst (closeSession cfg C pe k m)) = []"
  by (simp add: closeSession_def removeEntry_def Let_def case_prod_unfold)

lemma closeEach_closed:
  "length (heap (fst (closeEach cfg C pe ks m))) = length (heap m) \<and>
   (sessions m = [] \<longrightarrow> sessions (fst (closeEach cfg C pe ks m)) = []) \<and>
   (\<forall>j < length (heap m). (j \<in> set ks \<or> closeOnce (heap m ! j) = CloseDone) \<longrightarrow>
      closeOnce (heap (fst (closeEach cfg C pe ks m)) ! j) = CloseDone)"
proof (induction ks arbitrary: m)
  case (Cons k ks)
  let ?m = "fst (closeSession cfg C pe k m)"
  have "closeOnce (heap ?m ! j) = CloseDone" if "j < length (heap m)" "j = k \<or> closeOnce (heap m ! j) = CloseDone" for j
    using that by (cases "j = k") (simp_all add: closeSession_heap Close_done)
  then show ?case using Cons.IH [of ?m] closeSession_none [of m cfg C pe k]
    by (auto simp: Let_def case_prod_unfold)
qed simp

section \<open>Properties\<close>

definition exMgrTrace :: "(nat, nat) managerEvent list" where
  "exMgrTrace = [MReserve ''a'', MBuilt ''a'' 0, MPublish ''a'' 0 0, MArmExpiry 0, MReserve ''a'',
     MSession 0 (EvPeerState PeerFailed), MReserve ''b'', MBuilt ''b'' 1]"

definition exMgr :: "nat manager" where
  "exMgr = the (runEvents (mexec exConfig second exWrite exClose) exMgrTrace NewManager)"

lemma exMgr_reachable: "managerReachable exConfig second exWrite exClose exMgr"
proof -
  have "runEvents (mexec exConfig second exWrite exClose) exMgrTrace NewManager \<noteq> None" by code_simp
  then have "runEvents (mexec exConfig second exWrite exClose) exMgrTrace NewManager = Some exMgr"
    by (auto simp: exMgr_def)
  then show ?thesis by (auto simp: mgr.reachable_iff)
qed

text \<open>C6: in every interleaving of creations, expiries, closings and the sessions' own steps, no
  session is lost: a session that nobody has asked to close is either published in the map
  under its identifier, or still in the hands of the call of \<open>Create\<close> that made it, which will
  publish or close it.\<close>

theorem manager_no_leak:
  assumes "managerReachable cfg ttl W C m" "k < length (heap m)" "\<not> closeRequested (heap m ! k)"
  shows "published m (fst (owners m ! k)) = Some k \<or>
    Built (fst (owners m ! k)) (snd (owners m ! k)) k \<in> set (creating m) \<or> Rejected k \<in> set (creating m)"
proof -
  have "tracked m k" using mgr.inv_reachable [OF assms(1)] assms(2) by (simp add: managerInv_def noLeak_def)
  then show ?thesis using assms(3) by (auto simp: tracked_def holds_def inMap_def inCreate_def published_def)
qed

theorem manager_no_leak_witness:
  "length (heap exMgr) = 2 \<and> \<not> closeRequested (heap exMgr ! 1) \<and>
   (published exMgr (fst (owners exMgr ! 1)) = Some 1 \<or>
    Built (fst (owners exMgr ! 1)) (snd (owners exMgr ! 1)) 1 \<in> set (creating exMgr) \<or>
    Rejected 1 \<in> set (creating exMgr))"
proof -
  have h: "length (heap exMgr) = 2" "\<not> closeRequested (heap exMgr ! 1)"
    unfolding exMgr_def closeRequested_def by code_simp+
  with manager_no_leak [OF exMgr_reachable, of 1] show ?thesis by simp
qed

lemma published_owner:
  assumes "managerInv cfg m" "published m ident = Some k"
  shows "k < length (heap m) \<and> fst (owners m ! k) = ident \<and> inMap m k"
proof -
  obtain e where "lookup m ident = Some e" "entries m ! e = Some k"
    using assms(2) by (auto simp: published_def split: option.splits)
  then show ?thesis using assms(1) holds_entry by (fastforce simp: managerInv_def holds_def)
qed

text \<open>C10: the map never leads to a session that is completely closed; the session it leads to was
  created for the identifier it is found under, and no other identifier leads to it.\<close>

theorem manager_no_zombie:
  assumes "managerReachable cfg ttl W C m" "published m ident = Some k"
  shows "k < length (heap m) \<and> closeOnce (heap m ! k) \<noteq> CloseDone \<and> fst (owners m ! k) = ident"
  using mgr.inv_reachable [OF assms(1)] published_owner [OF mgr.inv_reachable [OF assms(1)] assms(2)]
  by (auto simp: managerInv_def noZombie_def)

theorem manager_no_zombie_witness:
  "published exMgr ''a'' = Some 0 \<and> closeOnce (heap exMgr ! 0) \<noteq> CloseDone \<and> fst (owners exMgr ! 0) = ''a''"
proof -
  have p: "published exMgr ''a'' = Some 0" unfolding exMgr_def by code_simp
  with manager_no_zombie [OF exMgr_reachable p] show ?thesis by simp
qed

text \<open>What a session guarantees on its own it also guarantees under the manager: every closed
  session has closed its recorders, was closed once towards its peer and called back once.\<close>

lemma manager_sessions_released:
  assumes "managerReachable cfg ttl W C m" "k < length (heap m)" "closeOnce (heap m ! k) = CloseDone"
  shows "list_all closed (recorders (heap m ! k)) \<and> disconnectTimer (heap m ! k) = None \<and>
    expiryTimer (heap m ! k) = None \<and> peerCloses (heap m ! k) = 1 \<and> terminalCalls (heap m ! k) = 1"
proof -
  let ?s = "heap m ! k"
  have inv: "sessionInv (managed cfg) ?s"
    using mgr.inv_reachable [OF assms(1)] assms(2) by (simp add: managerInv_def)
  then have "recOk (recorders ?s) (recorder ?s) (closeRecorderVar ?s) (closeOnce ?s)"
    by (simp add: sessionInv_def inv_rec_def)
  then have "list_all closed (recorders ?s)" using assms(3) by (auto elim: recOk_cases)
  then show ?thesis using inv assms(3)
    by (simp add: sessionInv_def inv_once_def inv_timer_eq managed_def)
qed

definition exMgrClosed :: "nat manager" where
  "exMgrClosed = the (runEvents (mexec exConfig second exWrite exClose)
     (map (MSession 0) (EvStopPrime # EvCloseEnter # replicate 5 (EvCloseNext None))) exMgr)"

lemma exMgrClosed_reachable: "managerReachable exConfig second exWrite exClose exMgrClosed"
proof (rule mgr.reachable_runs [OF exMgr_reachable])
  have "runEvents (mexec exConfig second exWrite exClose)
      (map (MSession 0) (EvStopPrime # EvCloseEnter # replicate 5 (EvCloseNext None))) exMgr \<noteq> None"
    unfolding exMgr_def by code_simp
  then show "runEvents (mexec exConfig second exWrite exClose)
      (map (MSession 0) (EvStopPrime # EvCloseEnter # replicate 5 (EvCloseNext None))) exMgr = Some exMgrClosed"
    by (auto simp: exMgrClosed_def)
qed

lemma manager_sessions_released_example:
  "closeOnce (heap exMgrClosed ! 0) = CloseDone \<and> list_all closed (recorders (heap exMgrClosed ! 0)) \<and>
   peerCloses (heap exMgrClosed ! 0) = 1 \<and> terminalCalls (heap exMgrClosed ! 0) = 1"
proof -
  have d: "0 < length (heap exMgrClosed)" "closeOnce (heap exMgrClosed ! 0) = CloseDone"
    unfolding exMgrClosed_def exMgr_def by code_simp+
  with manager_sessions_released [OF exMgrClosed_reachable d] show ?thesis by blast
qed

lemma closeSession_absent: "lookup m i = None \<Longrightarrow> lookup (fst (closeSession cfg C pe k m)) i = None"
  using closeSession_lookup [of cfg C pe k m i] by (metis not_None_eq)

lemma closeSession_again:
  "closeOnce (heap m ! k) = CloseDone \<Longrightarrow> sessions (fst (closeSession cfg C pe k m)) = sessions m"
  by (simp add: closeSession_def Close_def Let_def case_prod_unfold closeRun.simps)

text \<open>\<open>Create\<close> for a session that has closed itself before \<^verbatim>\<open>NewSession\<close> returned.\<close>

lemma Create_called:
  assumes "lookup m ident = None" "terminalCalls s \<noteq> 0"
    "Create cfg C pe ttl (Inr (s, answer)) (\<lambda>x. x) ident m = (m', res)"
  shows "res = Inl ErrSessionNotFound \<and> lookup m' ident = None \<and>
    (closeOnce s = CloseDone \<longrightarrow> map_of (sessions m') = map_of (sessions m)) \<and>
    closeOnce (heap m' ! length (heap m)) = CloseDone"
proof -
  let ?e = "length (entries m)" and ?k = "length (heap m)"
  let ?m = "m\<lparr>entries := entries m @ [None], entryIds := entryIds m @ [ident], heap := heap m @ [s],
    owners := owners m @ [(ident, ?e)], sessions := AList.delete ident (sessions m)\<rparr>"
  have m': "m' = fst (closeSession cfg C pe ?k ?m)" "res = Inl ErrSessionNotFound"
    using assms by (auto simp: Create_def reserve_def addSession_def publish_def calledBack_def removeEntry_def Let_def
        map_of_delete)
  have "map_of (sessions ?m) = map_of (sessions m)" using assms(1) by (auto simp: map_of_delete fun_eq_iff)
  moreover have "lookup m' ident = None" unfolding m'(1) by (rule closeSession_absent) (simp add: map_of_delete)
  moreover have "closeOnce (heap m' ! ?k) = CloseDone" by (simp add: m'(1) closeSession_heap Close_done)
  ultimately show ?thesis using m' closeSession_again [of ?m ?k cfg C pe] by simp
qed

text \<open>C20: \<open>Create\<close> on its own.  An identifier in use gives \<^verbatim>\<open>ErrSessionExists\<close> and changes nothing.
  Otherwise, if no other call touches the manager meanwhile, an error of \<^verbatim>\<open>NewSession\<close> is passed on
  and leaves the map as it was; a session that was built and has not closed itself meanwhile is
  published under the identifier and its answer is returned; one that has called back before
  \<^verbatim>\<open>NewSession\<close> returned is not published: the result is \<^verbatim>\<open>ErrSessionNotFound\<close>, the session is closed
  and the identifier is free again.  If other calls have taken the reservation away when \<^verbatim>\<open>NewSession\<close>
  returns, the session is closed and the result is \<^verbatim>\<open>ErrSessionNotFound\<close> as well.\<close>

theorem Create_correct:
  "(lookup m ident \<noteq> None \<longrightarrow>
      Create cfg C pe ttl factory during ident m = (m, Inl ErrSessionExists)) \<and>
   (lookup m ident = None \<longrightarrow>
      (case factory of
         Inl err \<Rightarrow> snd (Create cfg C pe ttl factory (\<lambda>x. x) ident m) = Inl err \<and>
           map_of (sessions (fst (Create cfg C pe ttl factory (\<lambda>x. x) ident m))) = map_of (sessions m)
       | Inr (s, answer) \<Rightarrow>
           (terminalCalls s = 0 \<longrightarrow>
              snd (Create cfg C pe ttl factory (\<lambda>x. x) ident m) = Inr answer \<and>
              published (fst (Create cfg C pe ttl factory (\<lambda>x. x) ident m)) ident = Some (length (heap m)) \<and>
              (ttl \<le> 0 \<longrightarrow> heap (fst (Create cfg C pe ttl factory (\<lambda>x. x) ident m)) = heap m @ [s]) \<and>
              Len (fst (Create cfg C pe ttl factory (\<lambda>x. x) ident m)) = Len m + 1) \<and>
           (terminalCalls s \<noteq> 0 \<longrightarrow>
              snd (Create cfg C pe ttl factory (\<lambda>x. x) ident m) = Inl ErrSessionNotFound \<and>
              lookup (fst (Create cfg C pe ttl factory (\<lambda>x. x) ident m)) ident = None \<and>
              (closeOnce s = CloseDone \<longrightarrow>
                 map_of (sessions (fst (Create cfg C pe ttl factory (\<lambda>x. x) ident m))) = map_of (sessions m)) \<and>
              closeOnce (heap (fst (Create cfg C pe ttl factory (\<lambda>x. x) ident m)) ! length (heap m)) = CloseDone) \<and>
           (\<forall>m1 m2 k. reserve ident m = Inr (m1, length (entries m)) \<longrightarrow>
              m2 = during (calledBack ident (length (entries m)) s (fst (addSession ident (length (entries m)) s m1))) \<longrightarrow>
              k = length (heap m) \<longrightarrow> k < length (heap m2) \<longrightarrow>
              lookup m2 ident \<noteq> Some (length (entries m)) \<longrightarrow>
              snd (Create cfg C pe ttl factory during ident m) = Inl ErrSessionNotFound \<and>
              closeOnce (heap (fst (Create cfg C pe ttl factory during ident m)) ! k) = CloseDone)))"
proof (intro conjI impI)
  assume "lookup m ident \<noteq> None"
  then show "Create cfg C pe ttl factory during ident m = (m, Inl ErrSessionExists)"
    by (auto simp: Create_def reserve_def)
next
  assume none: "lookup m ident = None"
  have del: "map_of (AList.delete ident (sessions m)) = map_of (sessions m)"
    using none by (auto simp: map_of_delete fun_eq_iff)
  note called = Create_called [OF none _ prod.collapse [symmetric]]
  show "case factory of
         Inl err \<Rightarrow> snd (Create cfg C pe ttl factory (\<lambda>x. x) ident m) = Inl err \<and>
           map_of (sessions (fst (Create cfg C pe ttl factory (\<lambda>x. x) ident m))) = map_of (sessions m)
       | Inr (s, answer) \<Rightarrow>
           (terminalCalls s = 0 \<longrightarrow>
              snd (Create cfg C pe ttl factory (\<lambda>x. x) ident m) = Inr answer \<and>
              published (fst (Create cfg C pe ttl factory (\<lambda>x. x) ident m)) ident = Some (length (heap m)) \<and>
              (ttl \<le> 0 \<longrightarrow> heap (fst (Create cfg C pe ttl factory (\<lambda>x. x) ident m)) = heap m @ [s]) \<and>
              Len (fst (Create cfg C pe ttl factory (\<lambda>x. x) ident m)) = Len m + 1) \<and>
           (terminalCalls s \<noteq> 0 \<longrightarrow>
              snd (Create cfg C pe ttl factory (\<lambda>x. x) ident m) = Inl ErrSessionNotFound \<and>
              lookup (fst (Create cfg C pe ttl factory (\<lambda>x. x) ident m)) ident = None \<and>
              (closeOnce s = CloseDone \<longrightarrow>
                 map_of (sessions (fst (Create cfg C pe ttl factory (\<lambda>x. x) ident m))) = map_of (sessions m)) \<and>
              closeOnce (heap (fst (Create cfg C pe ttl factory (\<lambda>x. x) ident m)) ! length (heap m)) = CloseDone) \<and>
           (\<forall>m1 m2 k. reserve ident m = Inr (m1, length (entries m)) \<longrightarrow>
              m2 = during (calledBack ident (length (entries m)) s (fst (addSession ident (length (entries m)) s m1))) \<longrightarrow>
              k = length (heap m) \<longrightarrow> k < length (heap m2) \<longrightarrow>
              lookup m2 ident \<noteq> Some (length (entries m)) \<longrightarrow>
              snd (Create cfg C pe ttl factory during ident m) = Inl ErrSessionNotFound \<and>
              closeOnce (heap (fst (Create cfg C pe ttl factory during ident m)) ! k) = CloseDone)"
    using none del called
    by (cases factory) (auto simp: Create_def reserve_def removeEntry_def addSession_def publish_def published_def Len_def calledBack_def
        onSession_def Let_def closeSession_heap Close_done)
qed

theorem Create_correct_witness:
  "snd (Create exConfig exClose (\<lambda>_. None) second (Inr (newSession ''c'', ''v=0'')) (\<lambda>x. x) ''c'' exMgr) = Inr ''v=0'' \<and>
   published (fst (Create exConfig exClose (\<lambda>_. None) second (Inr (newSession ''c'', ''v=0'')) (\<lambda>x. x) ''c'' exMgr)) ''c'' =
     Some (length (heap exMgr)) \<and>
   snd (Create exConfig exClose (\<lambda>_. None) second (Inr (exDone, ''v=0'')) (\<lambda>x. x) ''c'' exMgr) = Inl ErrSessionNotFound \<and>
   Create exConfig exClose (\<lambda>_. None) second (Inr (newSession ''c'', ''v=0'')) (\<lambda>x. x) ''a'' exMgr = (exMgr, Inl ErrSessionExists)"
proof -
  have l: "lookup exMgr ''c'' = None" "lookup exMgr ''a'' \<noteq> None" unfolding exMgr_def by code_simp+
  have t: "terminalCalls (newSession ''c'' :: nat session) = 0" "terminalCalls exDone \<noteq> 0"
    unfolding exDone_def by code_simp+
  show ?thesis
    using Create_correct [of exMgr "''c''" exConfig exClose "\<lambda>_. None" second "Inr (newSession ''c'', ''v=0'')" "\<lambda>x. x"]
      Create_correct [of exMgr "''c''" exConfig exClose "\<lambda>_. None" second "Inr (exDone, ''v=0'')" "\<lambda>x. x"]
      Create_correct [of exMgr "''a''" exConfig exClose "\<lambda>_. None" second "Inr (newSession ''c'', ''v=0'')" "\<lambda>x. x"] l t
    by simp
qed

end
