(* ===== verification/ManagerRegistry.thy ===== *)
theory ManagerRegistry
  imports ManagerProperties
begin

text \<open>
  What the manager promises its callers, as a registry of identifiers: an identifier is free,
  reserved by one call of \<open>Create\<close>, or served by one session.  The concurrent manager refines it.
\<close>

section \<open>The registry\<close>

datatype slot = Reserved nat | Serving nat

record registry =
  slots :: "string \<rightharpoonup> slot"
  reservations :: nat
  servedSessions :: "nat set"

text \<open>Reservations are numbered, and a session is taken into service at most once, for the
  identifier that was reserved for it.\<close>

inductive registryStep :: "registry \<Rightarrow> registry \<Rightarrow> bool" where
  reserves: "slots r i = None \<Longrightarrow>
    registryStep r (r\<lparr>slots := (slots r)(i \<mapsto> Reserved (reservations r)), reservations := Suc (reservations r)\<rparr>)"
| serves: "slots r i = Some (Reserved e) \<Longrightarrow> k \<notin> servedSessions r \<Longrightarrow>
    registryStep r (r\<lparr>slots := (slots r)(i \<mapsto> Serving k), servedSessions := insert k (servedSessions r)\<rparr>)"
| frees: "registryStep r (r\<lparr>slots := (slots r)(i := None)\<rparr>)"
| frees_all: "registryStep r (r\<lparr>slots := Map.empty\<rparr>)"

inductive_cases registryStepE: "registryStep r r'"

definition emptyRegistry :: registry where
  "emptyRegistry = \<lparr>slots = Map.empty, reservations = 0, servedSessions = {}\<rparr>"

definition slotAt :: "nat option list \<Rightarrow> nat \<Rightarrow> slot" where
  "slotAt es e = (case es ! e of None \<Rightarrow> Reserved e | Some k \<Rightarrow> Serving k)"

definition registryOf :: "'w manager \<Rightarrow> registry" where
  "registryOf m =
     \<lparr>slots = (\<lambda>i. map_option (slotAt (entries m)) (lookup m i)),
      reservations = length (entries m), servedSessions = {k. Some k \<in> set (entries m)}\<rparr>"

section \<open>Every step is one of the registry\<close>

lemma registryOf_cong: "sessions m' = sessions m \<Longrightarrow> entries m' = entries m \<Longrightarrow> registryOf m' = registryOf m"
  by (simp add: registryOf_def)

lemma registryOf_onSession [simp]: "registryOf (onSession k f m) = registryOf m"
  by (simp add: registryOf_def onSession_def)

lemma registryOf_phase [simp]: "registryOf (enters p m) = registryOf m" "registryOf (leaves p m) = registryOf m"
  by (simp_all add: registryOf_def enters_def leaves_def)

lemma registryOf_heap [simp]: "registryOf (m\<lparr>heap := h\<rparr>) = registryOf m"
  by (simp add: registryOf_def)

lemma registryOf_delete: "registryStep (registryOf m) (registryOf (m\<lparr>sessions := AList.delete i (sessions m)\<rparr>))"
proof -
  have "registryOf (m\<lparr>sessions := AList.delete i (sessions m)\<rparr>) = (registryOf m)\<lparr>slots := (slots (registryOf m))(i := None)\<rparr>"
    by (auto simp: registryOf_def map_of_delete)
  then show ?thesis using registryStep.frees by simp
qed

lemma registryOf_deleted:
  "sessions m' = AList.delete i (sessions m) \<Longrightarrow> entries m' = entries m \<Longrightarrow> registryStep (registryOf m) (registryOf m')"
  using registryOf_delete [of m i] by (simp add: registryOf_def)

lemma registryOf_removeEntry:
  "registryOf (removeEntry i e m) = registryOf m \<or> registryStep (registryOf m) (registryOf (removeEntry i e m))"
  using registryOf_delete by (auto simp: removeEntry_def)

lemma registryOf_reserve:
  assumes "shape m" "reserve i m = Inr (m1, e)"
  shows "registryStep (registryOf m) (registryOf m1)"
proof -
  have free: "lookup m i = None" and m1: "e = length (entries m)"
    "m1 = m\<lparr>sessions := (i, e) # sessions m, entries := entries m @ [None], entryIds := entryIds m @ [i]\<rparr>"
    using assms(2) by (auto simp: reserve_def Let_def split: option.splits)
  have old: "e' < length (entries m)" if "lookup m j = Some e'" for j e'
    using assms(1) that by (auto simp: shape_def)
  have "registryOf m1 = (registryOf m)\<lparr>slots := (slots (registryOf m))(i \<mapsto> Reserved (reservations (registryOf m))),
      reservations := Suc (reservations (registryOf m))\<rparr>"
    using old by (auto simp: registryOf_def slotAt_def m1 nth_append fun_eq_iff map_option_case split: option.split)
  then show ?thesis using registryStep.reserves [of "registryOf m" i] free by (simp add: registryOf_def)
qed

lemma registryOf_publish:
  assumes "shape m" "phaseOk m (Built i e k)" "publish i e k m = (m1, ok)"
  shows "registryOf m1 = registryOf m \<or> registryStep (registryOf m) (registryOf m1)"
proof (cases "lookup m i = Some e")
  case True
  then have m1: "m1 = m\<lparr>entries := (entries m)[e := Some k]\<rparr>" using assms(3) by (simp add: publish_def)
  have e: "e < length (entries m)" "entryIds m ! e = i" "entries m ! e = None"
    using assms(1,2) True by (auto simp: shape_def)
  have other: "e' \<noteq> e" if "lookup m j = Some e'" "j \<noteq> i" for j e'
    using assms(1) that e(2) by (auto simp: shape_def)
  have new: "Some k \<notin> set (entries m)"
  proof
    assume "Some k \<in> set (entries m)"
    then obtain e' where e': "e' < length (entries m)" "entries m ! e' = Some k" by (auto simp: in_set_conv_nth)
    then have "snd (owners m ! k) = e'" using assms(1) by (auto simp: shape_def)
    then show False using assms(2) e' by simp
  qed
  have "Some x \<in> set ((entries m)[e := Some k])" if x: "Some x \<in> set (entries m)" for x
  proof -
    obtain j where j: "j < length (entries m)" "entries m ! j = Some x" using x by (auto simp: in_set_conv_nth)
    with e(3) have "(entries m)[e := Some k] ! j = Some x" by (cases "j = e") auto
    with j(1) show ?thesis by (metis length_list_update nth_mem)
  qed
  then have served: "{x. Some x \<in> set ((entries m)[e := Some k])} = insert k {x. Some x \<in> set (entries m)}"
    using set_update_subset_insert [of "entries m" e "Some k"] set_update_memI [OF e(1)] by blast
  have "map_option (slotAt ((entries m)[e := Some k])) (lookup m j) =
      (if j = i then Some (Serving k) else map_option (slotAt (entries m)) (lookup m j))" for j
    using True e(1) other [of j] by (cases "lookup m j") (auto simp: slotAt_def)
  then have "registryOf m1 = (registryOf m)\<lparr>slots := (slots (registryOf m))(i \<mapsto> Serving k),
      servedSessions := insert k (servedSessions (registryOf m))\<rparr>"
    using served by (simp add: registryOf_def m1 fun_eq_iff)
  moreover have "slots (registryOf m) i = Some (Reserved e)" using True e by (simp add: registryOf_def slotAt_def)
  moreover have "k \<notin> servedSessions (registryOf m)" using new by (simp add: registryOf_def)
  ultimately show ?thesis using registryStep.serves by metis
next
  case False
  then show ?thesis using assms(3) by (simp add: publish_def)
qed

lemma registryOf_sessionStep:
  assumes "sessionStep cfg W C k e m = Some m'"
  shows "registryOf m' = registryOf m \<or> registryStep (registryOf m) (registryOf m')"
  using assms registryOf_removeEntry [of _ _ "m\<lparr>heap := _\<rparr>"]
  by (auto simp: sessionStep_def Let_def case_prod_unfold split: option.splits if_splits)

lemma registryOf_closeAll: "registryOf (fold (\<lambda>k. onSession k f) ks m) = registryOf m"
  by (induction ks arbitrary: m) simp_all

lemma registryOf_mexec:
  assumes "managerInv (managed cfg) m" "mexec cfg ttl W C e m = Some m'"
  shows "registryOf m' = registryOf m \<or> registryStep (registryOf m) (registryOf m')"
proof (cases e)
  case (MReserve i)
  then show ?thesis using assms registryOf_reserve [of m i] by (auto simp: managerInv_def split: sum.splits)
next
  case (MBuildFails i n)
  then show ?thesis using assms(2) registryOf_removeEntry [of i n "leaves (Building i n) m"] by (auto simp: guard_Some)
next
  case (MAbandoned i n k)
  then show ?thesis using assms(2) registryOf_removeEntry [of i n "leaves (Abandoning i n k) m"] by (auto simp: guard_Some)
next
  case (MBuilt i n)
  then have "m' = enters (Built i n (length (heap m))) (fst (addSession i n (newSession i) (leaves (Building i n) m)))"
    using assms(2) by (auto simp: guard_Some addSession_def leaves_def)
  then show ?thesis by (simp add: registryOf_def addSession_def leaves_def enters_def)
next
  case (MPublish i n k)
  let ?m = "leaves (Built i n k) m"
  have b: "Built i n k \<in> set (creating m)" using MPublish assms(2) by (auto simp: guard_Some)
  then have "phaseOk m (Built i n k)" using assms(1) by (auto simp: managerInv_def phases_def)
  then have "shape ?m" "phaseOk ?m (Built i n k)" using assms(1) by (auto simp: managerInv_def shape_def leaves_def)
  then show ?thesis using registryOf_publish [of ?m i n k] MPublish assms(2) by (auto simp: guard_Some split: prod.splits if_splits)
next
  case (MExpire k)
  then show ?thesis using assms(2) registryOf_deleted [of m' "fst (owners m ! k)" m]
    by (auto simp: guard_Some expireLocked_def split: prod.splits if_splits)
next
  case (MArmExpiry k)
  then show ?thesis using assms(2) registryOf_sessionStep [of cfg W C k "EvNewExpiry ttl" "leaves (Published k) m" m']
    by (auto split: if_splits)
next
  case (MMarkConnected i)
  then show ?thesis using assms(2) by (auto simp: MarkConnectedId_def split: option.splits)
next
  case (MClose i)
  then show ?thesis using assms(2) registryOf_deleted [of m' i m]
    by (auto simp: closeLocked_def split: option.splits)
next
  case MCloseAll
  then have "registryOf m' = (registryOf m)\<lparr>slots := Map.empty\<rparr>"
    using assms(2) by (auto simp: closeAllLocked_def registryOf_closeAll) (simp add: registryOf_def)
  then show ?thesis using registryStep.frees_all by simp
next
  case (MSession k ev)
  then show ?thesis using assms(2) registryOf_sessionStep [of cfg W C k ev m m'] by (auto split: if_splits)
qed (use assms(2) in \<open>auto simp: guard_Some\<close>)

interpretation registry: machine_refinement "\<lambda>m. m = NewManager" "mexec cfg ttl W C" "managerInv (managed cfg)"
  "\<lambda>r. r = emptyRegistry" registryStep registryOf
  for cfg ttl W C
proof unfold_locales
  show "m = NewManager \<Longrightarrow> registryOf m = emptyRegistry" for m :: "'a manager"
    by (simp add: registryOf_def NewManager_def emptyRegistry_def)
qed (rule registryOf_mexec)

section \<open>Properties\<close>

text \<open>In the registry a session serves one identifier at a time and, once replaced, never again.\<close>

definition registryInv :: "registry \<Rightarrow> bool" where
  "registryInv r =
     ((\<forall>i k. slots r i = Some (Serving k) \<longrightarrow> k \<in> servedSessions r) \<and>
      (\<forall>i j k. slots r i = Some (Serving k) \<longrightarrow> slots r j = Some (Serving k) \<longrightarrow> i = j))"

lemma registryInv_step: "registryInv r \<Longrightarrow> registryStep r r' \<Longrightarrow> registryInv r'"
  by (auto simp: registryInv_def elim!: registryStepE split: if_splits)

lemma registryInv_reachable: "registryStep\<^sup>*\<^sup>* emptyRegistry r \<Longrightarrow> registryInv r"
proof (induction rule: rtranclp_induct)
  case base
  show ?case by (simp add: registryInv_def emptyRegistry_def)
qed (rule registryInv_step)

text \<open>C11: the concurrent manager refines the registry: every reachable state stands for a registry that
  can be reached by reserving free identifiers, putting a session into service for a
  reservation, and freeing identifiers, and every step of the manager is one such step or
  none.  A session is found under an identifier exactly if the registry serves it there, and
  never under two identifiers.\<close>

theorem manager_registry:
  assumes "managerReachable cfg ttl W C m"
  shows "registryStep\<^sup>*\<^sup>* emptyRegistry (registryOf m) \<and>
    (mexec cfg ttl W C e m = Some m' \<longrightarrow> registryOf m' = registryOf m \<or> registryStep (registryOf m) (registryOf m')) \<and>
    (published m i = Some k \<longleftrightarrow> slots (registryOf m) i = Some (Serving k)) \<and>
    (published m i = Some k \<and> published m j = Some k \<longrightarrow> i = j)"
proof -
  have pub: "published m i = Some k \<longleftrightarrow> slots (registryOf m) i = Some (Serving k)" for i k
    by (auto simp: published_def registryOf_def slotAt_def split: option.splits)
  have "registryStep\<^sup>*\<^sup>* emptyRegistry (registryOf m)" using registry.reachable_simulated [OF assms] by simp
  moreover from this have "registryInv (registryOf m)" by (rule registryInv_reachable)
  moreover have "mexec cfg ttl W C e m = Some m' \<longrightarrow> registryOf m' = registryOf m \<or> registryStep (registryOf m) (registryOf m')"
    using registry.abs_step mgr.inv_reachable [OF assms] by blast
  ultimately show ?thesis unfolding pub registryInv_def by blast
qed

theorem manager_registry_witness:
  "registryStep\<^sup>*\<^sup>* emptyRegistry (registryOf exMgr) \<and> slots (registryOf exMgr) ''a'' = Some (Serving 0)"
proof -
  have "published exMgr ''a'' = Some 0" unfolding exMgr_def by code_simp
  with manager_registry [OF exMgr_reachable] show ?thesis by blast
qed

end
