(* ===== verification/ManagerLiveness.thy ===== *)
theory ManagerLiveness
  imports ManagerProperties
begin

text \<open>
  Progress of the manager: the steps that are needed to close a session are always possible,
  so an expiry timer that fires leads to a closed session and a free identifier.
\<close>

section \<open>The steps of a session inside the manager\<close>

lemma removeEntry_frame [simp]:
  "heap (removeEntry i e m) = heap m" "owners (removeEntry i e m) = owners m" "entries (removeEntry i e m) = entries m"
  by (simp_all add: removeEntry_def)

lemma removeEntry_absent: "lookup m i = None \<Longrightarrow> lookup (removeEntry j e m) i = None"
  by (simp add: removeEntry_def map_of_delete)

lemma session_runs_lift:
  assumes "sessionRuns (managed cfg) W C es (heap m ! k) = Some s'" "list_all ownEvent es" "k < length (heap m)"
  shows "\<exists>m'. runEvents (mexec cfg ttl W C) (map (MSession k) es) m = Some m' \<and> heap m' = (heap m)[k := s'] \<and>
    (\<forall>i. lookup m i = None \<longrightarrow> lookup m' i = None)"
  using assms
proof (induction es arbitrary: m)
  case (Cons e es)
  obtain s1 where s1: "exec (managed cfg) W C e (heap m ! k) = Some s1" "sessionRuns (managed cfg) W C es s1 = Some s'"
    using Cons.prems(1) by (auto split: option.splits)
  then obtain m1 where m1: "mexec cfg ttl W C (MSession k e) m = Some m1" "heap m1 = (heap m)[k := s1]"
    "\<forall>i. lookup m i = None \<longrightarrow> lookup m1 i = None"
    using Cons.prems(2,3) removeEntry_absent [of "m\<lparr>heap := (heap m)[k := s1]\<rparr>"]
    by (cases "owners m ! k") (auto simp: sessionStep_def Let_def)
  obtain m' where "runEvents (mexec cfg ttl W C) (map (MSession k) es) m1 = Some m'" "heap m' = (heap m1)[k := s']"
    "\<forall>i. lookup m1 i = None \<longrightarrow> lookup m' i = None"
    using Cons.IH [of m1] Cons.prems(2,3) m1 s1(2) by auto
  then show ?case using m1 by auto
qed (auto simp: list_update_same_conv)

section \<open>Expiry\<close>

lemma fire_frame_manager:
  assumes "t < length (timers s)" "callback (timers s ! t) = CallExpire"
  shows "has ThExpire (fire t s)" "recorders (fire t s) = recorders s" "status (timers (fire t s) ! t) = Fired"
  using assms by (simp_all add: fire_def go_def)

lemma closeSchedule_ownEvent: "list_all ownEvent (closeSchedule pe s)"
proof -
  have "ownEvent e" if "e \<in> {EvCloseEnter, EvCloseNext pe}" for e :: "('w, 'p) sessionEvent" using that by auto
  then show ?thesis using closeSchedule_own [of pe s] by (auto simp: list_all_iff)
qed

text \<open>C21: an expiry timer that fires ends its session.  Take any reachable state in which a session
  is published under an identifier and an expiry timer of the session runs.  The step in which
  the timer fires is possible, and after it the step in which its callback \<^verbatim>\<open>expire\<close> looks the session
  up; this second step has taken the identifier out of the map and called \<open>Close\<close> on the
  session.  From there at most six steps of that call, and nothing else, are possible one after
  the other and end with the session closed: every recorder it had is closed, no timer is left
  in its fields, its peer connection was closed once, the manager was called back once, and the
  identifier is still free.\<close>

theorem expiry_completes:
  assumes "managerReachable cfg ttl W C m" "published m ident = Some k"
    "t < length (timers (heap m ! k))" "callback (timers (heap m ! k) ! t) = CallExpire"
    "status (timers (heap m ! k) ! t) = Armed"
  shows "\<exists>m1 m2 es m'. mexec cfg ttl W C (MSession k (EvFire t)) m = Some m1 \<and>
    status (timers (heap m1 ! k) ! t) = Fired \<and> published m1 ident = Some k \<and>
    mexec cfg ttl W C (MExpire k) m1 = Some m2 \<and> lookup m2 ident = None \<and> has ThClose (heap m2 ! k) \<and>
    set es \<subseteq> {EvCloseEnter, EvCloseNext pe} \<and> length es \<le> 6 \<and>
    runEvents (mexec cfg ttl W C) (map (MSession k) es) m2 = Some m' \<and>
    closeOnce (heap m' ! k) = CloseDone \<and> map path (recorders (heap m' ! k)) = map path (recorders (heap m ! k)) \<and>
    list_all closed (recorders (heap m' ! k)) \<and> disconnectTimer (heap m' ! k) = None \<and>
    expiryTimer (heap m' ! k) = None \<and> peerCloses (heap m' ! k) = 1 \<and> terminalCalls (heap m' ! k) = 1 \<and>
    lookup m' ident = None"
proof -
  let ?m1 = "m\<lparr>heap := (heap m)[k := fire t (heap m ! k)]\<rparr>"
  have own: "k < length (heap m)" "fst (owners m ! k) = ident"
    using published_owner [OF mgr.inv_reachable [OF assms(1)] assms(2)] by simp_all
  have "terminalCalls (fire t (heap m ! k)) = terminalCalls (heap m ! k)" by (simp add: fire_def go_def)
  then have step1: "mexec cfg ttl W C (MSession k (EvFire t)) m = Some ?m1"
    using own(1) assms(3,5) by (simp add: sessionStep_def guard_def Let_def case_prod_unfold)
  have pub1: "published ?m1 ident = Some k" using assms(2) by (simp add: published_def split: option.split_asm)
  have fired: "status (timers (heap ?m1 ! k) ! t) = Fired" "recorders (heap ?m1 ! k) = recorders (heap m ! k)"
    "has ThExpire (heap ?m1 ! k)"
    using own(1) assms(3) fire_frame_manager [OF assms(3,4)] by simp_all
  define m2 where "m2 = onSession k (\<lambda>s. go ThClose (ends ThExpire s)) (?m1\<lparr>sessions := AList.delete ident (sessions m)\<rparr>)"
  have step2: "mexec cfg ttl W C (MExpire k) ?m1 = Some m2"
    using own fired(3) pub1 by (simp add: expireLocked_def guard_def m2_def)
  have k2: "k < length (heap m2)" "has ThClose (heap m2 ! k)" "lookup m2 ident = None"
    "recorders (heap m2 ! k) = recorders (heap m ! k)"
    using own(1) fired(2) by (simp_all add: m2_def onSession_def map_of_delete go_def ends_def)
  let ?es = "closeSchedule pe (heap m2 ! k)"
  obtain s' where s': "sessionRuns (managed cfg) W C ?es (heap m2 ! k) = Some s'" "closeOnce s' = CloseDone"
    "map path (recorders s') = map path (recorders (heap m2 ! k))" "length (timers s') = length (timers (heap m2 ! k))"
    by (rule closeSchedule_runs [OF disjI1 [OF k2(2)]])
  obtain m' where m': "runEvents (mexec cfg ttl W C) (map (MSession k) ?es) m2 = Some m'" "heap m' = (heap m2)[k := s']"
    "\<forall>i. lookup m2 i = None \<longrightarrow> lookup m' i = None"
    using session_runs_lift [OF s'(1) closeSchedule_ownEvent k2(1)] by blast
  have "managerReachable cfg ttl W C m'"
    by (rule mgr.reachable_runs [OF mgr.reach_step [OF mgr.reach_step [OF assms(1) step1] step2] m'(1)])
  then have "list_all closed (recorders (heap m' ! k)) \<and> disconnectTimer (heap m' ! k) = None \<and>
      expiryTimer (heap m' ! k) = None \<and> peerCloses (heap m' ! k) = 1 \<and> terminalCalls (heap m' ! k) = 1"
    by (rule manager_sessions_released) (use m'(2) s'(2) k2(1) in simp_all)
  moreover have "closeOnce (heap m' ! k) = CloseDone" "map path (recorders (heap m' ! k)) = map path (recorders (heap m ! k))"
    "lookup m' ident = None"
    using m'(2,3) s'(2,3) k2 by simp_all
  moreover note step1 fired(1) pub1 step2 k2(2,3) closeSchedule_own [of pe "heap m2 ! k"] m'(1)
  ultimately show ?thesis by blast
qed

definition exExpiryTrace :: "(nat, nat) managerEvent list" where
  "exExpiryTrace = [MReserve ''a'', MBuilt ''a'' 0, MPublish ''a'' 0 0, MArmExpiry 0]"

definition exExpiry :: "nat manager" where
  "exExpiry = the (runEvents (mexec exConfig second exWrite exClose) exExpiryTrace NewManager)"

theorem expiry_completes_witness:
  "published exExpiry ''a'' = Some 0 \<and>
   (\<exists>m1 m2. mexec exConfig second exWrite exClose (MSession 0 (EvFire 0)) exExpiry = Some m1 \<and>
      mexec exConfig second exWrite exClose (MExpire 0) m1 = Some m2 \<and> lookup m2 ''a'' = None \<and> has ThClose (heap m2 ! 0))"
proof -
  have "runEvents (mexec exConfig second exWrite exClose) exExpiryTrace NewManager \<noteq> None" by code_simp
  then have "runEvents (mexec exConfig second exWrite exClose) exExpiryTrace NewManager = Some exExpiry"
    by (auto simp: exExpiry_def)
  then have r: "managerReachable exConfig second exWrite exClose exExpiry" by (auto simp: mgr.reachable_iff)
  have p: "published exExpiry ''a'' = Some 0" "0 < length (timers (heap exExpiry ! 0))"
    "callback (timers (heap exExpiry ! 0) ! 0) = CallExpire" "status (timers (heap exExpiry ! 0) ! 0) = Armed"
    unfolding exExpiry_def by code_simp+
  from expiry_completes [OF r p, of None] p(1) show ?thesis by blast
qed

end
