(* ===== verification/GoNet.thy ===== *)
theory GoNet
  imports GoNumbers
begin

text \<open>
  What the program uses of the Go packages \<^verbatim>\<open>net\<close> and \<^verbatim>\<open>net/netip\<close>: reading a dotted decimal
  address, printing it, and testing it against a prefix.  A \<^verbatim>\<open>netip.Addr\<close> of version 4 is a
  32 bit word; a \<^verbatim>\<open>net.IP\<close> is a slice of bytes, \<open>[]\<close> when it is nil.
\<close>

unbundle bit_operations_syntax

section \<open>Reading\<close>

text \<open>\<^verbatim>\<open>netip.parseIPv4Fields\<close>: the value and the number of digits of the current octet, and the
  octets read so far.\<close>

fun ipv4Fields :: "string \<Rightarrow> int \<Rightarrow> nat \<Rightarrow> int list \<Rightarrow> int list option" where
  "ipv4Fields [] val digLen fields = (if length fields < 3 then None else Some (fields @ [val]))"
| "ipv4Fields (c # s) val digLen fields =
     (if is_digit c then
        if digLen = 1 \<and> val = 0 then None
        else if 255 < 10 * val + digit_val c then None
        else ipv4Fields s (10 * val + digit_val c) (digLen + 1) fields
      else if c = CHR ''.'' then
        if digLen = 0 \<or> s = [] then None
        else if length fields = 3 then None
        else ipv4Fields s 0 0 (fields @ [val])
      else None)"

definition addrOfOctets :: "int list \<Rightarrow> 32 word" where
  "addrOfOctets = foldl (\<lambda>w o8. 256 * w + of_int o8) 0"

text \<open>\<^verbatim>\<open>netip.ParseAddr\<close> followed by \<open>Is4\<close>: the first of the characters that tell the kinds of
  addresses apart decides, and only a dot leads to an address of version 4.\<close>

definition ParseAddr4 :: "string \<Rightarrow> 32 word option" where
  "ParseAddr4 s =
     (case dropWhile (\<lambda>c. c \<noteq> CHR ''.'' \<and> c \<noteq> CHR '':'' \<and> c \<noteq> CHR ''%'') s of
        [] \<Rightarrow> None
      | c # _ \<Rightarrow> if c = CHR ''.'' then map_option addrOfOctets (ipv4Fields s 0 0 []) else None)"

section \<open>Printing\<close>

type_synonym IP = bytes

definition AsSlice :: "32 word \<Rightarrow> IP" where
  "AsSlice a = [ucast (drop_bit 24 a), ucast (drop_bit 16 a), ucast (drop_bit 8 a), ucast a]"

text \<open>\<^verbatim>\<open>IP.To4\<close>: four bytes, or sixteen with the prefix of a mapped address.\<close>

definition To4 :: "IP \<Rightarrow> IP option" where
  "To4 ip =
     (if length ip = 4 then Some ip
      else if length ip = 16 \<and> take 10 ip = replicate 10 0 \<and> take 2 (drop 10 ip) = [0xFF, 0xFF]
      then Some (drop 12 ip) else None)"

text \<open>\<^verbatim>\<open>IP.String\<close> of an address of version 4.\<close>

definition IPString :: "IP \<Rightarrow> string" where
  "IPString ip = Join (map (\<lambda>b. Itoa (uint b)) ip) ''.''"

section \<open>Prefixes\<close>

type_synonym Prefix = "32 word \<times> nat"

definition ipv4 :: "8 word \<Rightarrow> 8 word \<Rightarrow> 8 word \<Rightarrow> 8 word \<Rightarrow> 32 word" where
  "ipv4 a b c d = push_bit 24 (ucast a) OR push_bit 16 (ucast b) OR push_bit 8 (ucast c) OR ucast d"

definition PrefixContains :: "Prefix \<Rightarrow> 32 word \<Rightarrow> bool" where
  "PrefixContains p a = (drop_bit (32 - snd p) (a XOR fst p) = 0)"

section \<open>Facts\<close>

lemma ipv4Fields_numeral:
  assumes "canonical (p @ s)" "decimal (p @ s) \<le> 255"
  shows "ipv4Fields (s @ r) (decimal p) (length p) fields = ipv4Fields r (decimal (p @ s)) (length (p @ s)) fields"
  using assms
proof (induction s arbitrary: p)
  case (Cons c s)
  have dig: "list_all is_digit p" "is_digit c" "list_all is_digit s"
    using Cons.prems(1) by (auto simp: canonical_def)
  have "\<not> (length p = 1 \<and> decimal p = 0)"
  proof
    assume "length p = 1 \<and> decimal p = 0"
    moreover from this have "hd p = CHR ''0''" using decimal_pos [OF dig(1)] by force
    ultimately show False using Cons.prems(1) by (auto simp: canonical_def length_Suc_conv)
  qed
  moreover have "decimal (p @ [c]) \<le> 255"
    using decimal_append_le [of "p @ [c]" s] dig Cons.prems(2) by simp
  ultimately show ?case using Cons.IH [of "p @ [c]"] Cons.prems dig
    by (auto simp: decimal_snoc)
qed simp

lemma ipv4Fields_Some:
  assumes "ipv4Fields s val digLen fields = Some os"
    "val = decimal p" "digLen = length p" "p = [] \<or> canonical p" "decimal p \<le> 255"
    "p = [] \<longrightarrow> s \<noteq> [] \<or> length fields < 3" "length fields \<le> 3"
  shows "length os = 4 \<and> (\<exists>os'. os = fields @ os' \<and> os' \<noteq> [] \<and>
    p @ s = Join (map Itoa os') ''.'' \<and> list_all (\<lambda>n. 0 \<le> n \<and> n \<le> 255) os')"
  using assms
proof (induction s val digLen fields arbitrary: p rule: ipv4Fields.induct)
  case (1 val digLen fields)
  then have "os = fields @ [val]" "length fields = 3" "canonical p" by (auto split: if_splits)
  then show ?case using "1.prems" decimal_nonneg [of p] by (simp add: Itoa_decimal canonical_def)
next
  case (2 c s val digLen fields)
  show ?case
  proof (cases "is_digit c")
    case True
    then have g: "\<not> (digLen = 1 \<and> val = 0)" "10 * val + digit_val c \<le> 255"
      "ipv4Fields s (10 * val + digit_val c) (digLen + 1) fields = Some os"
      using "2.prems"(1) by (auto split: if_splits)
    have "canonical (p @ [c])"
    proof (cases "p = []")
      case False
      moreover from this have "canonical p" using "2.prems"(4) by simp
      moreover have "hd p \<noteq> CHR ''0''"
      proof
        assume "hd p = CHR ''0''"
        moreover from this have "length p = 1" using \<open>canonical p\<close> by (simp add: canonical_def)
        ultimately have "p = ''0''" by (cases p) auto
        with g(1) "2.prems"(2,3) show False by (simp add: decimal_def digit_val_def)
      qed
      ultimately show ?thesis using True by (simp add: canonical_def)
    qed (use True in \<open>simp add: canonical_def\<close>)
    moreover have "\<not> 255 < 10 * val + digit_val c" using g by simp
    ultimately show ?thesis
      using "2.IH"(1) [of "p @ [c]"] True g "2.prems" by (simp add: decimal_snoc)
  next
    case False
    then have g: "c = CHR ''.''" "digLen \<noteq> 0" "s \<noteq> []" "length fields \<noteq> 3"
      "ipv4Fields s 0 0 (fields @ [val]) = Some os"
      using "2.prems"(1) by (auto split: if_splits)
    then have "canonical p" using "2.prems"(3,4) by auto
    have "length os = 4 \<and> (\<exists>os'. os = (fields @ [val]) @ os' \<and> os' \<noteq> [] \<and>
        [] @ s = Join (map Itoa os') ''.'' \<and> list_all (\<lambda>n. 0 \<le> n \<and> n \<le> 255) os')"
      using False g "2.prems" by (intro "2.IH"(2)) (auto simp: decimal_def)
    then obtain os' where os': "length os = 4" "os = fields @ val # os'" "os' \<noteq> []"
      "s = Join (map Itoa os') ''.''" "list_all (\<lambda>n. 0 \<le> n \<and> n \<le> 255) os'" by auto
    obtain o1 os'' where o1: "os' = o1 # os''" using os'(3) by (cases os') auto
    have "0 \<le> val" using \<open>canonical p\<close> "2.prems"(2) decimal_nonneg [of p] by (simp add: canonical_def)
    with os' o1 g(1) \<open>canonical p\<close> "2.prems"(2,5) show ?thesis
      by (intro conjI exI [of _ "val # os'"]) (auto simp: Itoa_decimal)
  qed
qed


lemma uint_addrOfOctets:
  assumes "0 \<le> a" "a \<le> 255" "0 \<le> b" "b \<le> 255" "0 \<le> c" "c \<le> 255" "0 \<le> d" "d \<le> 255"
  shows "uint (addrOfOctets [a, b, c, d]) = 256 * (256 * (256 * a + b) + c) + d"
proof (rule word_of_int_inverse)
  show "word_of_int (256 * (256 * (256 * a + b) + c) + d) = addrOfOctets [a, b, c, d]"
    by (simp add: addrOfOctets_def)
  show "0 \<le> 256 * (256 * (256 * a + b) + c) + d" "256 * (256 * (256 * a + b) + c) + d < 2 ^ LENGTH(32)"
    using assms by auto
qed

lemma uint_drop_bit: "uint (drop_bit k (a :: 32 word)) = uint a div 2 ^ k"
proof -
  have "take_bit 32 (uint a) = uint a" using uint_lt2p [of a] by (simp add: take_bit_int_eq_self)
  then show ?thesis by (simp only: unsigned_drop_bit_eq) (simp add: drop_bit_eq_div)
qed

lemma uint_ucast_drop: "uint (ucast (drop_bit k (a :: 32 word)) :: 8 word) = uint a div 2 ^ k mod 256"
  by (simp only: unsigned_ucast_eq take_bit_eq_mod uint_drop_bit) simp

lemma uint_AsSlice: "map uint (AsSlice a) =
    [uint a div 256 div 256 div 256 mod 256, uint a div 256 div 256 mod 256, uint a div 256 mod 256, uint a mod 256]"
proof -
  have "uint (ucast a :: 8 word) = uint a mod 256" using uint_ucast_drop [of 0 a] by simp
  moreover have "uint a div 2 ^ 16 = uint a div 256 div 256" "uint a div 2 ^ 24 = uint a div 256 div 256 div 256"
    by (simp_all add: zdiv_zmult2_eq [symmetric])
  moreover have "uint a div 2 ^ 8 = uint a div 256" by simp
  ultimately show ?thesis by (simp only: AsSlice_def list.map uint_ucast_drop)
qed

lemma uint_AsSlice_addrOfOctets:
  assumes "length os = 4" "list_all (\<lambda>n. 0 \<le> n \<and> n \<le> 255) os"
  shows "map uint (AsSlice (addrOfOctets os)) = os"
proof -
  obtain a b c d where os: "os = [a, b, c, d]"
    using assms(1) by (auto simp: numeral_eq_Suc length_Suc_conv)
  then have r: "0 \<le> a" "a \<le> 255" "0 \<le> b" "b \<le> 255" "0 \<le> c" "c \<le> 255" "0 \<le> d" "d \<le> 255"
    using assms(2) by auto
  have digit: "(256 * x + y) div 256 = x" "(256 * x + y) mod 256 = y" if "0 \<le> y" "y \<le> 255" for x y :: int
    using that by auto
  show ?thesis unfolding uint_AsSlice os uint_addrOfOctets [OF r]
    using r by (simp only: digit) simp
qed

lemma addrOfOctets_uint_AsSlice: "addrOfOctets (map uint (AsSlice a)) = a"
proof -
  let ?n = "uint a"
  have "?n < 2 ^ 32" using uint_lt2p [of a] by simp
  then have "?n div 256 div 256 div 256 < 256" by simp
  then have top: "?n div 256 div 256 div 256 mod 256 = ?n div 256 div 256 div 256"
    by (simp add: pos_imp_zdiv_nonneg_iff)
  have range: "0 \<le> x mod 256 \<and> x mod 256 \<le> 255" for x :: int
    using pos_mod_bound [of 256 x] by simp
  have "uint (addrOfOctets (map uint (AsSlice a))) =
      256 * (256 * (256 * (?n div 256 div 256 div 256 mod 256) + ?n div 256 div 256 mod 256) +
        ?n div 256 mod 256) + ?n mod 256"
    unfolding uint_AsSlice by (rule uint_addrOfOctets) (simp_all only: range)
  then have "uint (addrOfOctets (map uint (AsSlice a))) = ?n" by (simp only: top mult_div_mod_eq)
  then show ?thesis by (simp only: word_uint_eq_iff)
qed

lemma xor_eq_0: "a XOR b = 0 \<longleftrightarrow> a = (b :: 32 word)"
  by (auto simp: bit_eq_iff bit_xor_iff)

lemma uint_drop_bit_eq: "drop_bit k a = drop_bit k b \<longleftrightarrow> uint a div 2 ^ k = uint b div 2 ^ k" for a b :: "32 word"
  by (simp only: word_uint_eq_iff uint_drop_bit)

lemma PrefixContains_div:
  "PrefixContains (p, n) a \<longleftrightarrow> uint a div 2 ^ (32 - n) = uint p div 2 ^ (32 - n)"
  by (simp only: PrefixContains_def drop_bit_xor xor_eq_0 uint_drop_bit_eq fst_conv snd_conv)

section \<open>Round trip\<close>

lemma IPString_eq: "IPString ip = Join (map Itoa (map uint ip)) ''.''"
  by (simp add: IPString_def comp_def)

lemma uint_byte: "0 \<le> uint (b :: 8 word) \<and> uint b \<le> 255"
  using uint_lt2p [of b] by simp

lemma ipv4Fields_printed:
  assumes "list_all (\<lambda>n. 0 \<le> n \<and> n \<le> 255) (fields @ os)" "length (fields @ os) = 4" "os \<noteq> []"
  shows "ipv4Fields (Join (map Itoa os) ''.'') 0 0 fields = Some (fields @ os)"
  using assms
proof (induction os arbitrary: fields)
  case (Cons n os)
  have n: "canonical (Itoa n)" "decimal (Itoa n) = n" "Itoa n \<noteq> []" "n \<le> 255"
    using Cons.prems(1) canonical_Itoa [of n] decimal_Itoa [of n] by (auto simp: canonical_def)
  have run: "ipv4Fields (Itoa n @ r) 0 0 fields = ipv4Fields r n (length (Itoa n)) fields" for r
    using ipv4Fields_numeral [of "[]" "Itoa n" r fields] n by (simp add: decimal_def)
  show ?case
  proof (cases os)
    case Nil
    then show ?thesis using run [of "[]"] Cons.prems by simp
  next
    case (Cons m ms)
    have ne: "Join (map Itoa os) ''.'' \<noteq> []"
      using canonical_Itoa [of m] Cons.prems(1) Cons by (cases ms) (auto simp: canonical_def)
    have "ipv4Fields (Join (map Itoa os) ''.'') 0 0 (fields @ [n]) = Some ((fields @ [n]) @ os)"
      using Cons.prems Cons by (intro Cons.IH) auto
    moreover have "\<not> is_digit CHR ''.''" by (simp add: is_digit_def)
    moreover have "length fields \<noteq> 3" using Cons.prems(2) Cons by auto
    ultimately show ?thesis using run [of "CHR ''.'' # Join (map Itoa os) ''.''"] Cons n(3) ne by simp
  qed
qed simp

text \<open>An address is read exactly from its own printed form.\<close>

lemma ParseAddr4_iff: "ParseAddr4 s = Some a \<longleftrightarrow> s = IPString (AsSlice a)"
proof
  assume "ParseAddr4 s = Some a"
  then obtain os where os: "ipv4Fields s 0 0 [] = Some os" "a = addrOfOctets os"
    by (auto simp: ParseAddr4_def split: list.splits if_splits)
  have "length os = 4 \<and> (\<exists>os'. os = [] @ os' \<and> os' \<noteq> [] \<and> [] @ s = Join (map Itoa os') ''.'' \<and>
      list_all (\<lambda>n. 0 \<le> n \<and> n \<le> 255) os')"
    by (rule ipv4Fields_Some [OF os(1)]) (simp_all add: decimal_def)
  then have l: "length os = 4" "s = Join (map Itoa os) ''.''" "list_all (\<lambda>n. 0 \<le> n \<and> n \<le> 255) os" by auto
  then show "s = IPString (AsSlice a)"
    using uint_AsSlice_addrOfOctets [OF l(1,3)] os(2) by (simp only: IPString_eq)
next
  assume s: "s = IPString (AsSlice a)"
  let ?os = "map uint (AsSlice a)"
  have "ipv4Fields (Join (map Itoa ?os) ''.'') 0 0 [] = Some ([] @ ?os)"
    by (rule ipv4Fields_printed) (auto simp: AsSlice_def uint_byte list_all_iff simp del: One_nat_def)
  then have f: "ipv4Fields s 0 0 [] = Some ?os" by (simp only: s IPString_eq append_Nil)
  obtain n ms where os: "?os = n # ms" "ms \<noteq> []" by (auto simp: AsSlice_def)
  have dig: "list_all is_digit (Itoa n)"
    using canonical_Itoa [of n] os(1) uint_byte by (auto simp: canonical_def AsSlice_def)
  obtain r where r: "s = Itoa n @ CHR ''.'' # r"
    using s os by (cases ms) (auto simp only: IPString_eq list.map Join.simps append_Cons append_Nil)
  have "dropWhile (\<lambda>c. c \<noteq> CHR ''.'' \<and> c \<noteq> CHR '':'' \<and> c \<noteq> CHR ''%'') s = CHR ''.'' # r"
    unfolding r using dig by (intro dropWhile_append_stop) (auto simp: list_all_iff is_digit_def)
  then show "ParseAddr4 s = Some a"
    using f addrOfOctets_uint_AsSlice [of a] by (simp add: ParseAddr4_def)
qed

end
