(* ===== verification/RtcServer.thy ===== *)
theory RtcServer
  imports SessionProperties SdpPipeline GoNet
begin

text \<open>
  \<^verbatim>\<open>internal/rtc/server.go\<close>: \<^verbatim>\<open>NewServer\<close>, which checks the options and sets Pion up, and
  \<^verbatim>\<open>NewSession\<close>, which answers an offer.  Pion is not part of the repository: what its calls
  return is an argument, and what it was told is part of the result.
\<close>

section \<open>The server\<close>

datatype networkType = NetworkTypeUDP4 | NetworkTypeUDP6 | NetworkTypeTCP4 | NetworkTypeTCP6

datatype mdnsMode = MulticastDNSModeDisabled | MulticastDNSModeQueryOnly | MulticastDNSModeQueryAndGather

datatype candidateType = ICECandidateTypeHost | ICECandidateTypeSrflx

datatype rewriteMode = ICEAddressRewriteReplace | ICEAddressRewriteAppend

record codecParameters =
  MimeType :: string
  ClockRate :: nat
  Channels :: nat
  SDPFmtpLine :: string
  PayloadType :: nat

record rewriteRule =
  External :: "string list"
  AsCandidateType :: candidateType
  RewriteMode :: rewriteMode
  RewriteNetworks :: "networkType list"

record settingEngine =
  codecs :: "codecParameters list"
  networkTypes :: "networkType list"
  mdns :: mdnsMode
  lite :: bool
  udpPorts :: "16 word \<times> 16 word"
  rewriteRules :: "rewriteRule list"

record OGGFactory =
  factoryDir :: string

definition NewFactory :: "string \<Rightarrow> OGGFactory" where
  "NewFactory dir = \<lparr>factoryDir = dir\<rparr>"

text \<open>\<^verbatim>\<open>Options\<close>; \<open>[]\<close> is a nil address and \<open>None\<close> a nil factory.\<close>

record Options =
  optPublicIP :: IP
  optUDPPortMin :: "16 word"
  optUDPPortMax :: "16 word"
  optICELite :: bool
  optAudioPrimeEnabled :: bool
  optAudioPrimeDuration :: duration
  optAudioPrimeMode :: string
  optRecordings :: "OGGFactory option"
  optAnswerTimeout :: duration
  optDisconnectGrace :: duration

record Server =
  api :: settingEngine
  srvRecordings :: OGGFactory
  answerTimeout :: duration
  srvDisconnectGrace :: duration
  srvAudioPrimeEnabled :: bool
  srvAudioPrimeDuration :: duration
  srvAudioPrimeMode :: string

datatype serverError =
    PublicIPRequired
  | PortRangeRequired
  | RecordingsRequired
  | PrimeDurationRequired
  | PrimeModeUnknown
  | RegisterCodecFailed string
  | PortRangeFailed string
  | RewriteFailed string

text \<open>The calls of Pion that can fail while the server is set up.\<close>

record pionSetup =
  registerCodec :: "codecParameters \<Rightarrow> string option"
  setEphemeralUDPPortRange :: "16 word \<Rightarrow> 16 word \<Rightarrow> string option"
  setICEAddressRewriteRules :: "rewriteRule \<Rightarrow> string option"

definition opusCodec :: codecParameters where
  "opusCodec = \<lparr>MimeType = ''audio/opus'', ClockRate = 48000, Channels = 2,
     SDPFmtpLine = ''minptime=10;useinbandfec=1'', PayloadType = 111\<rparr>"

definition rewriteRuleFor :: "IP \<Rightarrow> rewriteRule" where
  "rewriteRuleFor ip = \<lparr>External = [IPString ip], AsCandidateType = ICECandidateTypeHost,
     RewriteMode = ICEAddressRewriteReplace, RewriteNetworks = [NetworkTypeUDP4]\<rparr>"

text \<open>The defaults that \<^verbatim>\<open>NewServer\<close> puts into the options.\<close>

definition withDefaults :: "Options \<Rightarrow> Options" where
  "withDefaults opts = opts
     \<lparr>optAnswerTimeout := (if optAnswerTimeout opts \<le> 0 then 4500 * millisecond else optAnswerTimeout opts),
      optDisconnectGrace := (if optDisconnectGrace opts \<le> 0 then 5 * second else optDisconnectGrace opts),
      optAudioPrimeDuration := (if optAudioPrimeDuration opts \<le> 0 then 10 * second else optAudioPrimeDuration opts)\<rparr>"

definition primeModeOf :: "Options \<Rightarrow> string" where
  "primeModeOf opts = (if optAudioPrimeMode opts = '''' then audioPrimeModeSilence else optAudioPrimeMode opts)"

definition NewServer :: "pionSetup \<Rightarrow> Options \<Rightarrow> (serverError, Server) result" where
  "NewServer pion options =
     andThen (require (To4 (optPublicIP options) \<noteq> None) PublicIPRequired) (\<lambda>_.
     andThen (require (optUDPPortMin options \<noteq> 0 \<and> optUDPPortMin options \<le> optUDPPortMax options) PortRangeRequired) (\<lambda>_.
     andThen (case optRecordings options of None \<Rightarrow> Inl RecordingsRequired | Some f \<Rightarrow> Inr f) (\<lambda>recordings.
     let opts = withDefaults options in
     andThen (require (audioPrimeFrameDuration \<le> optAudioPrimeDuration opts \<and>
       optAudioPrimeDuration opts mod audioPrimeFrameDuration = 0) PrimeDurationRequired) (\<lambda>_.
     let mode = primeModeOf opts in
     andThen (require (mode = audioPrimeModeSilence \<or> mode = audioPrimeModeTone) PrimeModeUnknown) (\<lambda>_.
     andThen (case registerCodec pion opusCodec of Some e \<Rightarrow> Inl (RegisterCodecFailed e) | None \<Rightarrow> Inr ()) (\<lambda>_.
     andThen (case setEphemeralUDPPortRange pion (optUDPPortMin opts) (optUDPPortMax opts) of
       Some e \<Rightarrow> Inl (PortRangeFailed e) | None \<Rightarrow> Inr ()) (\<lambda>_.
     andThen (case setICEAddressRewriteRules pion (rewriteRuleFor (optPublicIP opts)) of
       Some e \<Rightarrow> Inl (RewriteFailed e) | None \<Rightarrow> Inr ()) (\<lambda>_.
     Inr \<lparr>api = \<lparr>codecs = [opusCodec], networkTypes = [NetworkTypeUDP4], mdns = MulticastDNSModeDisabled,
            lite = optICELite opts, udpPorts = (optUDPPortMin opts, optUDPPortMax opts),
            rewriteRules = [rewriteRuleFor (optPublicIP opts)]\<rparr>,
          srvRecordings = recordings, answerTimeout = optAnswerTimeout opts,
          srvDisconnectGrace = optDisconnectGrace opts, srvAudioPrimeEnabled = optAudioPrimeEnabled opts,
          srvAudioPrimeDuration = optAudioPrimeDuration opts, srvAudioPrimeMode = mode\<rparr>))))))))"

section \<open>Answering an offer\<close>

datatype gatherOutcome = Gathered "string option" | DeadlineExceeded string

text \<open>What the calls of one \<^verbatim>\<open>NewSession\<close> return: \<open>None\<close> is a nil error.\<close>

record pionPeer =
  ctxErr :: "string option"
  newPeerConnection :: "string option"
  newTrackLocal :: "string option"
  addTrack :: "string option"
  setRemoteDescription :: "string \<Rightarrow> string option"
  createAnswer :: "(string, string) result"
  setLocalDescription :: "string \<Rightarrow> string option"
  gather :: gatherOutcome
  closePeerConnection :: "string option"

record answerLog =
  offerBytes :: nat
  answerBytes :: nat
  offerMetadata :: iceSDPLogMetadata
  answerMetadata :: iceSDPLogMetadata

text \<open>The ways \<^verbatim>\<open>NewSession\<close> ends: before there is a peer connection, with a peer connection and no
  session (and how often \<^verbatim>\<open>NewSession\<close> itself called \<^verbatim>\<open>peer.Close\<close>), with an abandoned session (which
  counts the calls of \<^verbatim>\<open>peer.Close\<close> in \<open>peerCloses\<close>), or with a session and its answer.\<close>

datatype 'w sessionOutcome =
    NoPeer rtcError
  | PeerOnly nat rtcError
  | Abandoned "'w session" rtcError
  | Ready "'w session" string answerLog

definition sessionConfigOf :: "Server \<Rightarrow> bool \<Rightarrow> sessionConfig" where
  "sessionConfigOf srv onTerminal =
     \<lparr>disconnectGrace = srvDisconnectGrace srv, audioPrimeEnabled = srvAudioPrimeEnabled srv,
      audioPrimeDuration = srvAudioPrimeDuration srv, audioPrimeMode = srvAudioPrimeMode srv,
      hasPrimeWriter = True, hasOnTerminal = onTerminal\<rparr>"

text \<open>Once the callbacks are registered other goroutines work on the session between any two calls.
  Their steps are lists of events of the session's machine; a list that is not possible is
  taken as no step.\<close>

definition meanwhile ::
  "sessionConfig \<Rightarrow> ('w \<Rightarrow> 'p \<Rightarrow> 'w \<times> string option) \<Rightarrow> ('w \<Rightarrow> 'w \<times> string option) \<Rightarrow>
   ('w, 'p) sessionEvent list \<Rightarrow> 'w session \<Rightarrow> 'w session" where
  "meanwhile cfg W C events s = (case sessionRuns cfg W C events s of None \<Rightarrow> s | Some s' \<Rightarrow> s')"

definition answerReady :: "(string \<Rightarrow> bool) \<Rightarrow> string \<Rightarrow> string \<Rightarrow> 'w session \<Rightarrow> 'w sessionOutcome" where
  "answerReady unmarshalOk offer local s =
     (let answer = normalizeAnswer unmarshalOk offer local in
      Ready s answer \<lparr>offerBytes = length offer, answerBytes = length answer,
        offerMetadata = extractICESDPLogMetadata offer, answerMetadata = extractICESDPLogMetadata answer\<rparr>)"

definition NewSession ::
  "(string \<Rightarrow> string + mediaDescription list) \<Rightarrow> (string \<Rightarrow> bool) \<Rightarrow> ('w \<Rightarrow> 'p \<Rightarrow> 'w \<times> string option) \<Rightarrow>
   ('w \<Rightarrow> 'w \<times> string option) \<Rightarrow> Server \<Rightarrow> pionPeer \<Rightarrow> (nat \<Rightarrow> ('w, 'p) sessionEvent list) \<Rightarrow>
   bool \<Rightarrow> string \<Rightarrow> string \<Rightarrow> 'w sessionOutcome" where
  "NewSession unmarshal unmarshalOk W C srv pion between onTerminal sid offer =
     (let cfg = sessionConfigOf srv onTerminal;
          abandon = (\<lambda>err s. Abandoned (fst (Close cfg C (closePeerConnection pion) s)) err) in
      case ctxErr pion of Some e \<Rightarrow> NoPeer (Wrapped ErrAnswerTimeout e) | None \<Rightarrow>
      (case validateOffer unmarshal offer of Some err \<Rightarrow> NoPeer err | None \<Rightarrow>
      (case newPeerConnection pion of Some e \<Rightarrow> NoPeer (OtherError (''create peer connection: '' @ e)) | None \<Rightarrow>
      (case newTrackLocal pion of
         Some e \<Rightarrow> PeerOnly 1 (OtherError (''create local Opus track: '' @ e))
       | None \<Rightarrow>
      (let s0 = meanwhile cfg W C (between 0) (newSession sid) in
       case addTrack pion of Some e \<Rightarrow> abandon (OtherError (''add local Opus track: '' @ e)) s0 | None \<Rightarrow>
      (let s1 = meanwhile cfg W C (between 1) s0 in
       case setRemoteDescription pion offer of Some e \<Rightarrow> abandon (Wrapped ErrInvalidSDP e) s1 | None \<Rightarrow>
      (let s2 = meanwhile cfg W C (between 2) s1 in
       case createAnswer pion of Inl e \<Rightarrow> abandon (OtherError (''create answer: '' @ e)) s2 | Inr answer \<Rightarrow>
      (let s3 = meanwhile cfg W C (between 3) s2 in
       case setLocalDescription pion answer of
         Some e \<Rightarrow> abandon (OtherError (''set local description: '' @ e)) s3
       | None \<Rightarrow>
      (let s4 = meanwhile cfg W C (between 4) s3 in
       case gather pion of
         DeadlineExceeded e \<Rightarrow> abandon (Wrapped ErrAnswerTimeout e) s4
       | Gathered None \<Rightarrow> abandon (OtherError ''local description missing after ICE gathering'') s4
       | Gathered (Some local) \<Rightarrow> answerReady unmarshalOk offer local s4)))))))))"

end
