(* ===== verification/RtcServerProperties.thy ===== *)
theory RtcServerProperties
  imports RtcServer
begin

text \<open>
  What \<^verbatim>\<open>NewServer\<close> and \<^verbatim>\<open>NewSession\<close> guarantee: the settings Pion gets, the values the sessions
  rely on, the error classes, and that no path leaves a peer connection or a session open.
\<close>

section \<open>NewServer\<close>

definition validOptions :: "Options \<Rightarrow> bool" where
  "validOptions o1 =
     (To4 (optPublicIP o1) \<noteq> None \<and> optUDPPortMin o1 \<noteq> 0 \<and> optUDPPortMin o1 \<le> optUDPPortMax o1 \<and>
      optRecordings o1 \<noteq> None \<and>
      (0 < optAudioPrimeDuration o1 \<longrightarrow> audioPrimeFrameDuration \<le> optAudioPrimeDuration o1 \<and>
         optAudioPrimeDuration o1 mod audioPrimeFrameDuration = 0) \<and>
      (optAudioPrimeMode o1 = '''' \<or> optAudioPrimeMode o1 = ''silence'' \<or> optAudioPrimeMode o1 = ''tone''))"

definition pionRefuses :: "pionSetup \<Rightarrow> Options \<Rightarrow> serverError option" where
  "pionRefuses pion o1 =
     (case registerCodec pion opusCodec of Some e \<Rightarrow> Some (RegisterCodecFailed e) | None \<Rightarrow>
     (case setEphemeralUDPPortRange pion (optUDPPortMin o1) (optUDPPortMax o1) of
        Some e \<Rightarrow> Some (PortRangeFailed e) | None \<Rightarrow>
      map_option RewriteFailed (setICEAddressRewriteRules pion (rewriteRuleFor (optPublicIP o1)))))"

lemma withDefaults_simps [simp]:
  "optPublicIP (withDefaults o1) = optPublicIP o1" "optUDPPortMin (withDefaults o1) = optUDPPortMin o1"
  "optUDPPortMax (withDefaults o1) = optUDPPortMax o1" "optICELite (withDefaults o1) = optICELite o1"
  "optAudioPrimeEnabled (withDefaults o1) = optAudioPrimeEnabled o1"
  "primeModeOf (withDefaults o1) = primeModeOf o1"
  by (simp_all add: withDefaults_def primeModeOf_def)

lemma defaults_prime:
  "audioPrimeFrameDuration \<le> optAudioPrimeDuration (withDefaults o1) \<and>
   optAudioPrimeDuration (withDefaults o1) mod audioPrimeFrameDuration = 0 \<longleftrightarrow>
   (0 < optAudioPrimeDuration o1 \<longrightarrow> audioPrimeFrameDuration \<le> optAudioPrimeDuration o1 \<and>
      optAudioPrimeDuration o1 mod audioPrimeFrameDuration = 0)"
  by (auto simp: withDefaults_def)

lemma validOptions_prime:
  "validOptions o1 \<Longrightarrow> audioPrimeFrameDuration \<le> optAudioPrimeDuration (withDefaults o1) \<and>
   optAudioPrimeDuration (withDefaults o1) mod audioPrimeFrameDuration = 0"
  unfolding defaults_prime validOptions_def by (elim conjE)

definition serverOf :: "OGGFactory \<Rightarrow> Options \<Rightarrow> Server" where
  "serverOf recordings o1 =
     \<lparr>api = \<lparr>codecs = [opusCodec], networkTypes = [NetworkTypeUDP4], mdns = MulticastDNSModeDisabled,
            lite = optICELite o1, udpPorts = (optUDPPortMin o1, optUDPPortMax o1),
            rewriteRules = [rewriteRuleFor (optPublicIP o1)]\<rparr>,
      srvRecordings = recordings, answerTimeout = optAnswerTimeout (withDefaults o1),
      srvDisconnectGrace = optDisconnectGrace (withDefaults o1), srvAudioPrimeEnabled = optAudioPrimeEnabled o1,
      srvAudioPrimeDuration = optAudioPrimeDuration (withDefaults o1), srvAudioPrimeMode = primeModeOf o1\<rparr>"

lemma NewServer_valid:
  assumes "validOptions o1"
  shows "NewServer pion o1 = (case pionRefuses pion o1 of Some e \<Rightarrow> Inl e | None \<Rightarrow> Inr (serverOf (the (optRecordings o1)) o1))"
proof -
  have p: "audioPrimeFrameDuration \<le> optAudioPrimeDuration (withDefaults o1) \<and>
      optAudioPrimeDuration (withDefaults o1) mod audioPrimeFrameDuration = 0" by (rule validOptions_prime [OF assms])
  have m: "primeModeOf o1 = ''silence'' \<or> primeModeOf o1 = ''tone''"
    using assms by (auto simp: validOptions_def primeModeOf_def)
  obtain f where v: "To4 (optPublicIP o1) \<noteq> None" "optUDPPortMin o1 \<noteq> 0 \<and> optUDPPortMin o1 \<le> optUDPPortMax o1"
    "optRecordings o1 = Some f"
    using assms by (auto simp: validOptions_def)
  have req: "b \<Longrightarrow> require b e = Inr ()" for b and e :: serverError by simp
  show ?thesis
    unfolding NewServer_def Let_def withDefaults_simps req [OF p] req [OF m] req [OF v(1)] req [OF v(2)] v(3)
      andThen_simps option.case option.sel pionRefuses_def serverOf_def
    by (simp split: option.split)
qed

lemma NewServer_Inr: "NewServer pion o1 = Inr srv \<Longrightarrow> validOptions o1"
proof -
  assume n: "NewServer pion o1 = Inr srv"
  have "To4 (optPublicIP o1) \<noteq> None \<and> (optUDPPortMin o1 \<noteq> 0 \<and> optUDPPortMin o1 \<le> optUDPPortMax o1) \<and>
      (\<exists>f. (case optRecordings o1 of None \<Rightarrow> Inl RecordingsRequired | Some f \<Rightarrow> Inr f) = Inr f) \<and>
      (audioPrimeFrameDuration \<le> optAudioPrimeDuration (withDefaults o1) \<and>
        optAudioPrimeDuration (withDefaults o1) mod audioPrimeFrameDuration = 0) \<and>
      (primeModeOf o1 = ''silence'' \<or> primeModeOf o1 = ''tone'')"
    using n unfolding NewServer_def Let_def andThen_Inr require_Inr withDefaults_simps by (elim exE conjE) blast
  then show ?thesis unfolding defaults_prime
    by (simp only: validOptions_def primeModeOf_def split: option.splits if_splits) simp_all
qed

text \<open>C33: \<^verbatim>\<open>NewServer\<close> succeeds exactly if the options are valid and Pion accepts them; with valid options
  the only errors are Pion's.  The server it returns offers only Opus at 48 kHz with two
  channels as payload type 111, over UDP of version 4 within the configured ports, with
  multicast DNS off and ICE lite as configured, and the one rewrite rule replaces the addresses
  of host candidates on UDP of version 4 by the public address.  Its timeouts and its priming
  are those of the options, with 4.5 seconds for an answer, 5 seconds of grace, 10 seconds of
  priming and silence where an option is not set; the timeouts are positive and the priming is
  a positive whole number of frames in a known mode.\<close>

theorem NewServer_correct:
  "(is_ok (NewServer pion o1) \<longleftrightarrow> validOptions o1 \<and> pionRefuses pion o1 = None) \<and>
   (validOptions o1 \<longrightarrow> (case NewServer pion o1 of Inl e \<Rightarrow> pionRefuses pion o1 = Some e
      | Inr srv \<Rightarrow> optRecordings o1 = Some (srvRecordings srv) \<and> 0 < answerTimeout srv \<and> 0 < srvDisconnectGrace srv \<and>
          1 \<le> primeTarget (srvAudioPrimeDuration srv) \<and>
          primeTarget (srvAudioPrimeDuration srv) * audioPrimeFrameDuration = srvAudioPrimeDuration srv \<and>
          srvAudioPrimeMode srv \<in> {''silence'', ''tone''} \<and>
          codecs (api srv) = [\<lparr>MimeType = ''audio/opus'', ClockRate = 48000, Channels = 2,
            SDPFmtpLine = ''minptime=10;useinbandfec=1'', PayloadType = 111\<rparr>] \<and>
          networkTypes (api srv) = [NetworkTypeUDP4] \<and> mdns (api srv) = MulticastDNSModeDisabled \<and>
          udpPorts (api srv) = (optUDPPortMin o1, optUDPPortMax o1) \<and> lite (api srv) = optICELite o1 \<and>
          rewriteRules (api srv) = [\<lparr>External = [IPString (optPublicIP o1)], AsCandidateType = ICECandidateTypeHost,
            RewriteMode = ICEAddressRewriteReplace, RewriteNetworks = [NetworkTypeUDP4]\<rparr>] \<and>
          answerTimeout srv = (if 0 < optAnswerTimeout o1 then optAnswerTimeout o1 else 4500 * millisecond) \<and>
          srvDisconnectGrace srv = (if 0 < optDisconnectGrace o1 then optDisconnectGrace o1 else 5 * second) \<and>
          srvAudioPrimeDuration srv = (if 0 < optAudioPrimeDuration o1 then optAudioPrimeDuration o1 else 10 * second) \<and>
          srvAudioPrimeMode srv = (if optAudioPrimeMode o1 = [] then ''silence'' else optAudioPrimeMode o1) \<and>
          srvAudioPrimeEnabled srv = optAudioPrimeEnabled o1))"
proof (intro conjI impI)
  show "is_ok (NewServer pion o1) \<longleftrightarrow> validOptions o1 \<and> pionRefuses pion o1 = None"
    using NewServer_valid [of o1 pion] NewServer_Inr [of pion o1]
    by (cases "validOptions o1") (auto simp: is_ok_iff split: option.splits)
next
  assume v: "validOptions o1"
  let ?d = "optAudioPrimeDuration (withDefaults o1)"
  have d: "audioPrimeFrameDuration \<le> ?d" "?d mod audioPrimeFrameDuration = 0"
    using validOptions_prime [OF v] by blast+
  have "optAnswerTimeout (withDefaults o1) = (if 0 < optAnswerTimeout o1 then optAnswerTimeout o1 else 4500 * millisecond)"
    "optDisconnectGrace (withDefaults o1) = (if 0 < optDisconnectGrace o1 then optDisconnectGrace o1 else 5 * second)"
    "?d = (if 0 < optAudioPrimeDuration o1 then optAudioPrimeDuration o1 else 10 * second)"
    "primeModeOf o1 = (if optAudioPrimeMode o1 = [] then ''silence'' else optAudioPrimeMode o1)"
    by (simp_all add: withDefaults_def primeModeOf_def)
  moreover have "0 < optAnswerTimeout (withDefaults o1)" "0 < optDisconnectGrace (withDefaults o1)"
    by (simp_all add: withDefaults_def)
  moreover have "1 \<le> primeTarget ?d" "primeTarget ?d * audioPrimeFrameDuration = ?d"
    using d by (auto simp: primeTarget_def zdiv_mono1 [of audioPrimeFrameDuration ?d audioPrimeFrameDuration])
  moreover have "primeModeOf o1 \<in> {''silence'', ''tone''}" using v by (auto simp: validOptions_def primeModeOf_def)
  moreover obtain f where "optRecordings o1 = Some f" using v by (auto simp: validOptions_def)
  ultimately show "case NewServer pion o1 of Inl e \<Rightarrow> pionRefuses pion o1 = Some e
      | Inr srv \<Rightarrow> optRecordings o1 = Some (srvRecordings srv) \<and> 0 < answerTimeout srv \<and> 0 < srvDisconnectGrace srv \<and>
          1 \<le> primeTarget (srvAudioPrimeDuration srv) \<and>
          primeTarget (srvAudioPrimeDuration srv) * audioPrimeFrameDuration = srvAudioPrimeDuration srv \<and>
          srvAudioPrimeMode srv \<in> {''silence'', ''tone''} \<and>
          codecs (api srv) = [\<lparr>MimeType = ''audio/opus'', ClockRate = 48000, Channels = 2,
            SDPFmtpLine = ''minptime=10;useinbandfec=1'', PayloadType = 111\<rparr>] \<and>
          networkTypes (api srv) = [NetworkTypeUDP4] \<and> mdns (api srv) = MulticastDNSModeDisabled \<and>
          udpPorts (api srv) = (optUDPPortMin o1, optUDPPortMax o1) \<and> lite (api srv) = optICELite o1 \<and>
          rewriteRules (api srv) = [\<lparr>External = [IPString (optPublicIP o1)], AsCandidateType = ICECandidateTypeHost,
            RewriteMode = ICEAddressRewriteReplace, RewriteNetworks = [NetworkTypeUDP4]\<rparr>] \<and>
          answerTimeout srv = (if 0 < optAnswerTimeout o1 then optAnswerTimeout o1 else 4500 * millisecond) \<and>
          srvDisconnectGrace srv = (if 0 < optDisconnectGrace o1 then optDisconnectGrace o1 else 5 * second) \<and>
          srvAudioPrimeDuration srv = (if 0 < optAudioPrimeDuration o1 then optAudioPrimeDuration o1 else 10 * second) \<and>
          srvAudioPrimeMode srv = (if optAudioPrimeMode o1 = [] then ''silence'' else optAudioPrimeMode o1) \<and>
          srvAudioPrimeEnabled srv = optAudioPrimeEnabled o1"
    unfolding NewServer_valid [OF v] serverOf_def rewriteRuleFor_def opusCodec_def
    by (cases "pionRefuses pion o1") (simp_all only: option.case sum.case option.sel Server.select_convs settingEngine.select_convs simp_thms)
qed

theorem NewServer_correct_witness:
  "case NewServer \<lparr>registerCodec = (\<lambda>_. None), setEphemeralUDPPortRange = (\<lambda>_ _. None),
      setICEAddressRewriteRules = (\<lambda>_. None)\<rparr>
    \<lparr>optPublicIP = [8, 8, 4, 4], optUDPPortMin = 40000, optUDPPortMax = 40020, optICELite = True,
     optAudioPrimeEnabled = True, optAudioPrimeDuration = 0, optAudioPrimeMode = [],
     optRecordings = Some (NewFactory ''/data''), optAnswerTimeout = 0, optDisconnectGrace = 7 * second\<rparr> of
     Inl e \<Rightarrow> False
   | Inr srv \<Rightarrow> answerTimeout srv = 4500 * millisecond \<and> srvDisconnectGrace srv = 7 * second \<and>
       srvAudioPrimeDuration srv = 10 * second \<and> mdns (api srv) = MulticastDNSModeDisabled"
  (is "case NewServer ?pion ?o of Inl e \<Rightarrow> False | Inr srv \<Rightarrow> ?P srv")
proof -
  have v: "validOptions ?o" by (simp add: validOptions_def To4_def)
  moreover have "pionRefuses ?pion ?o = None" by (simp add: pionRefuses_def)
  ultimately have "is_ok (NewServer ?pion ?o)" using NewServer_correct [of ?pion ?o] by blast
  then obtain srv where s: "NewServer ?pion ?o = Inr srv" by (auto simp: is_ok_iff)
  with v NewServer_correct [of ?pion ?o] have "?P srv" by simp
  then show ?thesis unfolding s by simp
qed

section \<open>NewSession\<close>

lemma meanwhile_reachable:
  "sessionReachable cfg W C s \<Longrightarrow> sessionReachable cfg W C (meanwhile cfg W C events s)"
  by (auto simp: meanwhile_def split: option.split intro: sess.reachable_runs)

lemma fresh_reachable: "sessionReachable cfg W C (newSession sid)"
  by (rule sess.reach_start) (auto simp: fresh_def)

lemmas session_reachable = meanwhile_reachable fresh_reachable closeRun_reachable

text \<open>What a reachable session that is closed has given back.\<close>

definition released :: "sessionConfig \<Rightarrow> 'w session \<Rightarrow> bool" where
  "released cfg s = (closeOnce s = CloseDone \<and> list_all closed (recorders s) \<and> recorder s = None \<and>
     disconnectTimer s = None \<and> expiryTimer s = None \<and> peerCloses s = 1 \<and>
     terminalCalls s = (if hasOnTerminal cfg then 1 else 0))"

lemma reachable_released: "sessionReachable cfg W C s \<Longrightarrow> closeOnce s = CloseDone \<Longrightarrow> released cfg s"
proof -
  assume r: "sessionReachable cfg W C s" and d: "closeOnce s = CloseDone"
  have inv: "sessionInv cfg s" by (rule sess.inv_reachable [OF r])
  then have "recOk (recorders s) (recorder s) (closeRecorderVar s) (closeOnce s)"
    by (simp add: sessionInv_def inv_rec_def)
  then have "list_all closed (recorders s)" "recorder s = None" using d by (auto elim: recOk_cases)
  then show ?thesis using inv d by (simp add: released_def sessionInv_def inv_once_def inv_timer_eq)
qed

lemma Close_released:
  "sessionReachable cfg W C s \<Longrightarrow> released cfg (fst (Close cfg C pe s))"
  using closeRun_reachable [of cfg W C s pe]
  by (auto simp: Close_def Let_def closeRun_done intro: reachable_released)

fun outcomeError :: "'w sessionOutcome \<Rightarrow> rtcError option" where
  "outcomeError (NoPeer e) = Some e"
| "outcomeError (PeerOnly n e) = Some e"
| "outcomeError (Abandoned s e) = Some e"
| "outcomeError (Ready s answer log) = None"

text \<open>The calls up to the wait for the candidates have all succeeded.\<close>

definition negotiated ::
  "(string \<Rightarrow> string + mediaDescription list) \<Rightarrow> pionPeer \<Rightarrow> string \<Rightarrow> bool" where
  "negotiated unmarshal pion offer =
     (ctxErr pion = None \<and> validateOffer unmarshal offer = None \<and> newPeerConnection pion = None \<and>
      newTrackLocal pion = None \<and> addTrack pion = None \<and> setRemoteDescription pion offer = None \<and>
      (case createAnswer pion of Inl e \<Rightarrow> False | Inr answer \<Rightarrow> setLocalDescription pion answer = None))"

lemma outcome_released:
  "case NewSession unmarshal U W C srv pion between onTerminal sid offer of
     Ready s answer log \<Rightarrow> sessionReachable (sessionConfigOf srv onTerminal) W C s \<and> negotiated unmarshal pion offer \<and>
       (\<exists>local. gather pion = Gathered (Some local) \<and> answer = normalizeAnswer U offer local) \<and>
       offerBytes log = length offer \<and> answerBytes log = length answer \<and>
       answerMetadata log = extractICESDPLogMetadata answer
   | Abandoned s err \<Rightarrow> released (sessionConfigOf srv onTerminal) s \<and> newPeerConnection pion = None
   | PeerOnly closes err \<Rightarrow> closes = 1 \<and> newPeerConnection pion = None \<and> newTrackLocal pion \<noteq> None
   | NoPeer err \<Rightarrow> \<not> (ctxErr pion = None \<and> validateOffer unmarshal offer = None \<and> newPeerConnection pion = None)"
  unfolding NewSession_def Let_def
  by (simp split: option.split sum.split gatherOutcome.split)
    (auto simp: answerReady_def negotiated_def Let_def intro!: Close_released [where W = W] session_reachable)

text \<open>C9: no path of \<^verbatim>\<open>NewSession\<close> leaves anything open, whatever the callbacks do to the session
  meanwhile: an error after the session was made comes with a session that has closed its
  peer connection once, its recorders and its timers and has told its owner once; otherwise
  there was no peer connection, or there is no session yet and the peer connection was closed
  once directly.  On success the session is in a
  state its own goroutines can have produced and the answer is the normalised local
  description, with the lengths and metadata that are logged.\<close>

theorem NewSession_released:
  "case NewSession unmarshal U W C srv pion between onTerminal sid offer of
     Ready s answer log \<Rightarrow> sessionReachable (sessionConfigOf srv onTerminal) W C s \<and> negotiated unmarshal pion offer \<and>
       (\<exists>local. gather pion = Gathered (Some local) \<and> answer = normalizeAnswer U offer local) \<and>
       offerBytes log = length offer \<and> answerBytes log = length answer \<and>
       answerMetadata log = extractICESDPLogMetadata answer
   | Abandoned s err \<Rightarrow> released (sessionConfigOf srv onTerminal) s \<and> newPeerConnection pion = None
   | PeerOnly closes err \<Rightarrow> closes = 1 \<and> newPeerConnection pion = None \<and> newTrackLocal pion \<noteq> None
   | NoPeer err \<Rightarrow> \<not> (ctxErr pion = None \<and> validateOffer unmarshal offer = None \<and> newPeerConnection pion = None)"
  by (rule outcome_released)

lemma outcome_errors:
  assumes "result = outcomeError (NewSession unmarshal U W C srv pion between onTerminal sid offer)"
  shows "(result = None \<longleftrightarrow> negotiated unmarshal pion offer \<and> (\<exists>local. gather pion = Gathered (Some local))) \<and>
    (\<forall>err. result = Some err \<longrightarrow>
      (errorsIs err ErrAnswerTimeout \<longleftrightarrow>
         ctxErr pion \<noteq> None \<or> negotiated unmarshal pion offer \<and> (\<exists>e. gather pion = DeadlineExceeded e)) \<and>
      (errorsIs err ErrInvalidSDP \<longleftrightarrow> ctxErr pion = None \<and> (\<not> is_ok (unmarshal offer) \<or>
         validateOffer unmarshal offer = None \<and> newPeerConnection pion = None \<and> newTrackLocal pion = None \<and>
         addTrack pion = None \<and> setRemoteDescription pion offer \<noteq> None)) \<and>
      (errorsIs err ErrOpusRequired \<longleftrightarrow>
         ctxErr pion = None \<and> is_ok (unmarshal offer) \<and> validateOffer unmarshal offer \<noteq> None) \<and>
      \<not> errorsIs err ErrSessionExists \<and> \<not> errorsIs err ErrSessionNotFound)"
proof -
  have v: "validateOffer unmarshal offer = Some err \<longleftrightarrow>
      (\<exists>e. unmarshal offer = Inl e \<and> err = Wrapped ErrInvalidSDP e) \<or>
      (\<exists>ms. unmarshal offer = Inr ms \<and> \<not> list_ex opusMedia ms \<and>
        err = (if list_ex (\<lambda>m. mdMedia m = ''audio'') ms then ErrOpusRequired
               else Wrapped ErrOpusRequired ''audio media section is missing''))" for err
    by (auto simp: validateOffer_def validateMedia_eq split: sum.split)
  show ?thesis
  proof (cases "ctxErr pion")
    case (Some e)
    then show ?thesis by (simp add: assms NewSession_def negotiated_def Let_def)
  next
    case ctx: None
    show ?thesis
    proof (cases "validateOffer unmarshal offer")
      case (Some err)
      then have "result = Some err" using ctx by (simp add: assms NewSession_def Let_def)
      then show ?thesis using ctx Some v [of err] by (auto simp: negotiated_def is_ok_iff split: if_splits)
    next
      case None
      then have "is_ok (unmarshal offer)" by (auto simp: validateOffer_def is_ok_iff split: sum.splits)
      then show ?thesis unfolding assms NewSession_def Let_def
        using ctx None by (simp split: option.split sum.split gatherOutcome.split)
          (auto simp: negotiated_def answerReady_def Let_def)
    qed
  qed
qed

text \<open>C15: the error classes of \<^verbatim>\<open>NewSession\<close>, which decide the status of the HTTP response.  A timeout
  means that the deadline had passed at the start or passed while candidates were gathered; an
  invalid SDP that the offer could not be parsed or Pion refused it; a missing codec that the
  offer was parsed and has no usable Opus section.  The errors of the manager never occur.\<close>

theorem NewSession_errors:
  assumes "result = outcomeError (NewSession unmarshal U W C srv pion between onTerminal sid offer)"
  shows "(result = None \<longleftrightarrow> negotiated unmarshal pion offer \<and> (\<exists>local. gather pion = Gathered (Some local))) \<and>
    (\<forall>err. result = Some err \<longrightarrow>
      (errorsIs err ErrAnswerTimeout \<longleftrightarrow>
         ctxErr pion \<noteq> None \<or> negotiated unmarshal pion offer \<and> (\<exists>e. gather pion = DeadlineExceeded e)) \<and>
      (errorsIs err ErrInvalidSDP \<longleftrightarrow> ctxErr pion = None \<and> (\<not> is_ok (unmarshal offer) \<or>
         validateOffer unmarshal offer = None \<and> newPeerConnection pion = None \<and> newTrackLocal pion = None \<and>
         addTrack pion = None \<and> setRemoteDescription pion offer \<noteq> None)) \<and>
      (errorsIs err ErrOpusRequired \<longleftrightarrow>
         ctxErr pion = None \<and> is_ok (unmarshal offer) \<and> validateOffer unmarshal offer \<noteq> None) \<and>
      \<not> errorsIs err ErrSessionExists \<and> \<not> errorsIs err ErrSessionNotFound)"
  by (rule outcome_errors [OF assms])

definition exServer :: Server where
  "exServer = serverOf (NewFactory ''/data'')
    \<lparr>optPublicIP = [8, 8, 4, 4], optUDPPortMin = 40000, optUDPPortMax = 40020, optICELite = False,
     optAudioPrimeEnabled = False, optAudioPrimeDuration = 0, optAudioPrimeMode = '''',
     optRecordings = Some (NewFactory ''/data''), optAnswerTimeout = 0, optDisconnectGrace = 0\<rparr>"

definition exPion :: pionPeer where
  "exPion = \<lparr>ctxErr = None, newPeerConnection = None, newTrackLocal = None, addTrack = None,
     setRemoteDescription = (\<lambda>_. None), createAnswer = Inr ''v=0'', setLocalDescription = (\<lambda>_. None),
     gather = Gathered (Some ''v=0''), closePeerConnection = None\<rparr>"

definition exUnmarshal :: "string \<Rightarrow> string + mediaDescription list" where
  "exUnmarshal offer = (if offer = [] then Inl ''EOF'' else
     Inr [\<lparr>mdMedia = ''audio'', mdPort = 9, mdFormats = [''111''], mdAttributes = [(''rtpmap'', ''111 opus/48000/2'')]\<rparr>])"

theorem NewSession_errors_witness:
  "outcomeError (NewSession exUnmarshal (\<lambda>_. True) exWrite exClose exServer exPion (\<lambda>_. []) True ''a'' ''v=0'') = None \<and>
   errorsIs (the (outcomeError (NewSession exUnmarshal (\<lambda>_. True) exWrite exClose exServer
     (exPion\<lparr>gather := DeadlineExceeded ''deadline''\<rparr>) (\<lambda>_. []) True ''a'' ''v=0''))) ErrAnswerTimeout"
proof -
  have v: "validateOffer exUnmarshal ''v=0'' = None" by code_simp
  have n: "negotiated exUnmarshal exPion ''v=0''" "negotiated exUnmarshal (exPion\<lparr>gather := g\<rparr>) ''v=0''" for g
    using v by (simp_all add: negotiated_def exPion_def)
  let ?late = "exPion\<lparr>gather := DeadlineExceeded ''deadline''\<rparr>"
  have "gather exPion = Gathered (Some ''v=0'')" "gather ?late = DeadlineExceeded ''deadline''"
    by (simp_all add: exPion_def)
  then show ?thesis
    using NewSession_errors [OF refl, of exUnmarshal "\<lambda>_. True" exWrite exClose exServer exPion "\<lambda>_. []" True "''a''" "''v=0''"]
      NewSession_errors [OF refl, of exUnmarshal "\<lambda>_. True" exWrite exClose exServer ?late "\<lambda>_. []" True "''a''" "''v=0''"] n
    by auto
qed

end
