(* ===== verification/GoHttp.thy ===== *)
theory GoHttp
  imports GoPath GoNumbers
begin

text \<open>
  What the program uses of \<^verbatim>\<open>net/http\<close> and \<^verbatim>\<open>net/url\<close>: percent decoding, the cleaning of request
  paths and the matching of \<^verbatim>\<open>ServeMux\<close> (Go 1.22 and later), which works on the encoded path
  and decodes it segment by segment.
\<close>

section \<open>Percent decoding\<close>

definition hexByte :: "char \<Rightarrow> char \<Rightarrow> char option" where
  "hexByte a b = (case (hexVal a, hexVal b) of (Some x, Some y) \<Rightarrow> Some (char_of (16 * x + y)) | _ \<Rightarrow> None)"

text \<open>\<^verbatim>\<open>url.unescape\<close> in the modes for paths: \<open>None\<close> for an escape that is not two hexadecimal digits.\<close>

fun Unescape :: "string \<Rightarrow> string option" where
  "Unescape [] = Some []"
| "Unescape (c # s) =
     (if c = CHR ''%'' then
        (case s of
           a # b # t \<Rightarrow> (case hexByte a b of None \<Rightarrow> None | Some d \<Rightarrow> map_option ((#) d) (Unescape t))
         | _ \<Rightarrow> None)
      else map_option ((#) c) (Unescape s))"

definition pathUnescape :: "string \<Rightarrow> string" where
  "pathUnescape s = (case Unescape s of None \<Rightarrow> s | Some t \<Rightarrow> t)"

section \<open>Paths\<close>

definition cleanPath :: "string \<Rightarrow> string" where
  "cleanPath p =
     (if p = '''' then ''/''
      else let q = (if hd p = CHR ''/'' then p else CHR ''/'' # p); np = Clean q in
        if last q = CHR ''/'' \<and> np \<noteq> ''/'' then np @ ''/'' else np)"

text \<open>The segments of a path: each decoded, and a slash for a trailing slash.\<close>

definition pathSegments :: "string \<Rightarrow> string list" where
  "pathSegments p =
     (let parts = Split (tl p) ''/'' in
      map pathUnescape (butlast parts) @ [if last parts = '''' then ''/'' else pathUnescape (last parts)])"

section \<open>Percent encoding\<close>

text \<open>\<^verbatim>\<open>url.PathEscape\<close>: the characters that stay as they are in a path segment.\<close>

definition segmentChar :: "char \<Rightarrow> bool" where
  "segmentChar c =
     (is_digit c \<or> (65 \<le> byte_of c \<and> byte_of c \<le> 90) \<or> (97 \<le> byte_of c \<and> byte_of c \<le> 122) \<or>
      c \<in> set ''-_.~$&+=:@'')"

definition upperHex :: "int \<Rightarrow> char" where
  "upperHex n = (if n < 10 then char_of (48 + n) else char_of (55 + n))"

definition PathEscape :: "string \<Rightarrow> string" where
  "PathEscape s = concat (map (\<lambda>c. if segmentChar c then [c]
     else [CHR ''%'', upperHex (byte_of c div 16), upperHex (byte_of c mod 16)]) s)"

section \<open>Facts\<close>

lemma hexVal_slash: "hexVal CHR ''/'' = None"
  by (simp add: hexVal_def is_digit_def)

lemma Unescape_append_slash:
  "Unescape (x @ CHR ''/'' # t) = Some d \<Longrightarrow>
   \<exists>x' t'. Unescape x = Some x' \<and> Unescape t = Some t' \<and> d = x' @ CHR ''/'' # t'"
proof (induction x arbitrary: d rule: Unescape.induct)
  case 1
  then show ?case by auto
next
  case (2 c s)
  show ?case
  proof (cases "c = CHR ''%''")
    case True
    then have p: "Unescape (CHR ''%'' # s @ CHR ''/'' # t) = Some d" using "2.prems" by simp
    obtain a b s' where s: "s = a # b # s'"
    proof (cases s rule: list.exhaust)
      case Nil
      with p show ?thesis by (cases t) (simp_all add: hexByte_def hexVal_slash split: option.splits)
    next
      case a: (Cons a s1)
      show ?thesis
      proof (cases s1)
        case Nil
        with a p show ?thesis by (simp add: hexByte_def hexVal_slash split: option.splits)
      qed (use a that in simp)
    qed
    then obtain e d' where e: "hexByte a b = Some e" "Unescape (s' @ CHR ''/'' # t) = Some d'" "d = e # d'"
      using p by (auto split: option.splits)
    from "2.IH"(1) [OF True s refl e(1) e(2)] show ?thesis using e s True by auto
  next
    case False
    then obtain d' where d': "Unescape (s @ CHR ''/'' # t) = Some d'" "d = c # d'" using "2.prems" by auto
    from "2.IH"(2) [OF False d'(1)] show ?thesis using d' False by auto
  qed
qed

lemma cleanPath_rooted: "\<exists>q. cleanPath p = CHR ''/'' # q"
proof (cases "p = []")
  case False
  let ?q = "if hd p = CHR ''/'' then p else CHR ''/'' # p"
  have "IsAbs ?q" using False by (cases p) (auto simp: IsAbs_def HasPrefix_def)
  then have "\<exists>r. Clean ?q = CHR ''/'' # r" by (simp add: Clean_def renderPath_def)
  then show ?thesis using False by (auto simp: cleanPath_def Let_def)
qed (simp add: cleanPath_def)

text \<open>A path whose first segment decodes to a name, with something after it, decodes to a path
  that begins with that name.\<close>

lemma pathSegments_prefix:
  assumes "pathSegments (CHR ''/'' # q) = v # w # ws" "Unescape (CHR ''/'' # q) = Some d"
  shows "HasPrefix d (CHR ''/'' # v @ ''/'')"
proof -
  let ?parts = "Split q ''/''"
  have len: "length ?parts = length (v # w # ws)"
    using arg_cong [OF assms(1), of length] by (simp add: pathSegments_def Let_def)
  then obtain a b more where parts: "?parts = a # b # more" by (auto simp: length_Suc_conv)
  then have v: "pathUnescape a = v" using assms(1) by (auto simp: pathSegments_def Let_def split: if_splits)
  have "q = Join ?parts ''/''" by (simp add: Join_Split)
  then obtain t where q: "q = a @ CHR ''/'' # t" by (simp add: parts)
  obtain d' where d': "Unescape q = Some d'" "d = CHR ''/'' # d'" using assms(2) by auto
  obtain a' t' where "Unescape a = Some a'" "d' = a' @ CHR ''/'' # t'"
    using Unescape_append_slash [OF d'(1) [unfolded q]] by blast
  then show ?thesis using v d'(2) by (simp add: HasPrefix_def pathUnescape_def take_Cons')
qed

end
