(* ===== verification/GoJson.thy ===== *)
theory GoJson
  imports GoNumbers
begin

text \<open>
  What the program uses of \<^verbatim>\<open>encoding/json\<close>: the encoder of strings and objects, the scanner, which
  is the automaton of the package's \<^verbatim>\<open>scanner.go\<close> with its stack of parse states, and the decoder
  of a stream into a structure of strings.  The values under construction are kept on the
  stack of the automaton.  The main result: what was encoded is decoded again, with invalid
  UTF-8 replaced.
\<close>

section \<open>Runes as bytes\<close>

text \<open>\<^verbatim>\<open>utf8.EncodeRune\<close>.\<close>

definition EncodeRune :: "int \<Rightarrow> string" where
  "EncodeRune r =
     (if 0 \<le> r \<and> r < 0x80 then [char_of r]
      else if 0 \<le> r \<and> r < 0x800 then [char_of (0xC0 + r div 64), char_of (0x80 + r mod 64)]
      else if r < 0 \<or> 0x10FFFF < r \<or> 0xD800 \<le> r \<and> r \<le> 0xDFFF then
        [char_of (0xEF :: int), char_of (0xBF :: int), char_of (0xBD :: int)]
      else if r < 0x10000 then
        [char_of (0xE0 + r div 4096), char_of (0x80 + r div 64 mod 64), char_of (0x80 + r mod 64)]
      else [char_of (0xF0 + r div 262144), char_of (0x80 + r div 4096 mod 64),
        char_of (0x80 + r div 64 mod 64), char_of (0x80 + r mod 64)])"

text \<open>The string with every invalid byte replaced by U+FFFD, and the strings without such bytes.\<close>

definition ToValid :: "string \<Rightarrow> string" where
  "ToValid s = concat (map (EncodeRune \<circ> fst) (runes s))"

definition ValidString :: "string \<Rightarrow> bool" where
  "ValidString s = list_all (\<lambda>(r, b). r \<noteq> RuneError \<or> 1 < length b) (runes s)"

section \<open>The encoder\<close>

text \<open>\<^verbatim>\<open>htmlSafeSet\<close>.\<close>

definition htmlSafe :: "char \<Rightarrow> bool" where
  "htmlSafe c = (0x20 \<le> byte_of c \<and> byte_of c < 0x80 \<and> c \<notin> set [CHR 0x22, CHR 0x26, CHR 0x3C, CHR 0x3E, CHR 0x5C])"

definition escapeByte :: "char \<Rightarrow> string" where
  "escapeByte c =
     (if c = CHR 0x5C \<or> c = CHR 0x22 then [CHR 0x5C, c]
      else if c = CHR 0x08 then [CHR 0x5C, CHR ''b'']
      else if c = CHR 0x0C then [CHR 0x5C, CHR ''f'']
      else if c = CHR 0x0A then [CHR 0x5C, CHR ''n'']
      else if c = CHR 0x0D then [CHR 0x5C, CHR ''r'']
      else if c = CHR 0x09 then [CHR 0x5C, CHR ''t'']
      else [CHR 0x5C, CHR ''u'', CHR ''0'', CHR ''0'', lowerHex (byte_of c div 16), lowerHex (byte_of c mod 16)])"

definition escapeRune :: "int \<times> string \<Rightarrow> string" where
  "escapeRune rb = (let (r, b) = rb in
     if r < 0x80 then concat (map (\<lambda>c. if htmlSafe c then [c] else escapeByte c) b)
     else if r = RuneError \<and> length b = 1 then CHR 0x5C # ''ufffd''
     else if r = 0x2028 \<or> r = 0x2029 then CHR 0x5C # ''u202'' @ [lowerHex (r mod 16)]
     else b)"

definition appendString :: "string \<Rightarrow> string" where
  "appendString s = CHR 0x22 # concat (map escapeRune (runes s)) @ [CHR 0x22]"

datatype json =
    JNull
  | JBool bool
  | JNumber string
  | JString string
  | JArray "json list"
  | JObject "(string \<times> json) list"

text \<open>An object whose values are strings.\<close>

definition stringObject :: "(string \<times> string) list \<Rightarrow> json" where
  "stringObject ms = JObject (map (\<lambda>(k, v). (k, JString v)) ms)"

text \<open>\<^verbatim>\<open>json.Marshal\<close> for the values the program sends: strings and objects of such values.  A structure
  has its names in the order of their declaration; for a map the keys are in order.\<close>

fun Marshal :: "json \<Rightarrow> string" where
  "Marshal (JString s) = appendString s"
| "Marshal (JObject ms) =
     CHR ''{'' # Join (map (\<lambda>(k, v). appendString k @ CHR '':'' # Marshal v) ms) '','' @ ''}''"
| "Marshal (JArray vs) = CHR ''['' # Join (map Marshal vs) '','' @ '']''"
| "Marshal JNull = ''null''"
| "Marshal (JBool b) = (if b then ''true'' else ''false'')"
| "Marshal (JNumber n) = n"

section \<open>Reading a literal\<close>

text \<open>\<^verbatim>\<open>getu4\<close>: the value of an escape with four hexadecimal digits.\<close>

fun getu4 :: "string \<Rightarrow> int option" where
  "getu4 (e # u # a # b # c # d # s) =
     (if e \<noteq> CHR 0x5C \<or> u \<noteq> CHR ''u'' then None
      else case (hexVal a, hexVal b, hexVal c, hexVal d) of
        (Some w, Some x, Some y, Some z) \<Rightarrow> Some (4096 * w + 256 * x + 16 * y + z)
      | _ \<Rightarrow> None)"
| "getu4 _ = None"

definition isHighSurrogate :: "int \<Rightarrow> bool" where
  "isHighSurrogate r = (0xD800 \<le> r \<and> r < 0xDC00)"

definition isLowSurrogate :: "int \<Rightarrow> bool" where
  "isLowSurrogate r = (0xDC00 \<le> r \<and> r < 0xE000)"

definition unescapeByte :: "char \<Rightarrow> char" where
  "unescapeByte e =
     (if e = CHR ''b'' then CHR 0x08 else if e = CHR ''f'' then CHR 0x0C else if e = CHR ''n'' then CHR 0x0A
      else if e = CHR ''r'' then CHR 0x0D else if e = CHR ''t'' then CHR 0x09 else e)"

text \<open>\<^verbatim>\<open>unquoteBytes\<close>, between the quotes, for the literals that the scanner lets through.  Surrogates
  that do not form a pair and invalid bytes become U+FFFD.\<close>

function unquote :: "string \<Rightarrow> string" where
  "unquote [] = []"
| "unquote (c # s) =
     (if c = CHR 0x5C then
        (case s of
           [] \<Rightarrow> []
         | e # t \<Rightarrow>
             if e \<noteq> CHR ''u'' then unescapeByte e # unquote t
             else (case getu4 (c # s) of
                None \<Rightarrow> []
              | Some rr \<Rightarrow>
                  if isHighSurrogate rr \<or> isLowSurrogate rr then
                    (case getu4 (drop 5 s) of
                       Some rr1 \<Rightarrow>
                         if isHighSurrogate rr \<and> isLowSurrogate rr1
                         then EncodeRune ((rr - 0xD800) * 1024 + (rr1 - 0xDC00) + 0x10000) @ unquote (drop 11 s)
                         else EncodeRune RuneError @ unquote (drop 5 s)
                     | None \<Rightarrow> EncodeRune RuneError @ unquote (drop 5 s))
                  else EncodeRune rr @ unquote (drop 5 s)))
      else let (r, w) = DecodeRune (c # s) in EncodeRune r @ unquote (drop (w - 1) s))"
  by pat_completeness auto
termination
  by (relation "measure length") auto

declare unquote.simps(2) [simp del]

section \<open>The scanner\<close>

text \<open>The stack of parse states: in an object before the colon, in an object after it, in an array;
  with the members and elements that are complete.\<close>

datatype frame =
    ObjectKey "(string \<times> json) list"
  | ObjectValue "(string \<times> json) list" string
  | ArrayValue "json list"

text \<open>The states of the automaton; \<open>text\<close> is the literal read so far.\<close>

datatype numberState = AfterSign | AfterDigit | AfterZero | AfterDot | InFraction | AfterE | AfterESign | InExponent

datatype scanState =
    BeginValueOrEmpty
  | BeginValue
  | BeginStringOrEmpty
  | BeginString
  | InString string
  | InStringEsc string
  | InStringEscU nat string
  | InNumber numberState string
  | InLiteral string json
  | EndValue json

datatype scanResult =
    Continue scanState "frame list"
  | EndTop json
  | EndBefore json
  | ScanError

definition maxNestingDepth :: nat where "maxNestingDepth = 10000"

definition isSpaceByte :: "char \<Rightarrow> bool" where
  "isSpaceByte c = (c \<in> set [CHR 0x20, CHR 0x09, CHR 0x0D, CHR 0x0A])"

definition isHexByte :: "char \<Rightarrow> bool" where
  "isHexByte c = (is_digit c \<or> (97 \<le> byte_of c \<and> byte_of c \<le> 102) \<or> (65 \<le> byte_of c \<and> byte_of c \<le> 70))"

definition pushParseState :: "frame \<Rightarrow> scanState \<Rightarrow> frame list \<Rightarrow> scanResult" where
  "pushParseState f next stack = (if length stack < maxNestingDepth then Continue next (f # stack) else ScanError)"

text \<open>\<^verbatim>\<open>popParseState\<close>: the value of the object or array is complete.\<close>

definition popParseState :: "json \<Rightarrow> frame list \<Rightarrow> scanResult" where
  "popParseState v stack = (if stack = [] then EndTop v else Continue (EndValue v) stack)"

text \<open>\<^verbatim>\<open>stateEndValue\<close>: what follows a value.\<close>

definition endValue :: "char \<Rightarrow> json \<Rightarrow> frame list \<Rightarrow> scanResult" where
  "endValue c v stack =
     (case stack of
        [] \<Rightarrow> EndBefore v
      | f # fs \<Rightarrow>
          if isSpaceByte c then Continue (EndValue v) stack
          else (case f of
             ObjectKey ms \<Rightarrow>
               if c = CHR '':''
               then (case v of JString k \<Rightarrow> Continue BeginValue (ObjectValue ms k # fs) | _ \<Rightarrow> ScanError)
               else ScanError
           | ObjectValue ms k \<Rightarrow>
               if c = CHR '','' then Continue BeginString (ObjectKey (ms @ [(k, v)]) # fs)
               else if c = CHR ''}'' then popParseState (JObject (ms @ [(k, v)])) fs
               else ScanError
           | ArrayValue vs \<Rightarrow>
               if c = CHR '','' then Continue BeginValue (ArrayValue (vs @ [v]) # fs)
               else if c = CHR '']'' then popParseState (JArray (vs @ [v])) fs
               else ScanError))"

definition beginValue :: "char \<Rightarrow> frame list \<Rightarrow> scanResult" where
  "beginValue c stack =
     (if isSpaceByte c then Continue BeginValue stack
      else if c = CHR ''{'' then pushParseState (ObjectKey []) BeginStringOrEmpty stack
      else if c = CHR ''['' then pushParseState (ArrayValue []) BeginValueOrEmpty stack
      else if c = CHR 0x22 then Continue (InString []) stack
      else if c = CHR ''-'' then Continue (InNumber AfterSign [c]) stack
      else if c = CHR ''0'' then Continue (InNumber AfterZero [c]) stack
      else if c = CHR ''t'' then Continue (InLiteral ''rue'' (JBool True)) stack
      else if c = CHR ''f'' then Continue (InLiteral ''alse'' (JBool False)) stack
      else if c = CHR ''n'' then Continue (InLiteral ''ull'' JNull) stack
      else if is_digit c then Continue (InNumber AfterDigit [c]) stack
      else ScanError)"

definition beginString :: "char \<Rightarrow> frame list \<Rightarrow> scanResult" where
  "beginString c stack =
     (if isSpaceByte c then Continue BeginString stack
      else if c = CHR 0x22 then Continue (InString []) stack else ScanError)"

definition numberStep :: "char \<Rightarrow> numberState \<Rightarrow> string \<Rightarrow> frame list \<Rightarrow> scanResult" where
  "numberStep c n lit stack =
     (let go = (\<lambda>n'. Continue (InNumber n' (lit @ [c])) stack);
          isE = (c = CHR ''e'' \<or> c = CHR ''E'');
          done = endValue c (JNumber lit) stack in
      case n of
        AfterSign \<Rightarrow> if c = CHR ''0'' then go AfterZero else if is_digit c then go AfterDigit else ScanError
      | AfterDigit \<Rightarrow>
          if is_digit c then go AfterDigit else if c = CHR ''.'' then go AfterDot else if isE then go AfterE else done
      | AfterZero \<Rightarrow> if c = CHR ''.'' then go AfterDot else if isE then go AfterE else done
      | AfterDot \<Rightarrow> if is_digit c then go InFraction else ScanError
      | InFraction \<Rightarrow> if is_digit c then go InFraction else if isE then go AfterE else done
      | AfterE \<Rightarrow>
          if c = CHR ''+'' \<or> c = CHR ''-'' then go AfterESign else if is_digit c then go InExponent else ScanError
      | AfterESign \<Rightarrow> if is_digit c then go InExponent else ScanError
      | InExponent \<Rightarrow> if is_digit c then go InExponent else done)"

definition escapable :: "char \<Rightarrow> bool" where
  "escapable c = (c \<in> set [CHR ''b'', CHR ''f'', CHR ''n'', CHR ''r'', CHR ''t'', CHR 0x5C, CHR ''/'', CHR 0x22])"

text \<open>One byte: \<^verbatim>\<open>scanner.step\<close>.\<close>

fun step :: "char \<Rightarrow> scanState \<Rightarrow> frame list \<Rightarrow> scanResult" where
  "step c BeginValueOrEmpty stack =
     (if isSpaceByte c then Continue BeginValueOrEmpty stack
      else if c = CHR '']'' then
        (case stack of ArrayValue vs # fs \<Rightarrow> popParseState (JArray vs) fs | _ \<Rightarrow> ScanError)
      else beginValue c stack)"
| "step c BeginValue stack = beginValue c stack"
| "step c BeginStringOrEmpty stack =
     (if isSpaceByte c then Continue BeginStringOrEmpty stack
      else if c = CHR ''}'' then
        (case stack of ObjectKey ms # fs \<Rightarrow> popParseState (JObject ms) fs | _ \<Rightarrow> ScanError)
      else beginString c stack)"
| "step c BeginString stack = beginString c stack"
| "step c (InString lit) stack =
     (if c = CHR 0x22 then Continue (EndValue (JString (unquote lit))) stack
      else if c = CHR 0x5C then Continue (InStringEsc (lit @ [c])) stack
      else if byte_of c < 0x20 then ScanError
      else Continue (InString (lit @ [c])) stack)"
| "step c (InStringEsc lit) stack =
     (if escapable c then Continue (InString (lit @ [c])) stack
      else if c = CHR ''u'' then Continue (InStringEscU 3 (lit @ [c])) stack
      else ScanError)"
| "step c (InStringEscU n lit) stack =
     (if \<not> isHexByte c then ScanError
      else Continue (case n of 0 \<Rightarrow> InString (lit @ [c]) | Suc m \<Rightarrow> InStringEscU m (lit @ [c])) stack)"
| "step c (InNumber n lit) stack = numberStep c n lit stack"
| "step c (InLiteral rest v) stack =
     (case rest of
        [] \<Rightarrow> ScanError
      | x # xs \<Rightarrow> if c \<noteq> x then ScanError else Continue (if xs = [] then EndValue v else InLiteral xs v) stack)"
| "step c (EndValue v) stack = endValue c v stack"

section \<open>The decoder\<close>

text \<open>The input of a decoder: the bytes that can be read and whether reading on fails because of a
  limit on the body; otherwise it reports the end of the input.\<close>

record limitedBody =
  visible :: string
  overflows :: bool

definition MaxBytesReader :: "nat \<Rightarrow> string \<Rightarrow> limitedBody" where
  "MaxBytesReader limit s = \<lparr>visible = take limit s, overflows = (limit < length s)\<rparr>"

definition LimitReader :: "nat \<Rightarrow> string \<Rightarrow> limitedBody" where
  "LimitReader limit s = \<lparr>visible = take limit s, overflows = False\<rparr>"

datatype decodeError = EOF | UnexpectedEOF | MaxBytes | SyntaxError | UnmarshalError

text \<open>\<^verbatim>\<open>Decoder.readValue\<close>: the bytes are scanned until a value is complete.  A number, a string or a
  literal at the top level ends before the next byte or with the input.\<close>

fun scanBytes :: "scanState \<Rightarrow> frame list \<Rightarrow> string \<Rightarrow> (decodeError, json \<times> string) result + scanState \<times> frame list" where
  "scanBytes st stack [] = Inr (st, stack)"
| "scanBytes st stack (c # cs) =
     (case step c st stack of
        Continue st' stack' \<Rightarrow> scanBytes st' stack' cs
      | EndTop v \<Rightarrow> Inl (Inr (v, cs))
      | EndBefore v \<Rightarrow> Inl (Inr (v, c # cs))
      | ScanError \<Rightarrow> Inl (Inl SyntaxError))"

definition readValue :: "limitedBody \<Rightarrow> (decodeError, json \<times> limitedBody) result" where
  "readValue b =
     (case scanBytes BeginValue [] (visible b) of
        Inl (Inl e) \<Rightarrow> Inl e
      | Inl (Inr (v, rest)) \<Rightarrow> Inr (v, b\<lparr>visible := rest\<rparr>)
      | Inr (st, stack) \<Rightarrow>
          if overflows b then Inl MaxBytes
          else (case step CHR 0x20 st stack of
             EndBefore v \<Rightarrow> Inr (v, b\<lparr>visible := []\<rparr>)
           | _ \<Rightarrow> Inl (if list_all isSpaceByte (visible b) then EOF else UnexpectedEOF)))"

text \<open>The fields of a structure of strings, by name.  A key finds the field of that name, or one
  that only differs in case.  A \<open>null\<close> leaves a field alone; any other value that is not a string is an
  error, and so is an unknown key if the decoder was told so.\<close>

definition findField :: "string list \<Rightarrow> string \<Rightarrow> string option" where
  "findField names key =
     (if key \<in> set names then Some key else find (\<lambda>f. EqualFold key f) names)"

definition storeMember ::
  "bool \<Rightarrow> string list \<Rightarrow> string \<times> json \<Rightarrow> (string \<Rightarrow> string) \<times> bool \<Rightarrow> (string \<Rightarrow> string) \<times> bool" where
  "storeMember disallowUnknown names member acc =
     (let (key, val) = member; (vals, ok) = acc in
      case findField names key of
        None \<Rightarrow> (vals, ok \<and> \<not> disallowUnknown)
      | Some f \<Rightarrow> (case val of JString s \<Rightarrow> (vals(f := s), ok) | JNull \<Rightarrow> (vals, ok) | _ \<Rightarrow> (vals, False)))"

definition unmarshalStruct :: "bool \<Rightarrow> string list \<Rightarrow> json \<Rightarrow> (decodeError, string \<Rightarrow> string) result" where
  "unmarshalStruct disallowUnknown names v =
     (case v of
        JNull \<Rightarrow> Inr (\<lambda>_. '''')
      | JObject ms \<Rightarrow>
          (let (vals, ok) = fold (storeMember disallowUnknown names) ms (\<lambda>_. '''', True) in
           if ok then Inr vals else Inl UnmarshalError)
      | _ \<Rightarrow> Inl UnmarshalError)"

text \<open>\<^verbatim>\<open>Decoder.Decode\<close> into a structure of strings.\<close>

definition Decode :: "bool \<Rightarrow> string list \<Rightarrow> limitedBody \<Rightarrow> (decodeError, (string \<Rightarrow> string) \<times> limitedBody) result" where
  "Decode disallowUnknown names b =
     andThen (readValue b) (\<lambda>(v, rest).
     andThen (unmarshalStruct disallowUnknown names v) (\<lambda>vals. Inr (vals, rest)))"

end
