(* ===== verification/GoMime.thy ===== *)
theory GoMime
  imports GoStrings
begin

text \<open>
  \<^verbatim>\<open>mime.ParseMediaType\<close>, as far as the program looks at its result: the media type, or an error.  The
  parameters are read to find the errors in them.
\<close>

section \<open>Tokens\<close>

definition isTSpecial :: "char \<Rightarrow> bool" where
  "isTSpecial c = (c \<in> set [CHR ''('', CHR '')'', CHR ''<'', CHR ''>'', CHR ''@'', CHR '','', CHR '';'', CHR '':'',
     CHR 0x5C, CHR 0x22, CHR ''/'', CHR ''['', CHR '']'', CHR ''?'', CHR ''=''])"

definition isTokenChar :: "char \<Rightarrow> bool" where
  "isTokenChar c = (0x20 < byte_of c \<and> byte_of c < 0x7F \<and> \<not> isTSpecial c)"

definition consumeToken :: "string \<Rightarrow> string \<times> string" where
  "consumeToken v = (takeWhile isTokenChar v, dropWhile isTokenChar v)"

text \<open>\<^verbatim>\<open>strings.TrimLeftFunc\<close> with \<^verbatim>\<open>unicode.IsSpace\<close>.\<close>

definition TrimLeftSpace :: "string \<Rightarrow> string" where
  "TrimLeftSpace s = concat (map snd (dropWhile (\<lambda>(r, b). IsSpace r) (runes s)))"

definition checkMediaTypeDisposition :: "string \<Rightarrow> bool" where
  "checkMediaTypeDisposition s =
     (let (typ, rest) = consumeToken s in
      if typ = '''' then False
      else case rest of
        [] \<Rightarrow> True
      | c # rest' \<Rightarrow>
          if c \<noteq> CHR ''/'' then False
          else let (subtype, rest'') = consumeToken rest' in subtype \<noteq> '''' \<and> rest'' = '''')"

section \<open>Parameters\<close>

text \<open>A quoted string after its first quote: the value and the rest, or \<open>None\<close> if it does not end.\<close>

fun consumeQuoted :: "string \<Rightarrow> (string \<times> string) option" where
  "consumeQuoted [] = None"
| "consumeQuoted (c # s) =
     (if c = CHR 0x22 then Some ('''', s)
      else if c = CHR 0x5C \<and> (case s of [] \<Rightarrow> False | d # t \<Rightarrow> isTSpecial d)
        then map_option (\<lambda>(val, rest). (hd s # val, rest)) (consumeQuoted (tl s))
      else if c = CHR 0x0D \<or> c = CHR 0x0A then None
      else map_option (\<lambda>(val, rest). (c # val, rest)) (consumeQuoted s))"

definition consumeValue :: "string \<Rightarrow> string \<times> string" where
  "consumeValue v =
     (case v of
        [] \<Rightarrow> ('''', '''')
      | c # s \<Rightarrow>
          if c \<noteq> CHR 0x22 then consumeToken v
          else case consumeQuoted s of None \<Rightarrow> ('''', v) | Some r \<Rightarrow> r)"

definition cutByte :: "char \<Rightarrow> string \<Rightarrow> string option" where
  "cutByte c s = (case s of [] \<Rightarrow> None | d # t \<Rightarrow> if d = c then Some t else None)"

text \<open>The code returns an empty name where the model returns \<open>None\<close>.\<close>

definition consumeMediaParam :: "string \<Rightarrow> (string \<times> string \<times> string) option" where
  "consumeMediaParam v =
     (case cutByte CHR '';'' (TrimLeftSpace v) of
        None \<Rightarrow> None
      | Some r1 \<Rightarrow>
          let (param, r2) = consumeToken (TrimLeftSpace r1) in
          if param = '''' then None
          else case cutByte CHR ''='' (TrimLeftSpace r2) of
            None \<Rightarrow> None
          | Some r3 \<Rightarrow>
              let r4 = TrimLeftSpace r3; (val, r5) = consumeValue r4 in
              if val = '''' \<and> r5 = r4 then None else Some (ToLower param, val, r5))"

lemma TrimLeftSpace_length: "length (TrimLeftSpace s) \<le> length s"
proof -
  have "length (concat (map snd (dropWhile P rs))) \<le> length (concat (map snd rs))" for P and rs :: "(int \<times> string) list"
    by (induction rs) auto
  then show ?thesis unfolding TrimLeftSpace_def by (metis concat_runes)
qed

lemma consumeToken_length: "consumeToken v = (a, b) \<Longrightarrow> length b \<le> length v"
  by (auto simp: consumeToken_def length_dropWhile_le)

lemma consumeQuoted_length: "consumeQuoted s = Some (val, rest) \<Longrightarrow> length rest \<le> length s"
  by (induction s arbitrary: val rule: consumeQuoted.induct)
    (fastforce split: if_splits list.splits)+

lemma consumeValue_length: "consumeValue v = (a, b) \<Longrightarrow> length b \<le> length v"
  by (auto simp: consumeValue_def dest: consumeToken_length consumeQuoted_length
      split: list.splits if_splits option.splits)

lemma cutByte_length: "cutByte c s = Some t \<Longrightarrow> length t < length s"
  by (auto simp: cutByte_def split: list.splits if_splits)

lemma consumeMediaParam_length: "consumeMediaParam v = Some (key, val, rest) \<Longrightarrow> length rest < length v"
proof -
  assume "consumeMediaParam v = Some (key, val, rest)"
  then obtain r1 p r2 r3 where r: "cutByte CHR '';'' (TrimLeftSpace v) = Some r1"
    "consumeToken (TrimLeftSpace r1) = (p, r2)" "cutByte CHR ''='' (TrimLeftSpace r2) = Some r3"
    "consumeValue (TrimLeftSpace r3) = (val, rest)"
    by (auto simp: consumeMediaParam_def Let_def split: option.splits prod.splits if_splits)
  show ?thesis
    using cutByte_length [OF r(1)] consumeToken_length [OF r(2)] cutByte_length [OF r(3)] consumeValue_length [OF r(4)]
      TrimLeftSpace_length [of v] TrimLeftSpace_length [of r1] TrimLeftSpace_length [of r2] TrimLeftSpace_length [of r3]
    by linarith
qed

text \<open>The loop over the parameters: whether they are well formed.  A name may be repeated with the
  same value.  The code keeps names with an asterisk apart, by the part before it, so a name
  is always looked up where it was stored and one map is enough.\<close>

function parseParams :: "string \<Rightarrow> (string \<rightharpoonup> string) \<Rightarrow> bool" where
  "parseParams v params =
     (let v' = TrimLeftSpace v in
      if v' = '''' then True
      else case consumeMediaParam v' of
        None \<Rightarrow> TrimSpace v' = '';''
      | Some (key, val, rest) \<Rightarrow>
          if params key \<noteq> None \<and> params key \<noteq> Some val then False
          else parseParams rest (params(key \<mapsto> val)))"
  by pat_completeness auto
termination
proof (relation "measure (length \<circ> fst)")
  fix v :: string and params :: "string \<rightharpoonup> string" and v' p key q val rest
  assume "v' = TrimLeftSpace v" "consumeMediaParam v' = Some p" "(key, q) = p" "(val, rest) = q"
  then show "((rest, params(key \<mapsto> val)), v, params) \<in> measure (length \<circ> fst)"
    using consumeMediaParam_length [of v' key val rest] TrimLeftSpace_length [of v] by auto
qed simp

declare parseParams.simps [simp del]

definition ParseMediaType :: "string \<Rightarrow> string option" where
  "ParseMediaType v =
     (let base = takeWhile (\<lambda>c. c \<noteq> CHR '';'') v;
          mediatype = TrimSpace (ToLower base) in
      if checkMediaTypeDisposition mediatype \<and> parseParams (drop (length base) v) Map.empty
      then Some mediatype else None)"

end
