(* ===== verification/GoSha256.thy ===== *)
theory GoSha256
  imports GoStrings "HOL-Library.Word"
begin

text \<open>
  \<^verbatim>\<open>crypto/sha256.Sum256\<close> (FIPS 180-4): the message is padded to blocks of 64 bytes, and each block
  is mixed into eight words of 32 bits.
\<close>

unbundle bit_operations_syntax

type_synonym word32 = "32 word"

definition initialHash :: "word32 list" where
  "initialHash = [0x6A09E667, 0xBB67AE85, 0x3C6EF372, 0xA54FF53A, 0x510E527F, 0x9B05688C, 0x1F83D9AB, 0x5BE0CD19]"

definition roundConstants :: "word32 list" where
  "roundConstants =
    [0x428A2F98, 0x71374491, 0xB5C0FBCF, 0xE9B5DBA5, 0x3956C25B, 0x59F111F1, 0x923F82A4, 0xAB1C5ED5,
     0xD807AA98, 0x12835B01, 0x243185BE, 0x550C7DC3, 0x72BE5D74, 0x80DEB1FE, 0x9BDC06A7, 0xC19BF174,
     0xE49B69C1, 0xEFBE4786, 0x0FC19DC6, 0x240CA1CC, 0x2DE92C6F, 0x4A7484AA, 0x5CB0A9DC, 0x76F988DA,
     0x983E5152, 0xA831C66D, 0xB00327C8, 0xBF597FC7, 0xC6E00BF3, 0xD5A79147, 0x06CA6351, 0x14292967,
     0x27B70A85, 0x2E1B2138, 0x4D2C6DFC, 0x53380D13, 0x650A7354, 0x766A0ABB, 0x81C2C92E, 0x92722C85,
     0xA2BFE8A1, 0xA81A664B, 0xC24B8B70, 0xC76C51A3, 0xD192E819, 0xD6990624, 0xF40E3585, 0x106AA070,
     0x19A4C116, 0x1E376C08, 0x2748774C, 0x34B0BCB5, 0x391C0CB3, 0x4ED8AA4A, 0x5B9CCA4F, 0x682E6FF3,
     0x748F82EE, 0x78A5636F, 0x84C87814, 0x8CC70208, 0x90BEFFFA, 0xA4506CEB, 0xBEF9A3F7, 0xC67178F2]"

definition rotateRight :: "nat \<Rightarrow> word32 \<Rightarrow> word32" where
  "rotateRight n x = drop_bit n x OR push_bit (32 - n) x"

text \<open>A byte 128, zeros up to eight bytes before the end of a block, and the number of bits.\<close>

definition padMessage :: "8 word list \<Rightarrow> 8 word list" where
  "padMessage bs =
     (let n = length bs; bits = 8 * int n in
      bs @ [0x80] @ replicate ((119 - n mod 64) mod 64) 0 @
      map (\<lambda>i. of_int (bits div 256 ^ i)) [7, 6, 5, 4, 3, 2, 1, 0])"

fun toWords :: "8 word list \<Rightarrow> word32 list" where
  "toWords (a # b # c # d # bs) =
     (push_bit 24 (ucast a) OR push_bit 16 (ucast b) OR push_bit 8 (ucast c) OR ucast d) # toWords bs"
| "toWords _ = []"

text \<open>The message schedule, the latest word first.\<close>

primrec extendSchedule :: "nat \<Rightarrow> word32 list \<Rightarrow> word32 list" where
  "extendSchedule 0 ws = ws"
| "extendSchedule (Suc n) ws =
     (let v1 = ws ! 1; v2 = ws ! 14;
          t1 = rotateRight 17 v1 XOR rotateRight 19 v1 XOR drop_bit 10 v1;
          t2 = rotateRight 7 v2 XOR rotateRight 18 v2 XOR drop_bit 3 v2 in
      extendSchedule n ((t1 + ws ! 6 + t2 + ws ! 15) # ws))"

definition compress :: "word32 \<times> word32 \<Rightarrow> word32 list \<Rightarrow> word32 list" where
  "compress kw hs =
     (case hs of
        [a, b, c, d, e, f, g, h] \<Rightarrow>
          let t1 = h + (rotateRight 6 e XOR rotateRight 11 e XOR rotateRight 25 e) +
                ((e AND f) XOR ((NOT e) AND g)) + fst kw + snd kw;
              t2 = (rotateRight 2 a XOR rotateRight 13 a XOR rotateRight 22 a) +
                ((a AND b) XOR (a AND c) XOR (b AND c)) in
          [t1 + t2, a, b, c, d + t1, e, f, g]
      | _ \<Rightarrow> hs)"

definition blockHash :: "word32 list \<Rightarrow> word32 list \<Rightarrow> word32 list" where
  "blockHash hs ws =
     map2 (+) hs (fold compress (zip roundConstants (rev (extendSchedule 48 (rev ws)))) hs)"

function hashBlocks :: "word32 list \<Rightarrow> word32 list \<Rightarrow> word32 list" where
  "hashBlocks hs ws = (if ws = [] then hs else hashBlocks (blockHash hs (take 16 ws)) (drop 16 ws))"
  by pat_completeness auto
termination
  by (relation "measure (length \<circ> snd)") auto

declare hashBlocks.simps [simp del]

definition Sum256 :: "string \<Rightarrow> word32 list" where
  "Sum256 s = hashBlocks initialHash (toWords (padMessage (map (\<lambda>c. of_int (byte_of c)) s)))"

end
