(* ===== verification/HttpApi.thy ===== *)
theory HttpApi
  imports GoHttp GoJson GoMime GoSha256 SdpMeta
begin

text \<open>
  \<^verbatim>\<open>internal/httpapi/handler.go\<close>: authorisation, routing and the handlers.  The sessions behind the
  interface \<^verbatim>\<open>SessionService\<close> have a state that the handlers pass on.
\<close>

section \<open>Requests and responses\<close>

abbreviation maxRequestBody :: nat where "maxRequestBody \<equiv> 1048576"

text \<open>A request: the method, the path decoded and as it was sent, the headers that are read, and
  the body.\<close>

record httpRequest =
  requestMethod :: string
  urlPath :: string
  escapedPath :: string
  authorization :: string
  contentType :: string
  requestBody :: string

text \<open>A body is JSON with its media type, or one that the multiplexer writes itself.\<close>

datatype body = JsonBody string | NoJson

record response =
  statusCode :: nat
  payload :: body

text \<open>\<^verbatim>\<open>json.Encoder\<close> ends a value with a line feed.\<close>

definition encodeJSON :: "json \<Rightarrow> body" where
  "encodeJSON val = JsonBody (Marshal val @ [NL])"

definition writeJSON :: "nat \<Rightarrow> json \<Rightarrow> response" where
  "writeJSON code val = \<lparr>statusCode = code, payload = encodeJSON val\<rparr>"

definition apiError :: "string \<Rightarrow> string \<Rightarrow> json" where
  "apiError name message = JObject [(''error'', stringObject [(''code'', name), (''message'', message)])]"

definition writeError :: "nat \<Rightarrow> string \<Rightarrow> string \<Rightarrow> response" where
  "writeError code name message = writeJSON code (apiError name message)"

record createSessionRequest =
  SessionID :: string
  OfferSDP :: string

text \<open>\<^verbatim>\<open>SessionService\<close>, with the state of the sessions threaded through.\<close>

record 'st sessionService =
  serviceCreate :: "string \<Rightarrow> string \<Rightarrow> 'st \<Rightarrow> 'st \<times> (rtcError, string) result"
  serviceMarkConnected :: "string \<Rightarrow> 'st \<Rightarrow> 'st \<times> rtcError option"
  serviceClose :: "string \<Rightarrow> 'st \<Rightarrow> 'st \<times> rtcError option"

section \<open>Authorisation\<close>

record 'st handler =
  tokenHash :: "word32 list"
  service :: "'st sessionService"

definition newHandler :: "string \<Rightarrow> 'st sessionService \<Rightarrow> 'st handler" where
  "newHandler token svc = \<lparr>tokenHash = Sum256 token, service = svc\<rparr>"

definition authorized :: "'st handler \<Rightarrow> string \<Rightarrow> bool" where
  "authorized h header =
     (if \<not> HasPrefix header ''Bearer '' then False
      else Sum256 (TrimPrefix header ''Bearer '') = tokenHash h)"

section \<open>Routing\<close>

text \<open>The patterns registered in \<^verbatim>\<open>New\<close>, from the most to the least specific.\<close>

datatype route = Health | CreateSession | ConnectedRoute string | SessionRoute string | ApiNotFound

definition matchRoute :: "string list \<Rightarrow> route option" where
  "matchRoute segs =
     (case segs of
        [] \<Rightarrow> None
      | seg # rest \<Rightarrow>
          if seg = ''healthz'' \<and> rest = [] then Some Health
          else if seg = ''v1'' \<and> rest \<noteq> [] then
            (case rest of
               [a, b] \<Rightarrow> if a = ''rtc'' \<and> b = ''sessions'' then Some CreateSession else Some ApiNotFound
             | [a, b, ident] \<Rightarrow>
                 if a = ''rtc'' \<and> b = ''sessions'' \<and> ident \<noteq> ''/'' then Some (SessionRoute ident) else Some ApiNotFound
             | [a, b, ident, c] \<Rightarrow>
                 if a = ''rtc'' \<and> b = ''sessions'' \<and> ident \<noteq> ''/'' \<and> c = ''connected''
                 then Some (ConnectedRoute ident) else Some ApiNotFound
             | _ \<Rightarrow> Some ApiNotFound)
          else None)"

datatype muxResult = MuxBadRequest | MuxRedirect | MuxNotFound | MuxHandle route

text \<open>\<^verbatim>\<open>ServeMux\<close>: \<open>*\<close> is no path; the path is cleaned, except for \<^verbatim>\<open>CONNECT\<close>; \<^verbatim>\<open>/v1\<close> is redirected
  to the pattern with the trailing slash, and a path that was not clean to the clean one.\<close>

definition muxFind :: "string \<Rightarrow> string \<Rightarrow> muxResult" where
  "muxFind meth escaped =
     (if escaped = ''*'' then MuxBadRequest
      else let p = (if meth = ''CONNECT'' then escaped else cleanPath escaped); segs = pathSegments p in
        if segs = [''v1''] then MuxRedirect
        else if p \<noteq> escaped then MuxRedirect
        else case matchRoute segs of None \<Rightarrow> MuxNotFound | Some r \<Rightarrow> MuxHandle r)"

section \<open>The handlers\<close>

definition idHeadChar :: "char \<Rightarrow> bool" where
  "idHeadChar c = (is_digit c \<or> (65 \<le> byte_of c \<and> byte_of c \<le> 90) \<or> (97 \<le> byte_of c \<and> byte_of c \<le> 122))"

definition idChar :: "char \<Rightarrow> bool" where
  "idChar c = (idHeadChar c \<or> c = CHR ''_'' \<or> c = CHR ''.'' \<or> c = CHR ''-'')"

text \<open>\<^verbatim>\<open>sessionIDPattern.MatchString\<close>; the dollar sign matches the end of the text only.\<close>

definition sessionIDPattern :: "string \<Rightarrow> bool" where
  "sessionIDPattern s =
     (case s of [] \<Rightarrow> False | c # cs \<Rightarrow> idHeadChar c \<and> length cs \<le> 127 \<and> list_all idChar cs)"

definition methodNotAllowed :: response where
  "methodNotAllowed = writeError 405 ''method_not_allowed'' ''method not allowed''"

definition invalidSessionID :: response where
  "invalidSessionID = writeError 400 ''invalid_session_id''
     ''sessionId must contain only safe ASCII identifier characters''"

text \<open>The response to an error of the service, and the category that is logged for it.\<close>

definition rtcErrorClass :: "rtcError \<Rightarrow> nat \<times> string \<times> string" where
  "rtcErrorClass err =
     (if errorsIs err ErrInvalidSDP then (400, ''invalid_sdp'', ''offer SDP is invalid'')
      else if errorsIs err ErrOpusRequired then (400, ''opus_required'', ''offer SDP must contain an Opus audio codec'')
      else if errorsIs err ErrSessionExists then (409, ''session_exists'', ''sessionId already exists'')
      else if errorsIs err ErrSessionNotFound then (404, ''session_not_found'', ''session was not found'')
      else if errorsIs err ErrAnswerTimeout then (504, ''answer_timeout'', ''SDP answer generation timed out'')
      else (500, ''internal_error'', ''internal server error''))"

type_synonym apiLog = "(string \<times> string) list"

definition writeRTCError :: "string \<Rightarrow> rtcError \<Rightarrow> response \<times> apiLog" where
  "writeRTCError sessionID err =
     (let (code, name, message) = rtcErrorClass err in
      (writeError code name message, if code = 500 then [(sessionID, name)] else []))"

definition decodeJSON :: "string \<Rightarrow> (nat, createSessionRequest) result" where
  "decodeJSON s =
     (case Decode True [''sessionId'', ''offerSdp''] (MaxBytesReader maxRequestBody s) of
        Inl err \<Rightarrow> Inl (if err = MaxBytes then 413 else 400)
      | Inr (vals, rest) \<Rightarrow> (case Decode True [] rest of
          Inl EOF \<Rightarrow> Inr \<lparr>SessionID = vals ''sessionId'', OfferSDP = vals ''offerSdp''\<rparr>
        | Inl MaxBytes \<Rightarrow> Inl 413
        | _ \<Rightarrow> Inl 400))"

definition health :: "httpRequest \<Rightarrow> response" where
  "health r = (if requestMethod r \<noteq> ''GET'' then methodNotAllowed else writeJSON 200 (stringObject [(''status'', ''ok'')]))"

definition createSession ::
  "'st sessionService \<Rightarrow> httpRequest \<Rightarrow> 'st \<Rightarrow> 'st \<times> response \<times> apiLog" where
  "createSession svc r st =
     (if requestMethod r \<noteq> ''POST'' then (st, methodNotAllowed, [])
      else if ParseMediaType (contentType r) \<noteq> Some ''application/json'' then
        (st, writeError 415 ''unsupported_media_type'' ''Content-Type must be application/json'', [])
      else case decodeJSON (requestBody r) of
        Inl code \<Rightarrow>
          (st, if code = 413 then writeError code ''request_too_large'' ''request body must not exceed 1 MiB''
               else writeError code ''invalid_request'' ''request body must be one valid JSON object'', [])
      | Inr request \<Rightarrow>
          if \<not> sessionIDPattern (SessionID request) then (st, invalidSessionID, [])
          else if TrimSpace (OfferSDP request) = '''' then
            (st, writeError 400 ''invalid_sdp'' ''offerSdp must not be empty'', [])
          else case serviceCreate svc (SessionID request) (OfferSDP request) st of
            (st', Inl err) \<Rightarrow> (st', writeRTCError (SessionID request) err)
          | (st', Inr answer) \<Rightarrow>
              (st', writeJSON 200 (stringObject [(''answerSdp'', answer), (''sessionId'', SessionID request)]), []))"

definition connectedHandler ::
  "'st sessionService \<Rightarrow> httpRequest \<Rightarrow> string \<Rightarrow> 'st \<Rightarrow> 'st \<times> response \<times> apiLog" where
  "connectedHandler svc r ident st =
     (if requestMethod r \<noteq> ''POST'' then (st, methodNotAllowed, [])
      else if \<not> sessionIDPattern ident then (st, invalidSessionID, [])
      else case serviceMarkConnected svc ident st of
        (st', Some err) \<Rightarrow> (st', writeRTCError ident err)
      | (st', None) \<Rightarrow> (st', writeJSON 200 (stringObject [(''status'', ''ok'')]), []))"

definition sessionHandler ::
  "'st sessionService \<Rightarrow> httpRequest \<Rightarrow> string \<Rightarrow> 'st \<Rightarrow> 'st \<times> response \<times> apiLog" where
  "sessionHandler svc r ident st =
     (if requestMethod r \<noteq> ''DELETE'' then (st, methodNotAllowed, [])
      else if \<not> sessionIDPattern ident then (st, invalidSessionID, [])
      else case serviceClose svc ident st of
        (st', Some err) \<Rightarrow> (st', writeRTCError ident err)
      | (st', None) \<Rightarrow> (st', writeJSON 200 (stringObject [(''status'', ''closed'')]), []))"

definition serveRoute ::
  "'st sessionService \<Rightarrow> httpRequest \<Rightarrow> route \<Rightarrow> 'st \<Rightarrow>
   'st \<times> response \<times> apiLog" where
  "serveRoute svc r rt st =
     (case rt of
        Health \<Rightarrow> (st, health r, [])
      | CreateSession \<Rightarrow> createSession svc r st
      | ConnectedRoute ident \<Rightarrow> connectedHandler svc r ident st
      | SessionRoute ident \<Rightarrow> sessionHandler svc r ident st
      | ApiNotFound \<Rightarrow> (st, writeError 404 ''not_found'' ''resource not found'', []))"

definition muxServe ::
  "'st sessionService \<Rightarrow> httpRequest \<Rightarrow> 'st \<Rightarrow> 'st \<times> response \<times> apiLog" where
  "muxServe svc r st =
     (case muxFind (requestMethod r) (escapedPath r) of
        MuxBadRequest \<Rightarrow> (st, \<lparr>statusCode = 400, payload = NoJson\<rparr>, [])
      | MuxRedirect \<Rightarrow> (st, \<lparr>statusCode = 307, payload = NoJson\<rparr>, [])
      | MuxNotFound \<Rightarrow> (st, \<lparr>statusCode = 404, payload = NoJson\<rparr>, [])
      | MuxHandle rt \<Rightarrow> serveRoute svc r rt st)"

definition ServeHTTP ::
  "'st handler \<Rightarrow> httpRequest \<Rightarrow> 'st \<Rightarrow>
   'st \<times> response \<times> apiLog" where
  "ServeHTTP h r st =
     (if HasPrefix (urlPath r) ''/v1/'' \<and> \<not> authorized h (authorization r)
      then (st, writeError 401 ''unauthorized'' ''a valid bearer token is required'', [])
      else muxServe (service h) r st)"

end
