(* ===== verification/JsonRoundtrip.thy ===== *)
theory JsonRoundtrip
  imports GoJson
begin

text \<open>
  Encoding and decoding are inverse to each other: the scanner reads back every string that the
  encoder writes, with invalid UTF-8 replaced, and the decoder every object of strings.
\<close>

section \<open>UTF-8\<close>

lemma byte_range: "0 \<le> byte_of c" "byte_of c < 256"
  by (simp_all add: of_char_def)

lemma char_byte: "char_of (byte_of c) = c"
  by simp

lemma base64:
  fixes a z :: int
  assumes "0 \<le> z" "z < 64"
  shows "(a * 64 + z) div 64 = a" "(a * 64 + z) mod 64 = z"
  using assms by (simp_all add: div_add1_eq mod_add_eq [symmetric])

lemma EncodeRune_2:
  assumes "0 \<le> y" "y < 64" "2 \<le> x" "x < 32"
  shows "EncodeRune (x * 64 + y) = [char_of (0xC0 + x), char_of (0x80 + y)]"
proof -
  have "0x80 \<le> x * 64 + y" "x * 64 + y < 0x800" using assms by simp_all
  then show ?thesis using assms by (simp add: EncodeRune_def base64)
qed

lemma EncodeRune_3:
  assumes "0 \<le> y" "y < 64" "0 \<le> z" "z < 64" "0 \<le> x" "x < 16" "x = 0 \<longrightarrow> 32 \<le> y" "x = 13 \<longrightarrow> y < 32"
  shows "EncodeRune (x * 4096 + y * 64 + z) = [char_of (0xE0 + x), char_of (0x80 + y), char_of (0x80 + z)]"
proof -
  let ?r = "(x * 64 + y) * 64 + z"
  have "0x800 \<le> ?r" using assms by (cases "x = 0") auto
  moreover have "?r < 0x10000" using assms by simp
  moreover have "\<not> (0xD800 \<le> ?r \<and> ?r \<le> 0xDFFF)"
    using assms by (cases "x = 13"; cases "x < 13") auto
  ultimately have b: "0x800 \<le> ?r" "?r < 0x10000" "\<not> (0xD800 \<le> ?r \<and> ?r \<le> 0xDFFF)" .
  have "?r div 4096 = ?r div 64 div 64" by (simp add: zdiv_zmult2_eq [symmetric])
  also have "\<dots> = x" using assms by (simp only: base64)
  finally have "?r div 4096 = x" .
  then have "EncodeRune ?r = [char_of (0xE0 + x), char_of (0x80 + y), char_of (0x80 + z)]"
    using b assms by (simp only: EncodeRune_def base64) simp
  then show ?thesis by (simp add: algebra_simps)
qed

lemma EncodeRune_4:
  assumes "0 \<le> y" "y < 64" "0 \<le> z" "z < 64" "0 \<le> u" "u < 64" "0 \<le> x" "x < 5" "x = 0 \<longrightarrow> 16 \<le> y" "x = 4 \<longrightarrow> y < 16"
  shows "EncodeRune (x * 262144 + y * 4096 + z * 64 + u) =
    [char_of (0xF0 + x), char_of (0x80 + y), char_of (0x80 + z), char_of (0x80 + u)]"
proof -
  let ?r = "((x * 64 + y) * 64 + z) * 64 + u"
  have "0x10000 \<le> ?r" using assms by (cases "x = 0") auto
  moreover have "?r \<le> 0x10FFFF" using assms by (cases "x = 4") auto
  ultimately have b: "0x10000 \<le> ?r" "?r \<le> 0x10FFFF" .
  have d: "?r div 4096 = ?r div 64 div 64" "?r div 262144 = ?r div 64 div 64 div 64"
    by (simp_all add: zdiv_zmult2_eq [symmetric])
  have "?r div 4096 = x * 64 + y" "?r div 262144 = x" unfolding d using assms by (simp_all only: base64)
  then have "EncodeRune ?r = [char_of (0xF0 + x), char_of (0x80 + y), char_of (0x80 + z), char_of (0x80 + u)]"
    using b assms by (simp only: EncodeRune_def base64) simp
  then show ?thesis by (simp add: algebra_simps)
qed

text \<open>The rune of a multi-byte sequence determines its bytes.\<close>

lemma DecodeRune_inverse:
  assumes "DecodeRune (c # cs) = (r, w)" "r \<noteq> RuneError \<or> 1 < w"
  shows "EncodeRune r = take w (c # cs) \<and> (\<forall>t. DecodeRune (take w (c # cs) @ t) = (r, w))"
proof -
  let ?b = "byte_of c"
  consider (one) "?b < 0x80" | (two) "0xC2 \<le> ?b" "?b \<le> 0xDF" | (three) "0xE0 \<le> ?b" "?b \<le> 0xEF"
    | (four) "0xF0 \<le> ?b" "?b \<le> 0xF4"
    using assms by (fastforce simp: DecodeRune.simps(2) Let_def split: if_splits)
  then show ?thesis
  proof cases
    case one
    then show ?thesis using assms byte_range [of c] by (auto simp: DecodeRune_ascii EncodeRune_def)
  next
    case two
    then obtain c1 cs' where s: "cs = c1 # cs'" "is_cont c1" "r = (?b - 0xC0) * 64 + (byte_of c1 - 0x80)" "w = 2"
      using assms by (auto simp: DecodeRune.simps(2) Let_def split: list.splits if_splits)
    then show ?thesis using two EncodeRune_2 [of "byte_of c1 - 0x80" "?b - 0xC0"]
      by (simp add: is_cont_def DecodeRune.simps(2) numeral_2_eq_2)
  next
    case three
    then obtain c1 c2 cs' where s: "cs = c1 # c2 # cs'" "second_ok ?b c1" "is_cont c2" "w = 3"
      "r = (?b - 0xE0) * 4096 + (byte_of c1 - 0x80) * 64 + (byte_of c2 - 0x80)"
      using assms by (auto simp: DecodeRune.simps(2) Let_def split: list.splits if_splits)
    then show ?thesis using three EncodeRune_3 [of "byte_of c1 - 0x80" "byte_of c2 - 0x80" "?b - 0xE0"]
      by (simp add: is_cont_def second_ok_def DecodeRune.simps(2) numeral_3_eq_3 Let_def split: if_splits)
  next
    case four
    then obtain c1 c2 c3 cs' where s: "cs = c1 # c2 # c3 # cs'" "second_ok ?b c1" "is_cont c2" "is_cont c3" "w = 4"
      "r = (?b - 0xF0) * 262144 + (byte_of c1 - 0x80) * 4096 + (byte_of c2 - 0x80) * 64 + (byte_of c3 - 0x80)"
      using assms by (auto simp: DecodeRune.simps(2) Let_def split: list.splits if_splits)
    then show ?thesis
      using four EncodeRune_4 [of "byte_of c1 - 0x80" "byte_of c2 - 0x80" "byte_of c3 - 0x80" "?b - 0xF0"]
      by (simp add: is_cont_def second_ok_def DecodeRune.simps(2) eval_nat_numeral Let_def split: if_splits)
  qed
qed


text \<open>The three kinds of runes in a string: a byte below 128, an invalid byte, a sequence.\<close>

definition decoded :: "int \<Rightarrow> string \<Rightarrow> bool" where
  "decoded r b =
     ((\<exists>c. b = [c] \<and> byte_of c < 0x80 \<and> r = byte_of c) \<or> (r = RuneError \<and> length b = 1) \<or>
      (0x80 \<le> r \<and> 1 < length b \<and> EncodeRune r = b \<and> (\<forall>t. DecodeRune (b @ t) = (r, length b)) \<and>
       list_all (\<lambda>c. 0x80 \<le> byte_of c) b))"

lemma decoded_cases [consumes 1, case_names ascii invalid sequence]:
  assumes "decoded r b"
  obtains c where "b = [c]" "byte_of c < 0x80" "r = byte_of c"
  | "r = RuneError" "length b = 1"
  | "0x80 \<le> r" "1 < length b" "EncodeRune r = b" "\<And>t. DecodeRune (b @ t) = (r, length b)"
    "list_all (\<lambda>c. 0x80 \<le> byte_of c) b"
  using assms unfolding decoded_def by blast

lemma DecodeRune_decoded:
  assumes "DecodeRune (c # cs) = (r, w)"
  shows "decoded r (take w (c # cs))"
proof (cases "byte_of c < 0x80")
  case True
  then show ?thesis using assms by (auto simp: decoded_def DecodeRune_ascii)
next
  case False
  then have seq: "list_all (\<lambda>c. 0x80 \<le> byte_of c) (take w (c # cs))" "0x80 \<le> r" "0 < w" "w \<le> Suc (length cs)"
    using assms
    by (auto simp: DecodeRune.simps(2) is_cont_def second_ok_def RuneError_def eval_nat_numeral Let_def
        split: list.splits if_splits)
  show ?thesis
  proof (cases "w = 1")
    case True
    then have "r = RuneError"
      using assms False by (auto simp: DecodeRune.simps(2) Let_def split: list.splits if_splits)
    then show ?thesis using True by (simp add: decoded_def)
  next
    case False
    then have "1 < w" using seq(3) by simp
    then show ?thesis using seq DecodeRune_inverse [OF assms] by (auto simp: decoded_def min_def)
  qed
qed

lemma runes_decoded: "(r, b) \<in> set (runes s) \<Longrightarrow> decoded r b"
proof (induction s rule: runes.induct)
  case (2 c cs)
  then show ?case by (auto simp: runes.simps(2) split: prod.splits intro: DecodeRune_decoded)
qed simp

lemma ToValid_valid: "ValidString s \<Longrightarrow> ToValid s = s"
proof -
  assume v: "ValidString s"
  have "EncodeRune r = b" if "(r, b) \<in> set (runes s)" for r b
    using runes_decoded [OF that]
  proof (cases rule: decoded_cases)
    case (ascii c)
    then show ?thesis using byte_range [of c] by (simp add: EncodeRune_def)
  next
    case invalid
    then show ?thesis using v that by (auto simp: ValidString_def list_all_iff)
  qed
  then have "map (EncodeRune \<circ> fst) (runes s) = map snd (runes s)" by (auto simp: list_eq_iff_nth_eq)
  then show ?thesis by (simp only: ToValid_def concat_runes)
qed

lemma ValidString_ascii: "list_all (\<lambda>c. byte_of c < 0x80) s \<Longrightarrow> ValidString s"
proof -
  assume a: "list_all (\<lambda>c. byte_of c < 0x80) s"
  then have "runes s = map (\<lambda>c. (byte_of c, [c])) s" by (intro runes_ascii) (simp add: list_all_iff)
  then show ?thesis using a by (auto simp: ValidString_def list_all_iff RuneError_def)
qed

section \<open>Strings\<close>

lemma unquote_plain: "byte_of c < 0x80 \<Longrightarrow> c \<noteq> CHR 0x5C \<Longrightarrow> unquote (c # t) = c # unquote t"
  using byte_range [of c] by (simp add: unquote.simps(2) DecodeRune_ascii EncodeRune_def)

lemma unquote_sequence:
  assumes "DecodeRune (b @ t) = (r, length b)" "1 < length b" "list_all (\<lambda>c. 0x80 \<le> byte_of c) b"
  shows "unquote (b @ t) = EncodeRune r @ unquote t"
proof -
  obtain c b' where b: "b = c # b'" using assms(2) by (cases b) auto
  have "c \<noteq> CHR 0x5C" using assms(3) b by auto
  then show ?thesis using assms(1) by (simp add: b unquote.simps(2))
qed

lemma unquote_u4:
  assumes "hexVal w' = Some w" "hexVal x' = Some x" "hexVal y' = Some y" "hexVal z' = Some z"
    "rr = 4096 * w + 256 * x + 16 * y + z" "rr < 0xD800 \<or> 0xE000 \<le> rr"
  shows "unquote (CHR 0x5C # CHR ''u'' # w' # x' # y' # z' # t) = EncodeRune rr @ unquote t"
  using assms by (auto simp: unquote.simps(2) isHighSurrogate_def isLowSurrogate_def)

lemma unquote_escapeByte:
  assumes "byte_of c < 0x80"
  shows "unquote (escapeByte c @ t) = c # unquote t"
proof (cases "c \<in> set [CHR 0x5C, CHR 0x22, CHR 0x08, CHR 0x0C, CHR 0x0A, CHR 0x0D, CHR 0x09]")
  case True
  then show ?thesis by (auto simp: escapeByte_def unquote.simps(2) unescapeByte_def)
next
  case False
  have h: "hexVal (lowerHex (byte_of c div 16)) = Some (byte_of c div 16)"
    "hexVal (lowerHex (byte_of c mod 16)) = Some (byte_of c mod 16)"
    using assms byte_range [of c] by (intro hexDigit; simp)+
  have "hexVal CHR ''0'' = Some 0" by (simp add: hexVal_def is_digit_def digit_val_def)
  moreover have "EncodeRune (byte_of c) = [c]" using assms byte_range [of c] by (simp add: EncodeRune_def)
  ultimately show ?thesis
    using False assms unquote_u4 [OF _ _ h, of "CHR ''0''" 0 "CHR ''0''" 0 "byte_of c" t]
    by (simp add: escapeByte_def)
qed

lemma unquote_escapeRune: "decoded r b \<Longrightarrow> unquote (escapeRune (r, b) @ t) = EncodeRune r @ unquote t"
proof (induction rule: decoded_cases)
  case (ascii c)
  have "EncodeRune (byte_of c) = [c]" using ascii byte_range [of c] by (simp add: EncodeRune_def)
  moreover have "c \<noteq> CHR 0x5C" if "htmlSafe c" using that by (auto simp: htmlSafe_def)
  ultimately show ?case using ascii unquote_plain [of c t] unquote_escapeByte [of c t] by (auto simp: escapeRune_def)
next
  case invalid
  have "hexVal CHR ''f'' = Some 15" "hexVal CHR ''d'' = Some 13"
    by (simp_all add: hexVal_def is_digit_def)
  then show ?case using invalid by (simp add: escapeRune_def RuneError_def unquote_u4 [of _ 15 _ 15 _ 15 _ 13])
next
  case sequence
  have h: "hexVal CHR ''2'' = Some 2" "hexVal CHR ''0'' = Some 0" "hexVal (lowerHex 8) = Some 8" "hexVal (lowerHex 9) = Some 9"
    by (simp_all add: hexVal_def is_digit_def digit_val_def lowerHex_def)
  show ?case
    using sequence unquote_sequence [of b t r]
      unquote_u4 [OF h(1,2,1), of "lowerHex (r mod 16)" "r mod 16" r t] h(3,4)
    by (auto simp: escapeRune_def)
qed

lemma unquote_escaped: "unquote (concat (map escapeRune (runes s))) = ToValid s"
proof -
  have "unquote (concat (map escapeRune rs)) = concat (map (EncodeRune \<circ> fst) rs)"
    if "\<And>r b. (r, b) \<in> set rs \<Longrightarrow> decoded r b" for rs
    using that
  proof (induction rs)
    case (Cons rb rs)
    then show ?case using unquote_escapeRune [of "fst rb" "snd rb"] by (cases rb) simp
  qed simp
  then show ?thesis using runes_decoded by (simp add: ToValid_def)
qed

lemma scan_plain:
  "list_all (\<lambda>c. 0x20 \<le> byte_of c \<and> c \<noteq> CHR 0x22 \<and> c \<noteq> CHR 0x5C) b \<Longrightarrow>
   scanBytes (InString lit) stack (b @ t) = scanBytes (InString (lit @ b)) stack t"
  by (induction b arbitrary: lit) auto

lemma scan_u4:
  assumes "isHexByte w" "isHexByte x" "isHexByte y" "isHexByte z"
  shows "scanBytes (InString lit) stack (CHR 0x5C # CHR ''u'' # w # x # y # z # t) =
    scanBytes (InString (lit @ [CHR 0x5C, CHR ''u'', w, x, y, z])) stack t"
  using assms by (simp add: escapable_def eval_nat_numeral)

lemma isHexByte_lowerHex: "0 \<le> n \<Longrightarrow> n < 16 \<Longrightarrow> isHexByte (lowerHex n)"
  using byte_char [of "48 + n"] byte_char [of "87 + n"] by (auto simp: isHexByte_def lowerHex_def is_digit_def)

lemma scan_escapeByte:
  assumes "byte_of c < 0x80"
  shows "scanBytes (InString lit) stack (escapeByte c @ t) = scanBytes (InString (lit @ escapeByte c)) stack t"
proof (cases "c \<in> set [CHR 0x5C, CHR 0x22, CHR 0x08, CHR 0x0C, CHR 0x0A, CHR 0x0D, CHR 0x09]")
  case True
  then show ?thesis by (auto simp: escapeByte_def escapable_def)
next
  case False
  have "isHexByte CHR ''0''" by (simp add: isHexByte_def is_digit_def)
  moreover have "isHexByte (lowerHex (byte_of c div 16))" "isHexByte (lowerHex (byte_of c mod 16))"
    using assms byte_range [of c] by (intro isHexByte_lowerHex; simp)+
  ultimately show ?thesis using False scan_u4 by (simp add: escapeByte_def)
qed

lemma scan_escapeRune:
  "decoded r b \<Longrightarrow>
   scanBytes (InString lit) stack (escapeRune (r, b) @ t) = scanBytes (InString (lit @ escapeRune (r, b))) stack t"
proof (induction rule: decoded_cases)
  case (ascii c)
  have "0x20 \<le> byte_of c \<and> c \<noteq> CHR 0x22 \<and> c \<noteq> CHR 0x5C" if "htmlSafe c" using that by (auto simp: htmlSafe_def)
  then show ?case using ascii scan_plain [of "[c]" lit stack t] scan_escapeByte [of c lit stack t] by (auto simp: escapeRune_def)
next
  case invalid
  have "isHexByte CHR ''f''" "isHexByte CHR ''d''" by (simp_all add: isHexByte_def is_digit_def)
  then show ?case using invalid by (simp add: escapeRune_def RuneError_def scan_u4)
next
  case sequence
  have "isHexByte CHR ''2''" "isHexByte CHR ''0''" by (simp_all add: isHexByte_def is_digit_def)
  moreover have "isHexByte (lowerHex (r mod 16))" by (simp add: isHexByte_lowerHex)
  moreover have "list_all (\<lambda>c. 0x20 \<le> byte_of c \<and> c \<noteq> CHR 0x22 \<and> c \<noteq> CHR 0x5C) b"
    using sequence(5) by (rule list.pred_mono_strong) auto
  ultimately show ?case using sequence scan_plain [of b lit stack t] scan_u4 by (auto simp: escapeRune_def)
qed

lemma scan_escaped:
  "scanBytes (InString []) stack (concat (map escapeRune (runes s)) @ t) =
   scanBytes (InString (concat (map escapeRune (runes s)))) stack t"
proof -
  have "scanBytes (InString lit) stack (concat (map escapeRune rs) @ t) =
      scanBytes (InString (lit @ concat (map escapeRune rs))) stack t"
    if "\<And>r b. (r, b) \<in> set rs \<Longrightarrow> decoded r b" for rs lit
    using that
  proof (induction rs arbitrary: lit)
    case (Cons rb rs)
    then show ?case using scan_escapeRune [of "fst rb" "snd rb"] by (cases rb) simp
  qed simp
  then show ?thesis using runes_decoded by (metis append_Nil)
qed

text \<open>The scanner reads a string where it expects a value or a key.\<close>

lemma scan_appendString:
  assumes "st = BeginValue \<or> st = BeginString \<or> st = BeginStringOrEmpty"
  shows "scanBytes st stack (appendString s @ t) = scanBytes (EndValue (JString (ToValid s))) stack t"
proof -
  have "scanBytes st stack (appendString s @ t) =
      scanBytes (InString []) stack (concat (map escapeRune (runes s)) @ CHR 0x22 # t)"
    using assms by (auto simp: appendString_def beginValue_def beginString_def isSpaceByte_def)
  then show ?thesis by (simp add: scan_escaped unquote_escaped)
qed

section \<open>Objects\<close>

definition encodedMember :: "string \<times> string \<Rightarrow> string" where
  "encodedMember m = appendString (fst m) @ CHR '':'' # appendString (snd m)"

definition validMember :: "string \<times> string \<Rightarrow> string \<times> string" where
  "validMember m = (ToValid (fst m), ToValid (snd m))"

lemma Marshal_stringObject:
  "Marshal (stringObject ms) = CHR ''{'' # Join (map encodedMember ms) '','' @ ''}''"
  by (simp add: stringObject_def encodedMember_def [abs_def] case_prod_unfold comp_def)

lemma scan_member:
  assumes "st = BeginString \<or> st = BeginStringOrEmpty"
  shows "scanBytes st (ObjectKey ms # fs) (encodedMember m @ t) =
    scanBytes (EndValue (JString (ToValid (snd m)))) (ObjectValue ms (ToValid (fst m)) # fs) t"
  using assms by (auto simp: encodedMember_def scan_appendString endValue_def isSpaceByte_def)

lemma scan_members:
  assumes "st = BeginString \<or> st = BeginStringOrEmpty"
  shows "scanBytes st [ObjectKey ms] (Join (map encodedMember (m # rest)) '','' @ CHR ''}'' # t) =
    Inl (Inr (JObject (ms @ map (\<lambda>(k, v). (k, JString v)) (map validMember (m # rest))), t))"
  using assms
proof (induction rest arbitrary: m ms st)
  case Nil
  then show ?case
    by (simp add: scan_member endValue_def isSpaceByte_def popParseState_def validMember_def)
next
  case (Cons m' rest)
  have "scanBytes st [ObjectKey ms] (Join (map encodedMember (m # m' # rest)) '','' @ CHR ''}'' # t) =
      scanBytes BeginString [ObjectKey (ms @ [(ToValid (fst m), JString (ToValid (snd m)))])]
        (Join (map encodedMember (m' # rest)) '','' @ CHR ''}'' # t)"
    using Cons.prems by (simp add: scan_member endValue_def isSpaceByte_def)
  then show ?case using Cons.IH [of BeginString] by (simp add: validMember_def)
qed

lemma scan_stringObject:
  "scanBytes BeginValue [] (Marshal (stringObject ms) @ t) = Inl (Inr (stringObject (map validMember ms), t))"
proof -
  have "scanBytes BeginValue [] (Marshal (stringObject ms) @ t) =
      scanBytes BeginStringOrEmpty [ObjectKey []] (Join (map encodedMember ms) '','' @ CHR ''}'' # t)"
    by (simp add: Marshal_stringObject beginValue_def isSpaceByte_def pushParseState_def maxNestingDepth_def)
  also have "\<dots> = Inl (Inr (stringObject (map validMember ms), t))"
  proof (cases ms)
    case Nil
    then show ?thesis by (simp add: isSpaceByte_def popParseState_def stringObject_def)
  next
    case (Cons m rest)
    then show ?thesis using scan_members [of BeginStringOrEmpty "[]"] by (simp add: stringObject_def)
  qed
  finally show ?thesis .
qed

lemma readValue_stringObject:
  "visible b = Marshal (stringObject ms) @ t \<Longrightarrow>
   readValue b = Inr (stringObject (map validMember ms), b\<lparr>visible := t\<rparr>)"
  by (simp add: readValue_def scan_stringObject)

lemma storeMember_known:
  "k \<in> set names \<Longrightarrow> storeMember d names (k, JString v) (vals, ok) = (vals(k := v), ok)"
  by (simp add: storeMember_def findField_def)

lemma storeMember_unknown:
  "findField names k = None \<Longrightarrow> storeMember False names (k, v) acc = acc"
  by (simp add: storeMember_def split: prod.split)

lemma Decode_stringObject:
  assumes "visible b = Marshal (stringObject ms) @ t"
  shows "Decode d names b =
    (case fold (storeMember d names) (map (\<lambda>(k, v). (k, JString v)) (map validMember ms)) (\<lambda>_. '''', True) of
       (vals, ok) \<Rightarrow> if ok then Inr (vals, b\<lparr>visible := t\<rparr>) else Inl UnmarshalError)"
  using readValue_stringObject [OF assms]
  by (simp add: Decode_def unmarshalStruct_def stringObject_def Let_def andThen_def split: prod.split)

section \<open>The end of the input\<close>

text \<open>A decoder reports the end of the input only if nothing but white space was left to read, and
  never when the limit of the body was hit.\<close>

lemma step_space:
  "isSpaceByte c \<Longrightarrow> step c BeginValue [] = Continue BeginValue []"
  by (simp add: beginValue_def)

lemma scan_space: "list_all isSpaceByte s \<Longrightarrow> scanBytes BeginValue [] (s @ t) = scanBytes BeginValue [] t"
  by (induction s) (simp_all add: beginValue_def)

lemma readValue_EOF: "readValue b = Inl EOF \<longleftrightarrow> list_all isSpaceByte (visible b) \<and> \<not> overflows b"
proof
  have noEOF: "scanBytes st stack s = Inl (Inl e) \<Longrightarrow> e = SyntaxError" for st stack s e
    by (induction s arbitrary: st stack) (auto split: scanResult.splits)
  assume "readValue b = Inl EOF"
  then show "list_all isSpaceByte (visible b) \<and> \<not> overflows b"
    using noEOF [of BeginValue "[]" "visible b"]
    by (fastforce simp: readValue_def split: sum.splits prod.splits if_splits scanResult.splits)
next
  assume a: "list_all isSpaceByte (visible b) \<and> \<not> overflows b"
  then have "scanBytes BeginValue [] (visible b) = Inr (BeginValue, [])" using scan_space [of "visible b" "[]"] by simp
  then show "readValue b = Inl EOF" using a by (simp add: readValue_def beginValue_def isSpaceByte_def)
qed

lemma Decode_EOF: "Decode d names b = Inl EOF \<longleftrightarrow> list_all isSpaceByte (visible b) \<and> \<not> overflows b"
proof -
  have "unmarshalStruct d names v \<noteq> Inl EOF" for v
    by (auto simp: unmarshalStruct_def Let_def split: json.splits prod.splits)
  then show ?thesis
    unfolding readValue_EOF [symmetric] by (auto simp: Decode_def andThen_def split: sum.splits prod.splits)
qed

lemma Decode_rest: "Decode d names b = Inr (vals, rest) \<Longrightarrow> overflows rest = overflows b"
  by (auto simp: Decode_def readValue_def andThen_def split: sum.splits prod.splits if_splits scanResult.splits)

section \<open>Input that is cut off\<close>

lemma scanBytes_append:
  "scanBytes st stack (x @ y) =
   (case scanBytes st stack x of
      Inr (st', stack') \<Rightarrow> scanBytes st' stack' y
    | Inl (Inr (v, rest)) \<Rightarrow> Inl (Inr (v, rest @ y))
    | Inl (Inl e) \<Rightarrow> Inl (Inl e))"
  by (induction x arbitrary: st stack) (simp_all split: scanResult.split)

text \<open>A value that is complete only later leaves the scanner in the middle.\<close>

lemma scanBytes_cut:
  assumes "scanBytes st stack (x @ y) = Inl (Inr (v, rest))" "length rest < length y"
  obtains st' stack' where "scanBytes st stack x = Inr (st', stack')"
  using assms by (auto simp: scanBytes_append split: sum.splits prod.splits)

lemma popParseState_nonempty: "popParseState v stack = Continue st' stack' \<Longrightarrow> stack' \<noteq> []"
  by (auto simp: popParseState_def split: if_splits)

lemma endValue_nonempty: "endValue c v stack = Continue st' stack' \<Longrightarrow> stack' \<noteq> []"
  by (auto simp: endValue_def dest: popParseState_nonempty split: list.splits if_splits frame.splits json.splits)

lemma begin_nonempty:
  "stack \<noteq> [] \<Longrightarrow> beginValue c stack = Continue st' stack' \<Longrightarrow> stack' \<noteq> []"
  "stack \<noteq> [] \<Longrightarrow> beginString c stack = Continue st' stack' \<Longrightarrow> stack' \<noteq> []"
  by (auto simp: beginValue_def beginString_def pushParseState_def split: if_splits)

lemma numberStep_nonempty: "stack \<noteq> [] \<Longrightarrow> numberStep c n lit stack = Continue st' stack' \<Longrightarrow> stack' \<noteq> []"
  by (cases n) (auto simp: numberStep_def Let_def dest: endValue_nonempty split: if_splits)

lemma step_nonempty: "step c st stack = Continue st' stack' \<Longrightarrow> stack \<noteq> [] \<Longrightarrow> stack' \<noteq> []"
  by (cases st)
    (auto dest: endValue_nonempty popParseState_nonempty begin_nonempty numberStep_nonempty
      split: if_splits list.splits frame.splits)

lemma scanBytes_nonempty: "scanBytes st stack x = Inr (st', stack') \<Longrightarrow> stack \<noteq> [] \<Longrightarrow> stack' \<noteq> []"
  by (induction x arbitrary: st stack) (auto dest: step_nonempty split: scanResult.splits)

lemma endValue_inner: "stack \<noteq> [] \<Longrightarrow> endValue c v stack \<noteq> EndBefore v'"
  by (auto simp: endValue_def popParseState_def split: list.splits if_splits frame.splits json.splits)

lemma begin_inner: "beginValue c stack \<noteq> EndBefore v" "beginString c stack \<noteq> EndBefore v" "popParseState w stack \<noteq> EndBefore v"
  by (simp_all add: beginValue_def beginString_def pushParseState_def popParseState_def)

lemma numberStep_inner: "stack \<noteq> [] \<Longrightarrow> numberStep c n lit stack \<noteq> EndBefore v"
  by (cases n) (simp_all add: numberStep_def endValue_inner Let_def)

lemma step_inner: "stack \<noteq> [] \<Longrightarrow> step c st stack \<noteq> EndBefore v"
  by (cases st) (auto simp: begin_inner numberStep_inner endValue_inner split: list.splits frame.splits)

lemma readValue_cut:
  assumes "length (visible b) < length (Marshal (stringObject ms))" "\<not> overflows b"
    "Marshal (stringObject ms) = visible b @ y"
  shows "readValue b = Inl EOF \<or> readValue b = Inl UnexpectedEOF"
proof (cases "visible b")
  case Nil
  then show ?thesis using assms(2) by (simp add: readValue_EOF)
next
  case (Cons c x)
  have full: "scanBytes BeginValue [] (Marshal (stringObject ms) @ []) = Inl (Inr (stringObject (map validMember ms), []))"
    by (rule scan_stringObject)
  have c: "c = CHR ''{''" using assms(3) Cons by (simp add: Marshal_stringObject)
  have y: "length [] < length y" using assms(1,3) by (cases y) auto
  have "scanBytes BeginValue [] (visible b @ y) = Inl (Inr (stringObject (map validMember ms), []))"
    using full assms(3) by simp
  then obtain st' stack' where i: "scanBytes BeginValue [] (visible b) = Inr (st', stack')"
    using y by (rule scanBytes_cut)
  then have "scanBytes BeginStringOrEmpty [ObjectKey []] x = Inr (st', stack')"
    by (simp add: Cons c beginValue_def isSpaceByte_def pushParseState_def maxNestingDepth_def)
  then have "stack' \<noteq> []" using scanBytes_nonempty by blast
  then show ?thesis using i assms(2) step_inner [of stack' "CHR 0x20" st']
    by (auto simp: readValue_def split: scanResult.split)
qed

end
