(* ===== verification/HttpApiProperties.thy ===== *)
theory HttpApiProperties
  imports HttpApi JsonRoundtrip ManagerProperties
begin

text \<open>
  The HTTP interface: nobody gets past the token, the service is only called with safe
  arguments, and together with the session manager the four kinds of requests behave like a
  map of sessions.
\<close>

section \<open>Authorisation\<close>

lemma matchRoute_v1: "matchRoute segs = Some rt \<Longrightarrow> rt \<noteq> Health \<Longrightarrow> \<exists>w ws. segs = ''v1'' # w # ws"
  by (cases segs; cases "tl segs") (auto simp: matchRoute_def split: if_splits)

text \<open>The multiplexer works on the encoded path and the check of the token on the decoded one.
  Nevertheless every path that it routes below \<^verbatim>\<open>/v1/\<close> is one that the check sees there.\<close>

lemma muxFind_v1:
  assumes "muxFind meth p = MuxHandle rt" "rt \<noteq> Health" "meth \<noteq> ''CONNECT''" "Unescape p = Some d"
  shows "HasPrefix d ''/v1/''"
proof -
  have p: "cleanPath p = p" "matchRoute (pathSegments p) = Some rt"
    using assms(1,3) by (auto simp: muxFind_def Let_def split: if_splits option.splits)
  obtain q where q: "p = CHR ''/'' # q" using cleanPath_rooted [of p] p(1) by auto
  obtain w ws where "pathSegments p = ''v1'' # w # ws" using matchRoute_v1 [OF p(2) assms(2)] by auto
  from pathSegments_prefix [OF this [unfolded q] assms(4) [unfolded q]] show ?thesis by simp
qed

lemma authorized_iff:
  "authorized (newHandler token svc) header \<longleftrightarrow>
   (\<exists>t. header = ''Bearer '' @ t \<and> Sum256 t = Sum256 token)"
proof -
  have "TrimPrefix (''Bearer '' @ t) ''Bearer '' = t" for t
    by (simp add: TrimPrefix_def HasPrefix_iff)
  then show ?thesis by (auto simp: authorized_def newHandler_def HasPrefix_iff)
qed

lemma serveRoute_connect:
  "requestMethod r \<noteq> ''POST'' \<Longrightarrow> requestMethod r \<noteq> ''DELETE'' \<Longrightarrow> rt \<noteq> Health \<Longrightarrow>
   fst (serveRoute svc r rt st) = st \<and> statusCode (fst (snd (serveRoute svc r rt st))) \<noteq> 200"
  by (cases rt) (simp_all add: serveRoute_def createSession_def connectedHandler_def sessionHandler_def
      methodNotAllowed_def writeError_def writeJSON_def)

text \<open>C8: without the token nothing happens: if the header does not carry a token with the hash of the
  configured one, no request changes the sessions, and the only success is the health check.
  The path of the request is given decoded and encoded, as \<^verbatim>\<open>net/url\<close> provides it.\<close>

theorem unauthorized_no_effect:
  assumes "Unescape (escapedPath r) = Some (urlPath r)"
    "\<And>t. authorization r = ''Bearer '' @ t \<Longrightarrow> Sum256 t \<noteq> Sum256 token"
    "ServeHTTP (newHandler token svc) r st = (st', resp, log)"
  shows "st' = st \<and> (statusCode resp = 200 \<longrightarrow>
    muxFind (requestMethod r) (escapedPath r) = MuxHandle Health \<and> payload resp = encodeJSON (stringObject [(''status'', ''ok'')]))"
proof -
  let ?h = "newHandler token svc"
  have auth: "\<not> authorized ?h (authorization r)" using assms(2) unfolding authorized_iff by blast
  show ?thesis
  proof (cases "HasPrefix (urlPath r) ''/v1/''")
    case True
    then show ?thesis using assms(3) auth by (auto simp: ServeHTTP_def writeError_def writeJSON_def)
  next
    case False
    then have mux: "muxServe svc r st = (st', resp, log)"
      using assms(3) by (simp add: ServeHTTP_def newHandler_def)
    show ?thesis
    proof (cases "muxFind (requestMethod r) (escapedPath r)")
      case (MuxHandle rt)
      then have s: "serveRoute svc r rt st = (st', resp, log)" using mux by (simp add: muxServe_def)
      show ?thesis
      proof (cases "rt = Health")
        case True
        then show ?thesis using s MuxHandle
          by (auto simp: serveRoute_def health_def methodNotAllowed_def writeError_def writeJSON_def split: if_splits)
      next
        case other: False
        then have "requestMethod r = ''CONNECT''" using muxFind_v1 [OF MuxHandle other _ assms(1)] False by blast
        then show ?thesis using serveRoute_connect [of r rt svc st] other s by simp
      qed
    qed (use mux in \<open>auto simp: muxServe_def\<close>)
  qed
qed

section \<open>The arguments of the service\<close>

text \<open>A body that is decoded was read to its end, so it was not longer than the limit.\<close>

lemma decodeJSON_limit:
  assumes "decodeJSON s = Inr req"
  shows "length s \<le> maxRequestBody"
proof -
  define b where "b = MaxBytesReader maxRequestBody s"
  have "\<not> overflows b"
  proof (cases "Decode True [''sessionId'', ''offerSdp''] b")
    case (Inl e)
    then show ?thesis using assms by (simp add: decodeJSON_def b_def [symmetric])
  next
    case (Inr vr)
    then have "Decode True [] (snd vr) = Inl EOF"
      using assms by (auto simp: decodeJSON_def b_def [symmetric] split: sum.splits prod.splits decodeError.splits)
    then have "\<not> overflows (snd vr)" by (simp add: Decode_EOF)
    then show ?thesis using Decode_rest [of True _ b "fst vr" "snd vr"] Inr by simp
  qed
  then show ?thesis by (simp add: b_def MaxBytesReader_def)
qed

lemma decodeJSON_status: "decodeJSON s = Inl code \<Longrightarrow> code = 413 \<or> code = 400"
  by (auto simp: decodeJSON_def split: sum.splits prod.splits decodeError.splits if_splits)

text \<open>The body that a client writes for a request is read back.\<close>

definition requestText :: "createSessionRequest \<Rightarrow> string" where
  "requestText req = Marshal (stringObject [(''sessionId'', SessionID req), (''offerSdp'', OfferSDP req)])"

lemma ToValid_names:
  "ToValid ''sessionId'' = ''sessionId''" "ToValid ''offerSdp'' = ''offerSdp''" "ToValid ''answerSdp'' = ''answerSdp''"
  by (simp_all add: ToValid_valid ValidString_ascii)

lemma decodeJSON_requestText:
  assumes "length (requestText req) \<le> maxRequestBody"
  shows "decodeJSON (requestText req) = Inr \<lparr>SessionID = ToValid (SessionID req), OfferSDP = ToValid (OfferSDP req)\<rparr>"
proof -
  let ?b = "MaxBytesReader maxRequestBody (requestText req)" and ?names = "[''sessionId'', ''offerSdp'']"
  have v: "visible ?b = Marshal (stringObject [(''sessionId'', SessionID req), (''offerSdp'', OfferSDP req)]) @ []"
    and o: "\<not> overflows ?b" using assms by (simp_all add: MaxBytesReader_def requestText_def)
  have "Decode True ?names ?b = Inr ((\<lambda>_. '''')(''sessionId'' := ToValid (SessionID req), ''offerSdp'' := ToValid (OfferSDP req)),
      ?b\<lparr>visible := []\<rparr>)"
    unfolding Decode_stringObject [OF v] by (simp add: validMember_def ToValid_names storeMember_known)
  moreover have "Decode True [] (?b\<lparr>visible := []\<rparr>) = Inl EOF" using o by (simp add: Decode_EOF)
  ultimately show ?thesis by (simp add: decodeJSON_def)
qed

definition exRequest :: "string \<Rightarrow> string \<Rightarrow> httpRequest" where
  "exRequest meth p = \<lparr>requestMethod = meth, urlPath = p, escapedPath = p, authorization = ''Bearer secret'',
     contentType = ''application/json; charset=utf-8'',
     requestBody = requestText \<lparr>SessionID = ''a'', OfferSDP = ''v=0''\<rparr>\<rparr>"

lemma exBody: "decodeJSON (requestBody (exRequest meth p)) = Inr \<lparr>SessionID = ''a'', OfferSDP = ''v=0''\<rparr>"
proof -
  let ?req = "\<lparr>SessionID = ''a'', OfferSDP = ''v=0''\<rparr>"
  have "length (requestText ?req) = 34" by code_simp
  then have "length (requestText ?req) \<le> maxRequestBody" by simp
  then show ?thesis by (simp add: exRequest_def decodeJSON_requestText ToValid_valid ValidString_ascii)
qed

lemma exRequest_facts:
  "requestMethod (exRequest meth p) = meth" "escapedPath (exRequest meth p) = p" "urlPath (exRequest meth p) = p"
  "authorization (exRequest meth p) = ''Bearer secret''"
  "ParseMediaType (contentType (exRequest meth p)) = Some ''application/json''"
  "sessionIDPattern ''a''" "TrimSpace ''v=0'' \<noteq> ''''"
proof -
  show "ParseMediaType (contentType (exRequest meth p)) = Some ''application/json''"
    unfolding exRequest_def httpRequest.simps by code_simp
  show "sessionIDPattern ''a''" "TrimSpace ''v=0'' \<noteq> ''''" by code_simp+
qed (simp_all add: exRequest_def)

definition exService :: "string list sessionService" where
  "exService = \<lparr>serviceCreate = (\<lambda>ident offer st. (ident # st, Inr ''v=0'')),
     serviceMarkConnected = (\<lambda>ident st. (st, None)), serviceClose = (\<lambda>ident st. ([], None))\<rparr>"

theorem unauthorized_no_effect_witness:
  "fst (ServeHTTP (newHandler ''secret'' exService) ((exRequest ''POST'' ''/v1/rtc/sessions'')\<lparr>authorization := ''''\<rparr>) []) = []"
proof -
  let ?r = "(exRequest ''POST'' ''/v1/rtc/sessions'')\<lparr>authorization := ''''\<rparr>"
  have u: "Unescape (escapedPath ?r) = Some (urlPath ?r)" by (simp add: exRequest_def)
  have t: "\<And>t. authorization ?r = ''Bearer '' @ t \<Longrightarrow> Sum256 t \<noteq> Sum256 ''secret''" by simp
  obtain st' resp log where s: "ServeHTTP (newHandler ''secret'' exService) ?r [] = (st', resp, log)" by (rule prod_cases3)
  from unauthorized_no_effect [OF u t s] s show ?thesis by simp
qed

text \<open>C28: a session is only ever created for a JSON body of at most 1 MiB, an identifier of 1 to 128
  safe characters and an offer that is not blank; every other request to create one leaves
  the sessions alone and is answered with 400, 405, 413 or 415.\<close>

theorem createSession_guarded:
  assumes "createSession svc r st = (st', resp, log)"
  shows "(\<exists>req. decodeJSON (requestBody r) = Inr req \<and> requestMethod r = ''POST'' \<and>
      ParseMediaType (contentType r) = Some ''application/json'' \<and> length (requestBody r) \<le> 1048576 \<and>
      SessionID req \<noteq> [] \<and> length (SessionID req) \<le> 128 \<and> list_all idChar (SessionID req) \<and>
      TrimSpace (OfferSDP req) \<noteq> '''' \<and> st' = fst (serviceCreate svc (SessionID req) (OfferSDP req) st)) \<or>
    (st' = st \<and> log = [] \<and> statusCode resp \<in> {400, 405, 413, 415})"
proof -
  have ident: "s \<noteq> [] \<and> length s \<le> 128 \<and> list_all idChar s" if "sessionIDPattern s" for s
    using that by (cases s) (auto simp: sessionIDPattern_def idChar_def)
  show ?thesis
  proof (cases "decodeJSON (requestBody r)")
    case (Inl code)
    then show ?thesis using assms decodeJSON_status [OF Inl]
      by (auto simp: createSession_def methodNotAllowed_def writeError_def writeJSON_def split: if_splits)
  next
    case (Inr req)
    show ?thesis
    proof (cases "requestMethod r = ''POST'' \<and> ParseMediaType (contentType r) = Some ''application/json'' \<and>
        sessionIDPattern (SessionID req) \<and> TrimSpace (OfferSDP req) \<noteq> ''''")
      case True
      then have "st' = fst (serviceCreate svc (SessionID req) (OfferSDP req) st)"
        using assms Inr by (auto simp: createSession_def split: prod.splits sum.splits)
      then show ?thesis using True Inr ident [of "SessionID req"] decodeJSON_limit [OF Inr] by blast
    next
      case False
      then show ?thesis using assms Inr
        by (auto simp: createSession_def methodNotAllowed_def invalidSessionID_def writeError_def writeJSON_def
            split: if_splits)
    qed
  qed
qed

theorem createSession_guarded_witness:
  "fst (createSession exService (exRequest ''POST'' ''/v1/rtc/sessions'') []) = [''a'']"
proof -
  let ?r = "exRequest ''POST'' ''/v1/rtc/sessions''"
  obtain st' resp log where s: "createSession exService ?r [] = (st', resp, log)" by (rule prod_cases3)
  have "statusCode resp = 200" using s by (auto simp: createSession_def exService_def exRequest_facts exBody writeJSON_def)
  then show ?thesis using createSession_guarded [OF s] s by (auto simp: exService_def exBody)
qed

section \<open>The interface to the sessions\<close>

text \<open>What the handlers rely on: \<open>used\<close> identifiers cannot be created again, \<open>live\<close> ones can be
  marked and closed, and a closed one is free again.\<close>

locale session_service =
  fixes svc :: "'st sessionService"
    and used :: "'st \<Rightarrow> string \<Rightarrow> bool"
    and live :: "'st \<Rightarrow> string \<Rightarrow> bool"
  assumes live_used: "live st i \<Longrightarrow> used st i"
    and create_used: "used st i \<Longrightarrow> serviceCreate svc i offer st = (st, Inl ErrSessionExists)"
    and create_live: "serviceCreate svc i offer st = (st', Inr answer) \<Longrightarrow> live st' i"
    and mark_live: "live st i \<Longrightarrow> snd (serviceMarkConnected svc i st) = None"
    and mark_dead: "\<not> live st i \<Longrightarrow> serviceMarkConnected svc i st = (st, Some ErrSessionNotFound)"
    and close_free: "\<not> used (fst (serviceClose svc i st)) i"
    and close_dead: "\<not> live st i \<Longrightarrow> snd (serviceClose svc i st) = Some ErrSessionNotFound"
    and close_live: "live st i \<Longrightarrow> snd (serviceClose svc i st) = None \<or>
      (\<exists>msg. snd (serviceClose svc i st) = Some (OtherError msg))"
begin

lemma create_conflict:
  assumes "createSession svc r st = (st', resp, log)" "statusCode resp = 200"
    "decodeJSON (requestBody r) = Inr req"
  shows "live st' (SessionID req) \<and> createSession svc r st' =
    (st', writeError 409 ''session_exists'' ''sessionId already exists'', [])"
proof -
  have ne: "statusCode (fst (writeRTCError i e)) \<noteq> 200" for i e
    by (simp add: writeRTCError_def rtcErrorClass_def writeError_def writeJSON_def Let_def)
  have g: "requestMethod r = ''POST''" "ParseMediaType (contentType r) = Some ''application/json''" "sessionIDPattern (SessionID req)"
    "TrimSpace (OfferSDP req) \<noteq> ''''"
    using assms by (auto simp: createSession_def methodNotAllowed_def invalidSessionID_def writeError_def writeJSON_def
        split: if_splits)
  obtain st1 res where c: "serviceCreate svc (SessionID req) (OfferSDP req) st = (st1, res)" by (rule prod.exhaust)
  have "live st' (SessionID req)"
  proof (cases res)
    case (Inl e)
    then have "resp = fst (writeRTCError (SessionID req) e)"
      using assms(1,3) g c by (auto simp: createSession_def)
    with ne assms(2) show ?thesis by blast
  next
    case (Inr answer)
    then have "st' = st1" using assms(1,3) g c by (simp add: createSession_def)
    then show ?thesis using create_live c Inr by simp
  qed
  then show ?thesis using g assms(3) create_used [OF live_used]
    by (simp add: createSession_def writeRTCError_def rtcErrorClass_def)
qed

lemma connected_status:
  "requestMethod r = ''POST'' \<Longrightarrow> sessionIDPattern ident \<Longrightarrow>
   statusCode (fst (snd (connectedHandler svc r ident st))) = (if live st ident then 200 else 404)"
  using mark_live [of st ident] mark_dead [of st ident]
  by (cases "serviceMarkConnected svc ident st")
    (auto simp: connectedHandler_def writeRTCError_def rtcErrorClass_def writeError_def writeJSON_def)

lemma delete_status:
  assumes "requestMethod r = ''DELETE''" "sessionIDPattern ident" "sessionHandler svc r ident st = (st', resp, log)"
  shows "\<not> used st' ident \<and> \<not> live st' ident \<and>
    (live st ident \<longrightarrow> statusCode resp = 200 \<or> statusCode resp = 500) \<and> (\<not> live st ident \<longrightarrow> statusCode resp = 404)"
proof -
  obtain st1 err where c: "serviceClose svc ident st = (st1, err)" by (rule prod.exhaust)
  have "st' = st1" using assms c by (auto simp: sessionHandler_def split: option.splits)
  then have "\<not> used st' ident" using close_free [of ident st] c by simp
  then show ?thesis using assms c live_used close_dead [of st ident] close_live [of st ident]
    by (auto simp: sessionHandler_def writeRTCError_def rtcErrorClass_def writeError_def writeJSON_def
        split: option.splits)
qed

end

section \<open>The manager behind the interface\<close>

text \<open>The manager as the service of the handlers, for requests that are served one after the other:
  no other call changes the manager while \<^verbatim>\<open>Create\<close> is under way.  \<open>factory\<close> is what \<^verbatim>\<open>NewSession\<close> returns
  for an identifier and an offer; if the session it returns was closed by its own goroutines,
  \<^verbatim>\<open>Create\<close> sees the effect of the callback.\<close>

definition managerService ::
  "sessionConfig \<Rightarrow> ('w \<Rightarrow> 'w \<times> string option) \<Rightarrow> (nat \<Rightarrow> string option) \<Rightarrow> duration \<Rightarrow>
   (string \<Rightarrow> string \<Rightarrow> (rtcError, 'w session \<times> string) result) \<Rightarrow> 'w manager sessionService" where
  "managerService cfg C pe ttl factory =
     \<lparr>serviceCreate = (\<lambda>ident offer. Create cfg C pe ttl (factory ident offer) (\<lambda>m. m) ident),
      serviceMarkConnected = MarkConnectedId, serviceClose = CloseId cfg C pe\<rparr>"

lemma managerService_simps [simp]:
  "serviceCreate (managerService cfg C pe ttl factory) ident offer =
     Create cfg C pe ttl (factory ident offer) (\<lambda>m. m) ident"
  "serviceMarkConnected (managerService cfg C pe ttl factory) = MarkConnectedId"
  "serviceClose (managerService cfg C pe ttl factory) = CloseId cfg C pe"
  by (simp_all add: managerService_def)

definition inUse :: "'w manager \<Rightarrow> string \<Rightarrow> bool" where
  "inUse m ident = (lookup m ident \<noteq> None)"

definition isLive :: "'w manager \<Rightarrow> string \<Rightarrow> bool" where
  "isLive m ident = (published m ident \<noteq> None)"

lemma Create_live: "Create cfg C pe ttl f (\<lambda>m. m) ident m = (m', Inr a) \<Longrightarrow> isLive m' ident"
  by (auto simp: isLive_def Create_def reserve_def addSession_def calledBack_def removeEntry_def publish_def published_def
      onSession_def Let_def map_of_delete split: sum.splits option.splits if_splits)

lemma CloseId_free: "lookup (fst (CloseId cfg C pe ident m)) ident = None"
proof (cases "lookup m ident")
  case None
  then show ?thesis by (simp add: CloseId_def closeLocked_def)
next
  case (Some e)
  let ?m = "m\<lparr>sessions := AList.delete ident (sessions m)\<rparr>"
  have n: "lookup ?m ident = None" by (simp add: map_of_delete)
  have "lookup (fst (closeSession cfg C pe k ?m)) ident = None" for k
    using closeSession_lookup [of cfg C pe k ?m ident] n by (metis not_None_eq)
  then show ?thesis using Some n
    by (auto simp: CloseId_def closeLocked_def case_prod_unfold Let_def split: option.splits)
qed

interpretation managed: session_service "managerService cfg C pe ttl factory" inUse isLive
  for cfg C pe ttl factory
proof
  fix m :: "'a manager" and i offer st' answer
  show "isLive m i \<Longrightarrow> inUse m i" by (auto simp: isLive_def inUse_def published_def split: option.splits)
  show "inUse m i \<Longrightarrow> serviceCreate (managerService cfg C pe ttl factory) i offer m = (m, Inl ErrSessionExists)"
    by (auto simp: inUse_def Create_def reserve_def)
  show "serviceCreate (managerService cfg C pe ttl factory) i offer m = (st', Inr answer) \<Longrightarrow> isLive st' i"
    by (auto intro: Create_live)
  show "isLive m i \<Longrightarrow> snd (serviceMarkConnected (managerService cfg C pe ttl factory) i m) = None"
    by (auto simp: isLive_def MarkConnectedId_def)
  show "\<not> isLive m i \<Longrightarrow>
      serviceMarkConnected (managerService cfg C pe ttl factory) i m = (m, Some ErrSessionNotFound)"
    by (auto simp: isLive_def MarkConnectedId_def)
  show "\<not> inUse (fst (serviceClose (managerService cfg C pe ttl factory) i m)) i"
    by (simp add: inUse_def CloseId_free)
  show "\<not> isLive m i \<Longrightarrow> snd (serviceClose (managerService cfg C pe ttl factory) i m) = Some ErrSessionNotFound"
    by (auto simp: isLive_def published_def CloseId_def closeLocked_def split: option.splits)
  show "isLive m i \<Longrightarrow> snd (serviceClose (managerService cfg C pe ttl factory) i m) = None \<or>
      (\<exists>msg. snd (serviceClose (managerService cfg C pe ttl factory) i m) = Some (OtherError msg))"
    by (auto simp: isLive_def published_def CloseId_def closeLocked_def case_prod_unfold Let_def split: option.splits)
qed

lemma ServeHTTP_route:
  "authorized h (authorization r) \<Longrightarrow> muxFind (requestMethod r) (escapedPath r) = MuxHandle rt \<Longrightarrow>
   ServeHTTP h r st = serveRoute (service h) r rt st"
  by (simp add: ServeHTTP_def muxServe_def)

text \<open>C19: the life of a session over HTTP, with the session manager behind the handlers.  After a
  request to create a session was answered with 200, the identifier is taken (the same request
  again is a conflict and changes nothing) and can be reported as connected.  Deleting it
  succeeds, or fails with 500 because its resources reported errors; either way it is gone,
  and reporting or deleting it again is answered with 404.\<close>

theorem http_session_lifecycle:
  assumes "h = newHandler token (managerService cfg C pe ttl factory)"
    "authorized h (authorization post)" "authorized h (authorization conn)"
    "authorized h (authorization del)"
    "muxFind (requestMethod post) (escapedPath post) = MuxHandle CreateSession"
    "muxFind (requestMethod conn) (escapedPath conn) = MuxHandle (ConnectedRoute ident)" "requestMethod conn = ''POST''"
    "muxFind (requestMethod del) (escapedPath del) = MuxHandle (SessionRoute ident)" "requestMethod del = ''DELETE''"
    "decodeJSON (requestBody post) = Inr req" "SessionID req = ident" "sessionIDPattern ident"
    "ServeHTTP h post m = (m1, resp1, log1)" "statusCode resp1 = 200"
    "ServeHTTP h del m1 = (m2, resp2, log2)"
  shows "isLive m1 ident \<and>
    ServeHTTP h post m1 = (m1, writeError 409 ''session_exists'' ''sessionId already exists'', []) \<and>
    statusCode (fst (snd (ServeHTTP h conn m1))) = 200 \<and>
    (statusCode resp2 = 200 \<or> statusCode resp2 = 500) \<and> \<not> inUse m2 ident \<and>
    statusCode (fst (snd (ServeHTTP h conn m2))) = 404 \<and>
    statusCode (fst (snd (ServeHTTP h del m2))) = 404"
proof -
  let ?svc = "managerService cfg C pe ttl factory"
  have svc: "service h = ?svc" by (simp add: assms(1) newHandler_def)
  have post: "ServeHTTP h post st = createSession ?svc post st" for st
    using ServeHTTP_route [OF assms(2,5)] svc by (simp add: serveRoute_def)
  have conn: "ServeHTTP h conn st = connectedHandler ?svc conn ident st" for st
    using ServeHTTP_route [OF assms(3,6)] svc by (simp add: serveRoute_def)
  have del: "ServeHTTP h del st = sessionHandler ?svc del ident st" for st
    using ServeHTTP_route [OF assms(4,8)] svc by (simp add: serveRoute_def)
  have live: "isLive m1 ident" and again: "createSession ?svc post m1 =
      (m1, writeError 409 ''session_exists'' ''sessionId already exists'', [])"
    using managed.create_conflict [OF assms(13) [unfolded post] assms(14,10)] assms(11) by simp_all
  have gone: "\<not> inUse m2 ident" "\<not> isLive m2 ident" "statusCode resp2 = 200 \<or> statusCode resp2 = 500"
    using managed.delete_status [OF assms(9,12) assms(15) [unfolded del]] live by blast+
  obtain m3 resp3 log3 where d3: "sessionHandler ?svc del ident m2 = (m3, resp3, log3)" by (rule prod_cases3)
  have "statusCode resp3 = 404" using managed.delete_status [OF assms(9,12) d3] gone(2) by blast
  then show ?thesis unfolding post conn del d3
    using live again gone by (simp add: managed.connected_status [OF assms(7,12)])
qed

theorem http_session_lifecycle_witness:
  "isLive (fst (ServeHTTP
     (newHandler ''secret'' (managerService exConfig exClose (\<lambda>_. None) second (\<lambda>i _. Inr (newSession i, ''v=0''))))
     (exRequest ''POST'' ''/v1/rtc/sessions'') (NewManager :: nat manager))) ''a''"
proof -
  let ?h = "newHandler ''secret'' (managerService exConfig exClose (\<lambda>_. None) second (\<lambda>i _. Inr (newSession i, ''v=0'')))"
  let ?post = "exRequest ''POST'' ''/v1/rtc/sessions''"
  let ?conn = "exRequest ''POST'' ''/v1/rtc/sessions/a/connected''"
  let ?del = "exRequest ''DELETE'' ''/v1/rtc/sessions/a''"
  have auth: "authorized ?h (authorization (exRequest me p))" for me p
    by (simp add: authorized_iff exRequest_def)
  have routes: "muxFind (requestMethod ?post) (escapedPath ?post) = MuxHandle CreateSession"
    "muxFind (requestMethod ?conn) (escapedPath ?conn) = MuxHandle (ConnectedRoute ''a'')"
    "muxFind (requestMethod ?del) (escapedPath ?del) = MuxHandle (SessionRoute ''a'')"
    by code_simp+
  have meth: "requestMethod ?conn = ''POST''" "requestMethod ?del = ''DELETE''" by (simp_all add: exRequest_facts)
  obtain m1 resp1 log1 where s1: "ServeHTTP ?h ?post (NewManager :: nat manager) = (m1, resp1, log1)"
    by (rule prod_cases3)
  have "snd (Create exConfig exClose (\<lambda>_. None) second (Inr (newSession ''a'', ''v=0'')) (\<lambda>m. m) ''a'' (NewManager :: nat manager)) =
      Inr ''v=0''" by code_simp
  then have ok: "statusCode resp1 = 200"
    using s1 unfolding ServeHTTP_route [OF auth routes(1)]
    by (auto simp: serveRoute_def newHandler_def createSession_def exRequest_facts exBody writeJSON_def split: prod.splits)
  obtain m2 resp2 log2 where s2: "ServeHTTP ?h ?del m1 = (m2, resp2, log2)" by (rule prod_cases3)
  show ?thesis
    using http_session_lifecycle [OF refl auth auth auth routes(1) routes(2) meth(1) routes(3) meth(2) exBody _ exRequest_facts(6) s1 ok s2] s1
    by simp
qed

end
