(* ===== verification/GoTime.thy ===== *)
theory GoTime
  imports GoNumbers "HOL-Library.Log_Nat"
begin

text \<open>
  \<^verbatim>\<open>time.ParseDuration\<close>: a sign and then numbers with a unit each, added up in 64 bits.  The
  fraction of a number goes through \<^verbatim>\<open>float64\<close>; the values that occur there are positive and
  far from the limits of the format, so rounding to 53 significant bits is all there is to it.
\<close>

section \<open>Rounding\<close>

text \<open>The nearest value with 53 significant bits to the positive fraction \<open>p / q\<close>, ties to even,
  again as a fraction.\<close>

definition roundHalfEven :: "int \<Rightarrow> int \<Rightarrow> int" where
  "roundHalfEven p q =
     (let m = p div q; r = 2 * (p mod q) in
      if r < q \<or> (r = q \<and> even m) then m else m + 1)"

definition toFloat64 :: "int \<times> int \<Rightarrow> int \<times> int" where
  "toFloat64 x =
     (let (p, q) = x; e = 53 - (bitlen p - bitlen q);
          scaled = (if 0 \<le> e then (p * 2 ^ nat e, q) else (p, q * 2 ^ nat (- e)));
          (p', q') = (if 2 ^ 53 * snd scaled \<le> fst scaled then (fst scaled, 2 * snd scaled) else scaled);
          e' = (if 2 ^ 53 * snd scaled \<le> fst scaled then e - 1 else e);
          m = roundHalfEven p' q' in
      if 0 \<le> e' then (m, 2 ^ nat e') else (m * 2 ^ nat (- e'), 1))"

definition fracMul :: "int \<times> int \<Rightarrow> int \<times> int \<Rightarrow> int \<times> int" where
  "fracMul x y = (fst x * fst y, snd x * snd y)"

text \<open>\<^verbatim>\<open>uint64(float64(f) * (float64(unit) / scale))\<close>; \<open>scale\<close> is a power of ten and, like the unit, a value
  that the format holds exactly.\<close>

definition fractionNanos :: "int \<Rightarrow> int \<Rightarrow> int \<Rightarrow> int" where
  "fractionNanos f unit scale =
     (let (p, q) = toFloat64 (fracMul (toFloat64 (f, 1)) (toFloat64 (unit, scale))) in p div q)"

section \<open>Numbers and units\<close>

fun leadingInt :: "string \<Rightarrow> int \<Rightarrow> (int \<times> string) option" where
  "leadingInt [] x = Some (x, [])"
| "leadingInt (c # s) x =
     (if \<not> is_digit c then Some (x, c # s)
      else if 2 ^ 63 div 10 < x then None
      else if 2 ^ 63 < 10 * x + digit_val c then None
      else leadingInt s (10 * x + digit_val c))"

fun leadingFraction :: "string \<Rightarrow> int \<Rightarrow> int \<Rightarrow> bool \<Rightarrow> int \<times> int \<times> string" where
  "leadingFraction [] x scale overflow = (x, scale, [])"
| "leadingFraction (c # s) x scale overflow =
     (if \<not> is_digit c then (x, scale, c # s)
      else if overflow then leadingFraction s x scale True
      else if (2 ^ 63 - 1) div 10 < x then leadingFraction s x scale True
      else if 2 ^ 63 < 10 * x + digit_val c then leadingFraction s x scale True
      else leadingFraction s (10 * x + digit_val c) (10 * scale) False)"

text \<open>The micro sign has two code points; both are accepted, as their bytes in UTF-8.\<close>

definition unitMap :: "string \<Rightarrow> int option" where
  "unitMap u =
     (if u = ''ns'' then Some 1
      else if u = ''us'' \<or> u = [CHR 0xC2, CHR 0xB5, CHR ''s''] \<or> u = [CHR 0xCE, CHR 0xBC, CHR ''s''] then Some 1000
      else if u = ''ms'' then Some 1000000
      else if u = ''s'' then Some 1000000000
      else if u = ''m'' then Some 60000000000
      else if u = ''h'' then Some 3600000000000
      else None)"

definition unitChar :: "char \<Rightarrow> bool" where
  "unitChar c = (c \<noteq> CHR ''.'' \<and> \<not> is_digit c)"

text \<open>One number with its unit: its nanoseconds and the rest of the string.\<close>

definition parseFraction :: "string \<Rightarrow> int \<times> int \<times> string \<times> bool" where
  "parseFraction s =
     (if s \<noteq> [] \<and> hd s = CHR ''.'' then
        let (f, scale, s') = leadingFraction (tl s) 0 1 False in (f, scale, s', length s' \<noteq> length (tl s))
      else (0, 1, s, False))"

definition unitNanos :: "int \<Rightarrow> int \<Rightarrow> int \<Rightarrow> int \<Rightarrow> int option" where
  "unitNanos v f scale unit =
     (if 2 ^ 63 div unit < v then None
      else let w = v * unit + (if 0 < f then fractionNanos f unit scale else 0) in
        if 0 < f \<and> 2 ^ 63 < w then None else Some w)"

definition parseTerm :: "string \<Rightarrow> (int \<times> string) option" where
  "parseTerm s =
     (if s = [] \<or> \<not> (hd s = CHR ''.'' \<or> is_digit (hd s)) then None
      else case leadingInt s 0 of
        None \<Rightarrow> None
      | Some (v, s1) \<Rightarrow>
          let (f, scale, s2, post) = parseFraction s1; pre = (length s1 \<noteq> length s) in
          if \<not> pre \<and> \<not> post then None
          else let u = takeWhile unitChar s2; s3 = dropWhile unitChar s2 in
            if u = [] then None
            else (case unitMap u of
                    None \<Rightarrow> None
                  | Some unit \<Rightarrow> map_option (\<lambda>w. (w, s3)) (unitNanos v f scale unit)))"

lemma leadingInt_length: "leadingInt s x = Some (v, s') \<Longrightarrow> length s' \<le> length s"
  by (induction s x rule: leadingInt.induct) (auto split: if_splits)

lemma leadingFraction_length: "leadingFraction s x sc b = (f, sc', s') \<Longrightarrow> length s' \<le> length s"
  by (induction s x sc b rule: leadingFraction.induct) (auto split: if_splits)

lemma parseFraction_length: "parseFraction s = (f, sc, s', post) \<Longrightarrow> length s' \<le> length s"
  using leadingFraction_length [of "tl s" 0 1 False f sc s']
  by (auto simp: parseFraction_def split: if_splits prod.splits)

lemma parseTerm_length: "parseTerm s = Some (w, s') \<Longrightarrow> length s' < length s"
proof -
  assume t: "parseTerm s = Some (w, s')"
  then obtain v s1 where v: "leadingInt s 0 = Some (v, s1)" by (auto simp: parseTerm_def split: if_splits option.splits)
  obtain f sc s2 post where f: "parseFraction s1 = (f, sc, s2, post)" by (cases "parseFraction s1")
  from t v f have "s' = dropWhile unitChar s2" "takeWhile unitChar s2 \<noteq> []"
    by (auto simp: parseTerm_def Let_def split: if_splits option.splits)
  then have "length s' < length s2"
    by (metis append_eq_conv_conj drop_length_takeWhile length_drop length_greater_0_conv linorder_not_le
        list.size(3) takeWhile_dropWhile_id diff_less takeWhile.simps(1))
  then show ?thesis using leadingInt_length [OF v] parseFraction_length [OF f] by simp
qed

text \<open>The loop over the terms.  The sum is an unsigned 64 bit integer: it wraps around.\<close>

function durationLoop :: "string \<Rightarrow> int \<Rightarrow> int option" where
  "durationLoop s d =
     (if s = [] then Some d
      else case parseTerm s of
        None \<Rightarrow> None
      | Some (v, s') \<Rightarrow>
          let d' = (d + v) mod 2 ^ 64 in if 2 ^ 63 < d' then None else durationLoop s' d')"
  by pat_completeness auto
termination
  by (relation "measure (\<lambda>(s, d). length s)") (auto dest: parseTerm_length)

declare durationLoop.simps [simp del]

definition ParseDuration :: "string \<Rightarrow> duration option" where
  "ParseDuration raw =
     (let signed = (raw \<noteq> [] \<and> (hd raw = CHR ''-'' \<or> hd raw = CHR ''+''));
          neg = (raw \<noteq> [] \<and> hd raw = CHR ''-''); s = (if signed then tl raw else raw) in
      if s = ''0'' then Some 0
      else if s = [] then None
      else case durationLoop s 0 of
        None \<Rightarrow> None
      | Some d \<Rightarrow> if neg then Some (- d) else if 2 ^ 63 - 1 < d then None else Some d)"

section \<open>Facts\<close>

lemma durationLoop_bound: "durationLoop s d = Some d' \<Longrightarrow> 0 \<le> d \<Longrightarrow> d \<le> 2 ^ 63 \<Longrightarrow> 0 \<le> d' \<and> d' \<le> 2 ^ 63"
proof (induction s d rule: durationLoop.induct)
  case (1 s d)
  show ?case
  proof (cases "s = []")
    case False
    then obtain v s' where t: "parseTerm s = Some (v, s')" "\<not> 2 ^ 63 < (d + v) mod 2 ^ 64"
      "durationLoop s' ((d + v) mod 2 ^ 64) = Some d'"
      using "1.prems"(1) by (subst (asm) durationLoop.simps) (auto simp: Let_def split: option.splits if_splits)
    then show ?thesis using "1.IH" [OF False t(1) refl refl t(2)] by simp
  qed (use 1 in \<open>simp add: durationLoop.simps\<close>)
qed

text \<open>A duration that is read fits into 64 bits.\<close>

lemma ParseDuration_bound: "ParseDuration s = Some d \<Longrightarrow> - (2 ^ 63) \<le> d \<and> d < 2 ^ 63"
  using durationLoop_bound [of _ 0]
  by (fastforce simp: ParseDuration_def Let_def split: if_splits option.splits)

lemma leadingInt_numeral:
  assumes "list_all is_digit (p @ s)" "decimal (p @ s) \<le> 2 ^ 63" "r = [] \<or> \<not> is_digit (hd r)"
  shows "leadingInt (s @ r) (decimal p) = Some (decimal (p @ s), r)"
  using assms
proof (induction s arbitrary: p)
  case Nil
  then show ?case by (cases r) auto
next
  case (Cons c s)
  have dig: "list_all is_digit p" "is_digit c" using Cons.prems(1) by auto
  have le: "decimal (p @ [c]) \<le> 2 ^ 63" using decimal_append_le [of "p @ [c]" s] Cons.prems by simp
  then have "decimal p \<le> 2 ^ 63 div 10" using digit_val_nonneg [OF dig(2)] by (simp add: decimal_snoc)
  then show ?case using Cons.IH [of "p @ [c]"] Cons.prems dig le by (simp add: decimal_snoc)
qed

text \<open>A number of nanoseconds is read as such.\<close>

lemma ParseDuration_nanos:
  assumes "0 \<le> n" "n < 2 ^ 63"
  shows "ParseDuration (Itoa n @ ''ns'') = Some n"
proof -
  let ?s = "Itoa n @ ''ns''"
  have c: "list_all is_digit (Itoa n)" "Itoa n \<noteq> []" using canonical_Itoa [OF assms(1)] by (auto simp: canonical_def)
  then have h: "is_digit (hd ?s)" by (cases "Itoa n") auto
  have "leadingInt ?s (decimal []) = Some (decimal ([] @ Itoa n), ''ns'')"
    using c(1) assms by (intro leadingInt_numeral) (auto simp: decimal_Itoa is_digit_def)
  then have li: "leadingInt ?s 0 = Some (n, ''ns'')" 
    using decimal_Itoa [OF assms(1)] by (simp add: decimal_def [of "[]"])
  have u: "takeWhile unitChar ''ns'' = ''ns''" "dropWhile unitChar ''ns'' = []"
    by (simp_all add: unitChar_def is_digit_def)
  have t: "parseTerm ?s = Some (n, [])"
    using li h c(2) assms u
    by (simp add: parseTerm_def parseFraction_def unitMap_def unitNanos_def)
  have "durationLoop ?s 0 = Some n"
    using t assms by (subst durationLoop.simps) (simp add: durationLoop.simps [of "[]"])
  moreover have "hd ?s \<noteq> CHR ''-''" "hd ?s \<noteq> CHR ''+''" using h by (auto simp: is_digit_def)
  moreover have "?s \<noteq> ''0''" by (auto simp: append_eq_Cons_conv)
  ultimately show ?thesis using assms c(2) by (simp add: ParseDuration_def)
qed

end
