(* ===== verification/Config.thy ===== *)
theory Config
  imports GoNet GoTime
begin

text \<open>
  \<^verbatim>\<open>internal/config/config.go\<close>: the configuration of the server from its environment.  The
  environment is a function from names to values, empty for a name that is not set.  The
  calls of the operating system in \<^verbatim>\<open>ensureWritableDirectory\<close> are arguments; the model keeps the
  list of the calls made.
\<close>

section \<open>Data\<close>

datatype slogLevel = LevelDebug | LevelInfo | LevelWarn | LevelError

fun levelValue :: "slogLevel \<Rightarrow> int" where
  "levelValue LevelDebug = -4"
| "levelValue LevelInfo = 0"
| "levelValue LevelWarn = 4"
| "levelValue LevelError = 8"

instantiation slogLevel :: linorder
begin

definition less_eq_slogLevel :: "slogLevel \<Rightarrow> slogLevel \<Rightarrow> bool" where
  "less_eq_slogLevel a b = (levelValue a \<le> levelValue b)"

definition less_slogLevel :: "slogLevel \<Rightarrow> slogLevel \<Rightarrow> bool" where
  "less_slogLevel a b = (levelValue a < levelValue b)"

instance
proof
  fix a b :: slogLevel
  show "a \<le> b \<Longrightarrow> b \<le> a \<Longrightarrow> a = b"
    by (cases a; cases b) (simp_all add: less_eq_slogLevel_def)
qed (auto simp: less_eq_slogLevel_def less_slogLevel_def)

end

record Config =
  HTTPAddr :: string
  PublicIP :: IP
  UDPPortMin :: "16 word"
  UDPPortMax :: "16 word"
  SessionAPIToken :: string
  RecordingsDir :: string
  SessionTTL :: duration
  LogLevel :: slogLevel
  ICELite :: bool
  AudioPrimeEnabled :: bool
  AudioPrimeDuration :: duration
  AudioPrimeMode :: string

datatype dirError =
    PathEmpty
  | MkdirFailed string
  | StatFailed string
  | NotDirectory
  | NotWritable
  | ProbeCloseFailed string
  | ProbeRemoveFailed string

datatype configError =
    EnvironmentMissing
  | PublicIPInvalid
  | PortInvalid string
  | PortsUnordered
  | TokenEmpty
  | RecordingsDirInvalid dirError
  | TTLInvalid
  | LogLevelInvalid
  | BoolInvalid string
  | PrimeDurationInvalid
  | PrimeModeInvalid

abbreviation defaultHTTPAddr :: string where "defaultHTTPAddr \<equiv> '':8080''"
abbreviation defaultUDPPortMin :: "16 word" where "defaultUDPPortMin \<equiv> 40000"
abbreviation defaultUDPPortMax :: "16 word" where "defaultUDPPortMax \<equiv> 40020"
abbreviation defaultRecordings :: string where "defaultRecordings \<equiv> ''/data/recordings''"
abbreviation defaultSessionTTL :: duration where "defaultSessionTTL \<equiv> 10 * minute"
abbreviation defaultAudioPrime :: duration where "defaultAudioPrime \<equiv> 10 * second"
abbreviation defaultAudioPrimeMode :: string where "defaultAudioPrimeMode \<equiv> ''silence''"
abbreviation audioPrimeFrame :: duration where "audioPrimeFrame \<equiv> 20 * millisecond"
abbreviation defaultLogLevelName :: string where "defaultLogLevelName \<equiv> ''info''"

section \<open>The readers of single values\<close>

definition valueOr :: "string \<Rightarrow> string \<Rightarrow> string" where
  "valueOr val fallback = (if val = '''' then fallback else val)"

definition parsePort :: "string \<Rightarrow> 16 word \<Rightarrow> string \<Rightarrow> (configError, 16 word) result" where
  "parsePort raw fallback name =
     (if raw = '''' then Inr fallback
      else case ParseUint raw 16 of
        None \<Rightarrow> Inl (PortInvalid name)
      | Some val \<Rightarrow> if val = 0 then Inl (PortInvalid name) else Inr (of_int val))"

definition parseBool :: "string \<Rightarrow> string \<Rightarrow> (configError, bool) result" where
  "parseBool raw name =
     (if raw = '''' then Inr False
      else case ParseBool raw of None \<Rightarrow> Inl (BoolInvalid name) | Some val \<Rightarrow> Inr val)"

definition nonPublicIPv4Prefixes :: "Prefix list" where
  "nonPublicIPv4Prefixes =
     [(ipv4 0 0 0 0, 8),
      (ipv4 10 0 0 0, 8),
      (ipv4 100 64 0 0, 10),
      (ipv4 127 0 0 0, 8),
      (ipv4 169 254 0 0, 16),
      (ipv4 172 16 0 0, 12),
      (ipv4 192 0 0 0, 24),
      (ipv4 192 0 2 0, 24),
      (ipv4 192 31 196 0, 24),
      (ipv4 192 52 193 0, 24),
      (ipv4 192 88 99 0, 24),
      (ipv4 192 168 0 0, 16),
      (ipv4 192 175 48 0, 24),
      (ipv4 198 18 0 0, 15),
      (ipv4 198 51 100 0, 24),
      (ipv4 203 0 113 0, 24),
      (ipv4 224 0 0 0, 4),
      (ipv4 240 0 0 0, 4)]"

definition parsePublicIPv4 :: "string \<Rightarrow> (configError, IP) result" where
  "parsePublicIPv4 raw =
     (case ParseAddr4 raw of
        None \<Rightarrow> Inl PublicIPInvalid
      | Some addr \<Rightarrow>
          if list_ex (\<lambda>prefix. PrefixContains prefix addr) nonPublicIPv4Prefixes then Inl PublicIPInvalid
          else Inr (AsSlice addr))"

definition parseLogLevel :: "string \<Rightarrow> (configError, slogLevel) result" where
  "parseLogLevel raw =
     (let name = ToLower raw in
      if name = ''debug'' then Inr LevelDebug
      else if name = ''info'' then Inr LevelInfo
      else if name = ''warn'' \<or> name = ''warning'' then Inr LevelWarn
      else if name = ''error'' then Inr LevelError
      else Inl LogLevelInvalid)"

definition parseTTL :: "string \<Rightarrow> (configError, duration) result" where
  "parseTTL raw =
     (if raw = '''' then Inr defaultSessionTTL
      else case ParseDuration raw of
        None \<Rightarrow> Inl TTLInvalid
      | Some ttl \<Rightarrow> if ttl \<le> 0 then Inl TTLInvalid else Inr ttl)"

definition parsePrimeDuration :: "string \<Rightarrow> (configError, duration) result" where
  "parsePrimeDuration raw =
     (if raw = '''' then Inr defaultAudioPrime
      else case ParseDuration raw of
        None \<Rightarrow> Inl PrimeDurationInvalid
      | Some d \<Rightarrow> if d < audioPrimeFrame \<or> d mod audioPrimeFrame \<noteq> 0 then Inl PrimeDurationInvalid else Inr d)"

section \<open>The recordings directory\<close>

text \<open>What the operating system answers; \<open>stat\<close> tells whether the path is a directory and
  \<open>createTemp\<close> the name of the file it made.\<close>

record fsCalls =
  mkdirAll :: "string \<Rightarrow> string option"
  stat :: "string \<Rightarrow> (string, bool) result"
  createTemp :: "string \<Rightarrow> (string, string) result"
  closeFile :: "string \<Rightarrow> string option"
  removeFile :: "string \<Rightarrow> string option"

datatype fsOp = MkdirAll string | Stat string | CreateTemp string | CloseFile string | Remove string

definition probeDirectory :: "fsCalls \<Rightarrow> string \<Rightarrow> dirError option \<times> fsOp list" where
  "probeDirectory fs dir =
     (case createTemp fs dir of
        Inl err \<Rightarrow> (Some NotWritable, [CreateTemp dir])
      | Inr probePath \<Rightarrow> (case closeFile fs probePath of
          Some closeErr \<Rightarrow> (Some (ProbeCloseFailed closeErr), [CreateTemp dir, CloseFile probePath, Remove probePath])
        | None \<Rightarrow> (map_option ProbeRemoveFailed (removeFile fs probePath),
            [CreateTemp dir, CloseFile probePath, Remove probePath])))"

definition ensureWritableDirectory :: "fsCalls \<Rightarrow> string \<Rightarrow> dirError option \<times> fsOp list" where
  "ensureWritableDirectory fs dir =
     (if TrimSpace dir = '''' then (Some PathEmpty, [])
      else case mkdirAll fs dir of
        Some err \<Rightarrow> (Some (MkdirFailed err), [MkdirAll dir])
      | None \<Rightarrow> (case stat fs dir of
          Inl err \<Rightarrow> (Some (StatFailed err), [MkdirAll dir, Stat dir])
        | Inr isDir \<Rightarrow>
            if \<not> isDir then (Some NotDirectory, [MkdirAll dir, Stat dir])
            else let (err, ops) = probeDirectory fs dir in (err, [MkdirAll dir, Stat dir] @ ops)))"

section \<open>Load\<close>

type_synonym environment = "string \<Rightarrow> string"

text \<open>The settings that are checked before the file system is touched.\<close>

definition loadAddresses :: "environment \<Rightarrow> (configError, IP \<times> 16 word \<times> 16 word \<times> string) result" where
  "loadAddresses getenv =
     andThen (parsePublicIPv4 (getenv ''PUBLIC_IP'')) (\<lambda>publicIP.
     andThen (parsePort (getenv ''UDP_PORT_MIN'') defaultUDPPortMin ''UDP_PORT_MIN'') (\<lambda>portMin.
     andThen (parsePort (getenv ''UDP_PORT_MAX'') defaultUDPPortMax ''UDP_PORT_MAX'') (\<lambda>portMax.
     andThen (require (portMin \<le> portMax) PortsUnordered) (\<lambda>_.
     andThen (require (TrimSpace (getenv ''SESSION_API_TOKEN'') \<noteq> '''') TokenEmpty) (\<lambda>_.
     Inr (publicIP, portMin, portMax, getenv ''SESSION_API_TOKEN''))))))"

definition loadRest ::
  "environment \<Rightarrow> IP \<Rightarrow> 16 word \<Rightarrow> 16 word \<Rightarrow> string \<Rightarrow> string \<Rightarrow> (configError, Config) result" where
  "loadRest getenv publicIP portMin portMax token recordingsDir =
     andThen (parseTTL (getenv ''SESSION_TTL'')) (\<lambda>ttl.
     andThen (parseLogLevel (valueOr (getenv ''LOG_LEVEL'') defaultLogLevelName)) (\<lambda>level.
     andThen (parseBool (getenv ''ICE_LITE'') ''ICE_LITE'') (\<lambda>iceLite.
     andThen (parseBool (getenv ''RTC_AUDIO_PRIME_ENABLED'') ''RTC_AUDIO_PRIME_ENABLED'') (\<lambda>audioPrimeEnabled.
     andThen (parsePrimeDuration (getenv ''RTC_AUDIO_PRIME_DURATION'')) (\<lambda>audioPrimeDuration.
     let audioPrimeMode = valueOr (getenv ''RTC_AUDIO_PRIME_MODE'') defaultAudioPrimeMode in
     andThen (require (audioPrimeMode = ''silence'' \<or> audioPrimeMode = ''tone'') PrimeModeInvalid) (\<lambda>_.
     Inr \<lparr>HTTPAddr = valueOr (getenv ''HTTP_ADDR'') defaultHTTPAddr, PublicIP = publicIP,
          UDPPortMin = portMin, UDPPortMax = portMax, SessionAPIToken = token,
          RecordingsDir = recordingsDir, SessionTTL = ttl, LogLevel = level, ICELite = iceLite,
          AudioPrimeEnabled = audioPrimeEnabled, AudioPrimeDuration = audioPrimeDuration,
          AudioPrimeMode = audioPrimeMode\<rparr>))))))"

definition Load :: "fsCalls \<Rightarrow> environment option \<Rightarrow> (configError, Config) result \<times> fsOp list" where
  "Load fs env =
     (case env of
        None \<Rightarrow> (Inl EnvironmentMissing, [])
      | Some getenv \<Rightarrow> (case loadAddresses getenv of
          Inl err \<Rightarrow> (Inl err, [])
        | Inr (publicIP, portMin, portMax, token) \<Rightarrow>
            let recordingsDir = valueOr (getenv ''RECORDINGS_DIR'') defaultRecordings;
                (err, ops) = ensureWritableDirectory fs recordingsDir in
            (case err of
               Some e \<Rightarrow> (Inl (RecordingsDirInvalid e), ops)
             | None \<Rightarrow> (loadRest getenv publicIP portMin portMax token recordingsDir, ops))))"

end
