(* ===== verification/ConfigProperties.thy ===== *)
theory ConfigProperties
  imports Config
begin

text \<open>
  What \<^verbatim>\<open>Load\<close> guarantees: which addresses it accepts, that a configuration it returns is
  valid, that every valid configuration can be written down and read back, what it takes by
  default, and what it does to the file system.
\<close>

section \<open>Public addresses\<close>

text \<open>The blocks of addresses that are not public, by their octets.\<close>

definition reserved :: "int \<Rightarrow> int \<Rightarrow> int \<Rightarrow> bool" where
  "reserved a b c =
     (a = 0 \<or> a = 10 \<or> a = 100 \<and> 64 \<le> b \<and> b \<le> 127 \<or> a = 127 \<or> a = 169 \<and> b = 254 \<or>
      a = 172 \<and> 16 \<le> b \<and> b \<le> 31 \<or> a = 192 \<and> b = 0 \<and> c = 0 \<or> a = 192 \<and> b = 0 \<and> c = 2 \<or>
      a = 192 \<and> b = 31 \<and> c = 196 \<or> a = 192 \<and> b = 52 \<and> c = 193 \<or> a = 192 \<and> b = 88 \<and> c = 99 \<or>
      a = 192 \<and> b = 168 \<or> a = 192 \<and> b = 175 \<and> c = 48 \<or> a = 198 \<and> (b = 18 \<or> b = 19) \<or>
      a = 198 \<and> b = 51 \<and> c = 100 \<or> a = 203 \<and> b = 0 \<and> c = 113 \<or> 224 \<le> a)"

definition octet :: "int \<Rightarrow> bool" where
  "octet n = (0 \<le> n \<and> n \<le> 255)"

lemma uint_octets:
  "octet a \<Longrightarrow> octet b \<Longrightarrow> octet c \<Longrightarrow> octet d \<Longrightarrow>
   uint (addrOfOctets [a, b, c, d]) = 256 * (256 * (256 * a + b) + c) + d"
  by (simp add: octet_def uint_addrOfOctets)

lemma div_octet: "octet y \<Longrightarrow> (256 * x + y) div 256 = x"
  by (simp add: octet_def)

lemma div_octets:
  assumes "octet b" "octet c" "octet d" "n = 256 * (256 * (256 * a + b) + c) + d"
  shows "n div 2 ^ 8 = 256 * (256 * a + b) + c" "n div 2 ^ 16 = 256 * a + b" "n div 2 ^ 17 = (256 * a + b) div 2"
    "n div 2 ^ 20 = (256 * a + b) div 16" "n div 2 ^ 22 = (256 * a + b) div 64" "n div 2 ^ 24 = a"
    "n div 2 ^ 28 = a div 16"
proof -
  have nums: "(256 :: int) * 256 = 65536" "(65536 :: int) * 256 = 16777216" "(16777216 :: int) * 16 = 268435456"
    "(65536 :: int) * 2 = 131072" "(65536 :: int) * 16 = 1048576" "(65536 :: int) * 64 = 4194304" by simp_all
  have pows: "(2 :: int) ^ 8 = 256" "(2 :: int) ^ 16 = 65536" "(2 :: int) ^ 17 = 131072" "(2 :: int) ^ 20 = 1048576"
    "(2 :: int) ^ 22 = 4194304" "(2 :: int) ^ 24 = 16777216" "(2 :: int) ^ 28 = 268435456" by simp_all
  have 8: "n div 256 = 256 * (256 * a + b) + c" unfolding assms(4) by (rule div_octet [OF assms(3)])
  have 16: "n div 65536 = 256 * a + b"
    using zdiv_zmult2_eq [of 256 n 256] unfolding nums 8 div_octet [OF assms(2)] by (simp only: zero_le_numeral)
  have split: "0 \<le> k \<Longrightarrow> n div (65536 * k) = (256 * a + b) div k" for k
    using zdiv_zmult2_eq [of k n 65536] unfolding 16 .
  have 24: "n div 16777216 = a" using split [of 256] unfolding nums div_octet [OF assms(1)] by (simp only: zero_le_numeral)
  have 28: "n div 268435456 = a div 16"
    using zdiv_zmult2_eq [of 16 n 16777216] unfolding nums 24 by (simp only: zero_le_numeral)
  show "n div 2 ^ 8 = 256 * (256 * a + b) + c" "n div 2 ^ 16 = 256 * a + b" "n div 2 ^ 24 = a" "n div 2 ^ 28 = a div 16"
    unfolding pows by (fact 8 16 24 28)+
  show "n div 2 ^ 17 = (256 * a + b) div 2" "n div 2 ^ 20 = (256 * a + b) div 16" "n div 2 ^ 22 = (256 * a + b) div 64"
    using split [of 2] split [of 16] split [of 64] unfolding pows nums by (simp_all only: zero_le_numeral)
qed

text \<open>The test against the table of prefixes, with the table evaluated.\<close>

lemma prefix_table:
  "map (\<lambda>(p, n). (uint p div 2 ^ (32 - n), 32 - n)) nonPublicIPv4Prefixes =
   [(0, 24), (10, 24), (401, 22), (127, 24), (43518, 16), (2753, 20), (12582912, 8), (12582914, 8),
    (12591044, 8), (12596417, 8), (12605539, 8), (49320, 16), (12627760, 8), (25353, 17), (12989284, 8),
    (13303921, 8), (14, 28), (15, 28)]"
  by code_simp

lemma list_ex_prefixes:
  "list_ex (\<lambda>prefix. PrefixContains prefix x) nonPublicIPv4Prefixes \<longleftrightarrow>
   list_ex (\<lambda>(q, k). uint x div 2 ^ k = q)
     (map (\<lambda>(p, n). (uint p div 2 ^ (32 - n), 32 - n)) nonPublicIPv4Prefixes)"
proof -
  have "PrefixContains e x \<longleftrightarrow> uint x div 2 ^ (32 - snd e) = uint (fst e) div 2 ^ (32 - snd e)" for e
    using PrefixContains_div [of "fst e" "snd e" x] by simp
  then show ?thesis by (simp add: list_ex_map case_prod_unfold)
qed

lemma octets_eq2: "octet b \<Longrightarrow> octet y \<Longrightarrow> n = 256 * x + y \<Longrightarrow> 256 * a + b = n \<longleftrightarrow> a = x \<and> b = y"
  by (cases a x rule: linorder_cases) (auto simp: octet_def)

lemma octets_eq3:
  "octet b \<Longrightarrow> octet c \<Longrightarrow> octet y \<Longrightarrow> octet z \<Longrightarrow> n = 256 * (256 * x + y) + z \<Longrightarrow>
   256 * (256 * a + b) + c = n \<longleftrightarrow> a = x \<and> b = y \<and> c = z"
  using octets_eq2 [of c z n "256 * x + y" "256 * a + b"] octets_eq2 [of b y "256 * x + y" x a] by auto

lemma nonPublic_octets:
  assumes "octet a" "octet b" "octet c" "octet d"
  shows "list_ex (\<lambda>prefix. PrefixContains prefix (addrOfOctets [a, b, c, d])) nonPublicIPv4Prefixes \<longleftrightarrow>
    reserved a b c"
proof -
  let ?n = "uint (addrOfOctets [a, b, c, d])"
  have "list_ex (\<lambda>prefix. PrefixContains prefix (addrOfOctets [a, b, c, d])) nonPublicIPv4Prefixes \<longleftrightarrow>
      a = 0 \<or> a = 10 \<or> (256 * a + b) div 64 = 401 \<or> a = 127 \<or> 256 * a + b = 43518 \<or> (256 * a + b) div 16 = 2753 \<or>
      256 * (256 * a + b) + c = 12582912 \<or> 256 * (256 * a + b) + c = 12582914 \<or>
      256 * (256 * a + b) + c = 12591044 \<or> 256 * (256 * a + b) + c = 12596417 \<or>
      256 * (256 * a + b) + c = 12605539 \<or> 256 * a + b = 49320 \<or> 256 * (256 * a + b) + c = 12627760 \<or>
      (256 * a + b) div 2 = 25353 \<or> 256 * (256 * a + b) + c = 12989284 \<or>
      256 * (256 * a + b) + c = 13303921 \<or> a div 16 = 14 \<or> a div 16 = 15"
    unfolding list_ex_prefixes prefix_table list_ex_Nil_iff list_ex_Cons_iff prod.case
      div_octets [OF assms(2-4) uint_octets [OF assms]] by (simp only: simp_thms)
  also have "\<dots> \<longleftrightarrow> reserved a b c"
  proof -
    have three:
      "256 * (256 * a + b) + c = 12582912 \<longleftrightarrow> a = 192 \<and> b = 0 \<and> c = 0"
      "256 * (256 * a + b) + c = 12582914 \<longleftrightarrow> a = 192 \<and> b = 0 \<and> c = 2"
      "256 * (256 * a + b) + c = 12591044 \<longleftrightarrow> a = 192 \<and> b = 31 \<and> c = 196"
      "256 * (256 * a + b) + c = 12596417 \<longleftrightarrow> a = 192 \<and> b = 52 \<and> c = 193"
      "256 * (256 * a + b) + c = 12605539 \<longleftrightarrow> a = 192 \<and> b = 88 \<and> c = 99"
      "256 * (256 * a + b) + c = 12627760 \<longleftrightarrow> a = 192 \<and> b = 175 \<and> c = 48"
      "256 * (256 * a + b) + c = 12989284 \<longleftrightarrow> a = 198 \<and> b = 51 \<and> c = 100"
      "256 * (256 * a + b) + c = 13303921 \<longleftrightarrow> a = 203 \<and> b = 0 \<and> c = 113"
      by (rule octets_eq3 [OF assms(2,3)]; simp add: octet_def)+
    have two: "256 * a + b = 43518 \<longleftrightarrow> a = 169 \<and> b = 254" "256 * a + b = 49320 \<longleftrightarrow> a = 192 \<and> b = 168"
      by (rule octets_eq2 [OF assms(2)]; simp add: octet_def)+
    have "(256 * a + b) div 64 = 401 \<longleftrightarrow> a = 100 \<and> 64 \<le> b \<and> b \<le> 127"
      using assms(1,2) by (cases a "100 :: int" rule: linorder_cases) (auto simp: octet_def div_eq_iff_range)
    moreover have "(256 * a + b) div 16 = 2753 \<longleftrightarrow> a = 172 \<and> 16 \<le> b \<and> b \<le> 31"
      using assms(1,2) by (cases a "172 :: int" rule: linorder_cases) (auto simp: octet_def div_eq_iff_range)
    moreover have "(256 * a + b) div 2 = 25353 \<longleftrightarrow> a = 198 \<and> (b = 18 \<or> b = 19)"
      using assms(1,2) by (cases a "198 :: int" rule: linorder_cases) (auto simp: octet_def div_eq_iff_range)
    moreover have "a div 16 = 14 \<or> a div 16 = 15 \<longleftrightarrow> 224 \<le> a"
      using assms(1) by (auto simp: octet_def div_eq_iff_range)
    ultimately show ?thesis unfolding three two reserved_def by (simp only:)
  qed
  finally show ?thesis .
qed

lemma AsSlice_octets:
  assumes "octet a" "octet b" "octet c" "octet d"
  shows "AsSlice (addrOfOctets [a, b, c, d]) = map of_int [a, b, c, d]"
proof -
  have "map uint (AsSlice (addrOfOctets [a, b, c, d])) = [a, b, c, d]"
    using assms by (intro uint_AsSlice_addrOfOctets) (simp_all add: octet_def)
  then have "map of_int (map uint (AsSlice (addrOfOctets [a, b, c, d]))) = (map of_int [a, b, c, d] :: 8 word list)"
    by simp
  then show ?thesis by (simp add: comp_def)
qed

lemma addr_octets:
  obtains a b c d where "octet a" "octet b" "octet c" "octet d" "x = addrOfOctets [a, b, c, d]"
proof -
  have "map uint (AsSlice x) = [uint (AsSlice x ! 0), uint (AsSlice x ! 1), uint (AsSlice x ! 2), uint (AsSlice x ! 3)]"
    by (simp add: AsSlice_def)
  then have "x = addrOfOctets [uint (AsSlice x ! 0), uint (AsSlice x ! 1), uint (AsSlice x ! 2), uint (AsSlice x ! 3)]"
    using addrOfOctets_uint_AsSlice [of x] by simp
  then show thesis using uint_byte by (intro that) (auto simp: octet_def)
qed

lemma parsePublicIPv4_Inr:
  "parsePublicIPv4 raw = Inr ip \<longleftrightarrow>
   (\<exists>x. ParseAddr4 raw = Some x \<and> ip = AsSlice x \<and> \<not> list_ex (\<lambda>p. PrefixContains p x) nonPublicIPv4Prefixes)"
  by (auto simp: parsePublicIPv4_def split: option.splits)

text \<open>A public address of version 4 as four bytes.\<close>

definition publicIP :: "IP \<Rightarrow> bool" where
  "publicIP ip = (length ip = 4 \<and> \<not> reserved (uint (ip ! 0)) (uint (ip ! 1)) (uint (ip ! 2)))"

lemma parsePublicIPv4_iff: "parsePublicIPv4 raw = Inr ip \<longleftrightarrow> publicIP ip \<and> raw = IPString ip"
proof
  assume "parsePublicIPv4 raw = Inr ip"
  then obtain x where x: "ParseAddr4 raw = Some x" "ip = AsSlice x"
    "\<not> list_ex (\<lambda>p. PrefixContains p x) nonPublicIPv4Prefixes" by (auto simp: parsePublicIPv4_Inr)
  obtain a b c d where o: "octet a" "octet b" "octet c" "octet d" "x = addrOfOctets [a, b, c, d]" by (rule addr_octets)
  then have "map uint ip = [a, b, c, d]"
    using uint_AsSlice_addrOfOctets [of "[a, b, c, d]"] x(2) by (simp add: octet_def)
  then have "length ip = 4 \<and> uint (ip ! 0) = a \<and> uint (ip ! 1) = b \<and> uint (ip ! 2) = c" by auto
  moreover have "\<not> reserved a b c" using nonPublic_octets [OF o(1-4)] x(3) by (simp only: o(5)) simp
  ultimately show "publicIP ip \<and> raw = IPString ip" using x by (simp add: publicIP_def ParseAddr4_iff)
next
  assume r: "publicIP ip \<and> raw = IPString ip"
  then obtain p q r' s where ip: "ip = [p, q, r', s]" by (auto simp: publicIP_def numeral_eq_Suc length_Suc_conv)
  have o: "octet (uint p)" "octet (uint q)" "octet (uint r')" "octet (uint s)" using uint_byte by (auto simp: octet_def)
  let ?x = "addrOfOctets [uint p, uint q, uint r', uint s]"
  have sl: "AsSlice ?x = ip" using AsSlice_octets [OF o] by (simp add: ip)
  moreover have "\<not> list_ex (\<lambda>p. PrefixContains p ?x) nonPublicIPv4Prefixes"
    using nonPublic_octets [OF o] r by (simp add: publicIP_def ip)
  moreover have "ParseAddr4 raw = Some ?x" using r sl by (simp add: ParseAddr4_iff)
  ultimately show "parsePublicIPv4 raw = Inr ip" unfolding parsePublicIPv4_Inr by metis
qed

text \<open>C18: \<^verbatim>\<open>PUBLIC_IP\<close> is accepted exactly if it is the canonical dotted decimal form of an address
  outside the reserved blocks, so that the address announced to the peers prints as the text
  of the variable; everything else is the one error.\<close>

theorem parsePublicIPv4_correct:
  "(parsePublicIPv4 raw = Inr ip \<longleftrightarrow> publicIP ip \<and> raw = IPString ip) \<and>
   (\<not> is_ok (parsePublicIPv4 raw) \<longrightarrow> parsePublicIPv4 raw = Inl PublicIPInvalid) \<and>
   (publicIP ip \<longrightarrow> To4 ip = Some ip)"
  using parsePublicIPv4_iff [of raw ip]
  by (auto simp: parsePublicIPv4_def publicIP_def To4_def split: option.splits)

theorem parsePublicIPv4_correct_witness:
  "parsePublicIPv4 ''8.8.4.4'' = Inr [8, 8, 4, 4] \<and> To4 [8, 8, 4, 4] = Some [8, 8, 4, 4] \<and>
   parsePublicIPv4 ''203.0.113.10'' = Inl PublicIPInvalid"
proof -
  have p: "publicIP [8, 8, 4, 4]" "IPString [8, 8, 4, 4] = ''8.8.4.4''" "\<not> is_ok (parsePublicIPv4 ''203.0.113.10'')"
    by code_simp+
  with parsePublicIPv4_correct [of "''8.8.4.4''" "[8, 8, 4, 4]"] parsePublicIPv4_correct [of "''203.0.113.10''" "[]"]
  show ?thesis by metis
qed

section \<open>The configuration\<close>

definition validConfig :: "Config \<Rightarrow> bool" where
  "validConfig cfg =
     (publicIP (PublicIP cfg) \<and> UDPPortMin cfg \<noteq> 0 \<and> UDPPortMin cfg \<le> UDPPortMax cfg \<and>
      TrimSpace (SessionAPIToken cfg) \<noteq> '''' \<and> TrimSpace (RecordingsDir cfg) \<noteq> '''' \<and> HTTPAddr cfg \<noteq> '''' \<and>
      0 < SessionTTL cfg \<and> SessionTTL cfg < 2 ^ 63 \<and>
      audioPrimeFrame \<le> AudioPrimeDuration cfg \<and> AudioPrimeDuration cfg < 2 ^ 63 \<and>
      AudioPrimeDuration cfg mod audioPrimeFrame = 0 \<and>
      (AudioPrimeMode cfg = ''silence'' \<or> AudioPrimeMode cfg = ''tone''))"

lemma of_int_word_0: "0 \<le> n \<Longrightarrow> n < 2 ^ 16 \<Longrightarrow> (of_int n :: 16 word) = 0 \<longleftrightarrow> n = 0"
  by (simp add: word_uint_eq_iff uint_word_of_int take_bit_int_eq_self)

lemma parsePort_nonzero: "parsePort raw fb name = Inr p \<Longrightarrow> fb \<noteq> 0 \<Longrightarrow> p \<noteq> 0"
  using ParseUint_bound [of raw 16] ParseUint_nonneg [of raw 16] of_int_word_0
  by (fastforce simp: parsePort_def split: if_splits option.splits)

lemma parseTTL_valid: "parseTTL raw = Inr d \<Longrightarrow> 0 < d \<and> d < 2 ^ 63"
  using ParseDuration_bound [of raw] by (auto simp: parseTTL_def split: if_splits option.splits)

lemma parsePrimeDuration_valid:
  "parsePrimeDuration raw = Inr d \<Longrightarrow> audioPrimeFrame \<le> d \<and> d < 2 ^ 63 \<and> d mod audioPrimeFrame = 0"
  using ParseDuration_bound [of raw] by (auto simp: parsePrimeDuration_def split: if_splits option.splits)

lemma ensure_nonblank: "fst (ensureWritableDirectory fs dir) = None \<Longrightarrow> TrimSpace dir \<noteq> ''''"
  by (auto simp: ensureWritableDirectory_def split: if_splits)

lemma Load_Inr:
  "fst (Load fs env) = Inr cfg \<longleftrightarrow>
   (\<exists>getenv ip pmin pmax token. env = Some getenv \<and> loadAddresses getenv = Inr (ip, pmin, pmax, token) \<and>
      (let dir = valueOr (getenv ''RECORDINGS_DIR'') defaultRecordings in
       fst (ensureWritableDirectory fs dir) = None \<and> loadRest getenv ip pmin pmax token dir = Inr cfg))"
  by (auto simp: Load_def Let_def case_prod_unfold split: option.splits sum.splits)

lemma loadAddresses_Inr:
  "loadAddresses getenv = Inr (ip, pmin, pmax, token) \<longleftrightarrow>
   parsePublicIPv4 (getenv ''PUBLIC_IP'') = Inr ip \<and>
   parsePort (getenv ''UDP_PORT_MIN'') defaultUDPPortMin ''UDP_PORT_MIN'' = Inr pmin \<and>
   parsePort (getenv ''UDP_PORT_MAX'') defaultUDPPortMax ''UDP_PORT_MAX'' = Inr pmax \<and> pmin \<le> pmax \<and>
   TrimSpace (getenv ''SESSION_API_TOKEN'') \<noteq> '''' \<and> token = getenv ''SESSION_API_TOKEN''"
  by (auto simp: loadAddresses_def andThen_Inr require_Inr)

lemma loadRest_Inr:
  "loadRest getenv ip pmin pmax token dir = Inr cfg \<longleftrightarrow>
   (\<exists>ttl level lite enabled d.
      parseTTL (getenv ''SESSION_TTL'') = Inr ttl \<and>
      parseLogLevel (valueOr (getenv ''LOG_LEVEL'') defaultLogLevelName) = Inr level \<and>
      parseBool (getenv ''ICE_LITE'') ''ICE_LITE'' = Inr lite \<and>
      parseBool (getenv ''RTC_AUDIO_PRIME_ENABLED'') ''RTC_AUDIO_PRIME_ENABLED'' = Inr enabled \<and>
      parsePrimeDuration (getenv ''RTC_AUDIO_PRIME_DURATION'') = Inr d \<and>
      (let mode = valueOr (getenv ''RTC_AUDIO_PRIME_MODE'') defaultAudioPrimeMode in
       (mode = ''silence'' \<or> mode = ''tone'') \<and>
       cfg = \<lparr>HTTPAddr = valueOr (getenv ''HTTP_ADDR'') defaultHTTPAddr, PublicIP = ip,
          UDPPortMin = pmin, UDPPortMax = pmax, SessionAPIToken = token,
          RecordingsDir = dir, SessionTTL = ttl, LogLevel = level, ICELite = lite,
          AudioPrimeEnabled = enabled, AudioPrimeDuration = d, AudioPrimeMode = mode\<rparr>))"
  by (auto simp: loadRest_def andThen_Inr require_Inr Let_def)

lemma Load_validConfig: "fst (Load fs env) = Inr cfg \<Longrightarrow> validConfig cfg"
proof -
  assume "fst (Load fs env) = Inr cfg"
  then obtain getenv ip pmin pmax token dir where
    a: "loadAddresses getenv = Inr (ip, pmin, pmax, token)" and
    d: "fst (ensureWritableDirectory fs dir) = None" and
    r: "loadRest getenv ip pmin pmax token dir = Inr cfg"
    unfolding Load_Inr Let_def by blast
  have "publicIP ip" "pmin \<noteq> 0" "pmin \<le> pmax" "TrimSpace token \<noteq> ''''"
    using a parsePort_nonzero [of "getenv ''UDP_PORT_MIN''" defaultUDPPortMin "''UDP_PORT_MIN''" pmin]
    by (auto simp: loadAddresses_Inr parsePublicIPv4_iff)
  moreover have "TrimSpace dir \<noteq> ''''" by (rule ensure_nonblank [OF d])
  ultimately show ?thesis
    using r parseTTL_valid parsePrimeDuration_valid
    unfolding loadRest_Inr Let_def by (fastforce simp: validConfig_def valueOr_def)
qed

text \<open>How a configuration is written into the environment.\<close>

fun levelName :: "slogLevel \<Rightarrow> string" where
  "levelName LevelDebug = ''debug''"
| "levelName LevelInfo = ''info''"
| "levelName LevelWarn = ''warn''"
| "levelName LevelError = ''error''"

definition boolName :: "bool \<Rightarrow> string" where
  "boolName b = (if b then ''true'' else ''false'')"

definition environmentOf :: "Config \<Rightarrow> environment" where
  "environmentOf cfg name =
     (if name = ''PUBLIC_IP'' then IPString (PublicIP cfg)
      else if name = ''UDP_PORT_MIN'' then Itoa (uint (UDPPortMin cfg))
      else if name = ''UDP_PORT_MAX'' then Itoa (uint (UDPPortMax cfg))
      else if name = ''SESSION_API_TOKEN'' then SessionAPIToken cfg
      else if name = ''RECORDINGS_DIR'' then RecordingsDir cfg
      else if name = ''SESSION_TTL'' then Itoa (SessionTTL cfg) @ ''ns''
      else if name = ''LOG_LEVEL'' then levelName (LogLevel cfg)
      else if name = ''ICE_LITE'' then boolName (ICELite cfg)
      else if name = ''RTC_AUDIO_PRIME_ENABLED'' then boolName (AudioPrimeEnabled cfg)
      else if name = ''RTC_AUDIO_PRIME_DURATION'' then Itoa (AudioPrimeDuration cfg) @ ''ns''
      else if name = ''RTC_AUDIO_PRIME_MODE'' then AudioPrimeMode cfg
      else if name = ''HTTP_ADDR'' then HTTPAddr cfg
      else '''')"

lemma ParseUint_Itoa: "0 \<le> n \<Longrightarrow> n < 2 ^ bits \<Longrightarrow> ParseUint (Itoa n) bits = Some n"
  using canonical_Itoa [of n] by (simp add: ParseUint_def decimal_Itoa canonical_def)

lemma Itoa_nonempty: "0 \<le> n \<Longrightarrow> Itoa n \<noteq> []"
  using canonical_Itoa [of n] by (simp add: canonical_def)

lemma parsePort_Itoa: "p \<noteq> 0 \<Longrightarrow> parsePort (Itoa (uint p)) fb name = Inr p"
  using ParseUint_Itoa [of "uint p" 16] uint_lt2p [of p] Itoa_nonempty [of "uint p"]
  by (simp add: parsePort_def word_uint_eq_iff)

lemma parseTTL_nanos: "0 < d \<Longrightarrow> d < 2 ^ 63 \<Longrightarrow> parseTTL (Itoa d @ ''ns'') = Inr d"
  using ParseDuration_nanos [of d] by (simp add: parseTTL_def)

lemma parsePrimeDuration_nanos:
  "audioPrimeFrame \<le> d \<Longrightarrow> d < 2 ^ 63 \<Longrightarrow> d mod audioPrimeFrame = 0 \<Longrightarrow> parsePrimeDuration (Itoa d @ ''ns'') = Inr d"
  using ParseDuration_nanos [of d] by (simp add: parsePrimeDuration_def)

lemma parseBool_boolName: "parseBool (boolName b) name = Inr b"
  by (cases b) (simp_all add: parseBool_def boolName_def ParseBool_def)

lemma parseLogLevel_levelName: "parseLogLevel (levelName l) = Inr l"
  by (cases l; simp only: levelName.simps; code_simp)

lemma levelName_nonempty: "levelName l \<noteq> ''''"
  by (cases l) simp_all

lemma Load_environmentOf:
  assumes "validConfig cfg" "fst (ensureWritableDirectory fs (RecordingsDir cfg)) = None"
  shows "fst (Load fs (Some (environmentOf cfg))) = Inr cfg"
proof -
  let ?g = "environmentOf cfg"
  have v: "publicIP (PublicIP cfg)" "UDPPortMin cfg \<noteq> 0" "UDPPortMin cfg \<le> UDPPortMax cfg"
    "TrimSpace (SessionAPIToken cfg) \<noteq> ''''" "HTTPAddr cfg \<noteq> ''''" "0 < SessionTTL cfg" "SessionTTL cfg < 2 ^ 63"
    "audioPrimeFrame \<le> AudioPrimeDuration cfg" "AudioPrimeDuration cfg < 2 ^ 63"
    "AudioPrimeDuration cfg mod audioPrimeFrame = 0" "AudioPrimeMode cfg = ''silence'' \<or> AudioPrimeMode cfg = ''tone''"
    using assms(1) unfolding validConfig_def by blast+
  have "UDPPortMax cfg \<noteq> 0" using v(2,3) by auto
  then have "loadAddresses ?g = Inr (PublicIP cfg, UDPPortMin cfg, UDPPortMax cfg, SessionAPIToken cfg)"
    using v(1-4) by (simp add: loadAddresses_Inr environmentOf_def parsePublicIPv4_iff parsePort_Itoa)
  moreover have "TrimSpace '''' = ''''" by code_simp
  then have "RecordingsDir cfg \<noteq> ''''" using ensure_nonblank [OF assms(2)] by metis
  then have "valueOr (?g ''RECORDINGS_DIR'') defaultRecordings = RecordingsDir cfg"
    by (simp add: valueOr_def environmentOf_def)
  moreover have "loadRest ?g (PublicIP cfg) (UDPPortMin cfg) (UDPPortMax cfg) (SessionAPIToken cfg) (RecordingsDir cfg) =
      Inr cfg"
    using v(5-11)
    by (auto simp: loadRest_def environmentOf_def valueOr_def parseTTL_nanos parsePrimeDuration_nanos
        parseBool_boolName parseLogLevel_levelName levelName_nonempty)
  ultimately show ?thesis using assms(2) unfolding Load_Inr Let_def by metis
qed

text \<open>C17: \<^verbatim>\<open>Load\<close> returns valid configurations only: a public address, an ordered range of non-zero
  ports, a token and a directory that are not blank, positive durations that fit into 64 bits,
  a priming time of whole frames and a known mode.  Conversely every valid configuration with
  a usable directory is what \<^verbatim>\<open>Load\<close> reads back when its values are written into the environment.\<close>

theorem Load_roundtrip:
  "(fst (Load fs env) = Inr cfg \<longrightarrow> validConfig cfg \<and> fst (ensureWritableDirectory fs (RecordingsDir cfg)) = None) \<and>
   (validConfig cfg \<and> fst (ensureWritableDirectory fs (RecordingsDir cfg)) = None \<longrightarrow>
      fst (Load fs (Some (environmentOf cfg))) = Inr cfg)"
proof (intro conjI impI)
  assume l: "fst (Load fs env) = Inr cfg"
  then show "validConfig cfg" by (rule Load_validConfig)
  from l show "fst (ensureWritableDirectory fs (RecordingsDir cfg)) = None"
    unfolding Load_Inr loadRest_Inr Let_def by auto
next
  assume "validConfig cfg \<and> fst (ensureWritableDirectory fs (RecordingsDir cfg)) = None"
  then show "fst (Load fs (Some (environmentOf cfg))) = Inr cfg" by (simp add: Load_environmentOf)
qed

definition exFs :: fsCalls where
  "exFs = \<lparr>mkdirAll = (\<lambda>_. None), stat = (\<lambda>_. Inr True), createTemp = (\<lambda>dir. Inr (dir @ ''/.write-probe-1'')),
     closeFile = (\<lambda>_. None), removeFile = (\<lambda>_. None)\<rparr>"

definition exServerConfig :: Config where
  "exServerConfig = \<lparr>HTTPAddr = '':8080'', PublicIP = [8, 8, 4, 4], UDPPortMin = 40000, UDPPortMax = 40020,
     SessionAPIToken = ''secret'', RecordingsDir = ''/data/recordings'', SessionTTL = 10 * minute,
     LogLevel = LevelInfo, ICELite = False, AudioPrimeEnabled = False, AudioPrimeDuration = 10 * second,
     AudioPrimeMode = ''silence''\<rparr>"

lemma exServerConfig_valid: "validConfig exServerConfig"
  by code_simp

lemma exFs_ok: "fst (ensureWritableDirectory exFs (RecordingsDir exServerConfig)) = None"
  by code_simp

theorem Load_roundtrip_witness:
  "fst (Load exFs (Some (environmentOf exServerConfig))) = Inr exServerConfig \<and> validConfig exServerConfig"
  using Load_roundtrip [of exFs "Some (environmentOf exServerConfig)" exServerConfig] exServerConfig_valid exFs_ok by blast

text \<open>With only the address and the token set, \<^verbatim>\<open>Load\<close> returns the documented defaults.\<close>

lemma Load_defaults:
  assumes "publicIP ip" "TrimSpace token \<noteq> ''''" "fst (ensureWritableDirectory fs ''/data/recordings'') = None"
    "getenv = (\<lambda>name. if name = ''PUBLIC_IP'' then IPString ip else if name = ''SESSION_API_TOKEN'' then token else '''')"
  shows "fst (Load fs (Some getenv)) = Inr
    \<lparr>HTTPAddr = '':8080'', PublicIP = ip, UDPPortMin = 40000, UDPPortMax = 40020, SessionAPIToken = token,
     RecordingsDir = ''/data/recordings'', SessionTTL = 10 * minute, LogLevel = LevelInfo, ICELite = False,
     AudioPrimeEnabled = False, AudioPrimeDuration = 10 * second, AudioPrimeMode = ''silence''\<rparr>"
proof -
  have "loadAddresses getenv = Inr (ip, 40000, 40020, token)"
    using assms by (simp add: loadAddresses_Inr parsePublicIPv4_iff parsePort_def)
  moreover have "valueOr (getenv ''RECORDINGS_DIR'') defaultRecordings = ''/data/recordings''"
    using assms(4) by (simp add: valueOr_def)
  moreover have "parseLogLevel ''info'' = Inr LevelInfo" by code_simp
  then have "loadRest getenv ip 40000 40020 token ''/data/recordings'' = Inr
    \<lparr>HTTPAddr = '':8080'', PublicIP = ip, UDPPortMin = 40000, UDPPortMax = 40020, SessionAPIToken = token,
     RecordingsDir = ''/data/recordings'', SessionTTL = 10 * minute, LogLevel = LevelInfo, ICELite = False,
     AudioPrimeEnabled = False, AudioPrimeDuration = 10 * second, AudioPrimeMode = ''silence''\<rparr>"
    using assms(4) by (simp add: loadRest_def valueOr_def parseTTL_def parseBool_def parsePrimeDuration_def)
  ultimately show ?thesis using assms(3) unfolding Load_Inr Let_def by metis
qed

lemma Load_defaults_example:
  "fst (Load exFs (Some (\<lambda>name. if name = ''PUBLIC_IP'' then IPString [8, 8, 4, 4]
      else if name = ''SESSION_API_TOKEN'' then ''secret'' else ''''))) = Inr exServerConfig"
proof -
  have "publicIP [8, 8, 4, 4]" "TrimSpace ''secret'' \<noteq> ''''"
    "fst (ensureWritableDirectory exFs ''/data/recordings'') = None" by code_simp+
  from Load_defaults [OF this refl] show ?thesis by (simp add: exServerConfig_def)
qed

lemma removes_probe:
  "Remove p \<in> set (snd (ensureWritableDirectory fs dir)) \<longleftrightarrow>
   CreateTemp dir \<in> set (snd (ensureWritableDirectory fs dir)) \<and> createTemp fs dir = Inr p"
  by (simp add: ensureWritableDirectory_def probeDirectory_def split: option.split sum.split) auto

lemma ensure_ok:
  "fst (ensureWritableDirectory fs dir) = None \<longleftrightarrow>
   TrimSpace dir \<noteq> '''' \<and> mkdirAll fs dir = None \<and> stat fs dir = Inr True \<and>
   (\<exists>q. createTemp fs dir = Inr q \<and> closeFile fs q = None \<and> removeFile fs q = None)"
  by (simp add: ensureWritableDirectory_def probeDirectory_def split: option.split sum.split)

lemma snd_Load:
  "snd (Load fs (Some getenv)) =
     (if is_ok (loadAddresses getenv)
      then snd (ensureWritableDirectory fs (valueOr (getenv ''RECORDINGS_DIR'') defaultRecordings)) else [])"
  by (cases "loadAddresses getenv") (simp_all add: Load_def Let_def case_prod_unfold split: option.split)

text \<open>C37: the check of the recordings directory leaves no probe behind: a probe file that was
  created is closed and removed on every path, nothing else is ever removed, and the check
  succeeds exactly if every step does.  \<^verbatim>\<open>Load\<close> runs it only for valid addresses, ports and token.\<close>

theorem ensureWritableDirectory_clean:
  "(Remove p \<in> set (snd (ensureWritableDirectory fs dir)) \<longleftrightarrow>
      CreateTemp dir \<in> set (snd (ensureWritableDirectory fs dir)) \<and> createTemp fs dir = Inr p) \<and>
   (fst (ensureWritableDirectory fs dir) = None \<longleftrightarrow>
      TrimSpace dir \<noteq> '''' \<and> mkdirAll fs dir = None \<and> stat fs dir = Inr True \<and>
      (\<exists>q. createTemp fs dir = Inr q \<and> closeFile fs q = None \<and> removeFile fs q = None)) \<and>
   snd (Load fs (Some getenv)) =
     (if is_ok (loadAddresses getenv)
      then snd (ensureWritableDirectory fs (valueOr (getenv ''RECORDINGS_DIR'') defaultRecordings)) else [])"
  by (simp only: removes_probe ensure_ok snd_Load)

end
