(* ===== verification/ServerMain.thy ===== *)
theory ServerMain
  imports RtcServerProperties HttpApiProperties ConfigProperties
begin

text \<open>
  \<^verbatim>\<open>cmd/rtc-server/main.go\<close>: the server as a whole.  \<^verbatim>\<open>run\<close> reads the configuration, builds the RTC
  server, the manager and the HTTP server from it, waits for a signal or for the HTTP server
  to end, and closes everything.  The HTTP server, the listener and the signal are arguments;
  what the program tells the HTTP server is part of the result.
\<close>

section \<open>Wiring\<close>

definition optionsOf :: "Config \<Rightarrow> Options" where
  "optionsOf cfg =
     \<lparr>optPublicIP = PublicIP cfg, optUDPPortMin = UDPPortMin cfg, optUDPPortMax = UDPPortMax cfg,
      optICELite = ICELite cfg, optAudioPrimeEnabled = AudioPrimeEnabled cfg,
      optAudioPrimeDuration = AudioPrimeDuration cfg, optAudioPrimeMode = AudioPrimeMode cfg,
      optRecordings = Some (NewFactory (RecordingsDir cfg)), optAnswerTimeout = 4500 * millisecond,
      optDisconnectGrace = 5 * second\<rparr>"

record httpServer =
  Addr :: string
  ReadHeaderTimeout :: duration
  ReadTimeout :: duration
  WriteTimeout :: duration
  IdleTimeout :: duration

definition httpServerOf :: "Config \<Rightarrow> httpServer" where
  "httpServerOf cfg =
     \<lparr>Addr = HTTPAddr cfg, ReadHeaderTimeout = 5 * second, ReadTimeout = 10 * second,
      WriteTimeout = 6 * second, IdleTimeout = 60 * second\<rparr>"

text \<open>What the manager's \<^verbatim>\<open>sessionFactory\<close> returns: the session and the answer of \<^verbatim>\<open>NewSession\<close> or its error.\<close>

definition factoryOf ::
  "(string \<Rightarrow> string \<Rightarrow> 'w sessionOutcome) \<Rightarrow> string \<Rightarrow> string \<Rightarrow> (rtcError, 'w session \<times> string) result" where
  "factoryOf build ident offer =
     (case build ident offer of
        Ready s answer entry \<Rightarrow> Inr (s, answer)
      | NoPeer e \<Rightarrow> Inl e | PeerOnly n e \<Rightarrow> Inl e | Abandoned s e \<Rightarrow> Inl e)"

section \<open>Shutdown\<close>

datatype serveError = ErrServerClosed | ServeFailure string

datatype shutdownError = ShutdownDeadline | ShutdownFailure string

datatype runError =
    ConfigFailed configError
  | ServerFailed serverError
  | ListenFailed string
  | ServeFailed serveError
  | ShutdownFailed shutdownError
  | HTTPCloseFailed string
  | NotStopped
  | SessionCloseFailed string

datatype httpAction = DoShutdown duration | DoClose

text \<open>The select on the result of \<^verbatim>\<open>Serve\<close> and the second timer.\<close>

datatype waitOutcome = ServeReturned serveError | WaitExpired

definition awaitServe :: "runError list \<Rightarrow> httpAction list \<Rightarrow> waitOutcome \<Rightarrow> runError list \<times> httpAction list" where
  "awaitServe errs actions wait =
     (case wait of
        ServeReturned e \<Rightarrow> (errs @ (if e = ErrServerClosed then [] else [ServeFailed e]), actions)
      | WaitExpired \<Rightarrow> ([NotStopped], actions @ [DoClose]))"

text \<open>\<^verbatim>\<open>errors.Join\<close> is the list of the errors that are not nil, so \<open>[]\<close> is the nil error.\<close>

definition shutdownHTTPServer ::
  "duration \<Rightarrow> shutdownError option \<Rightarrow> string option \<Rightarrow> waitOutcome \<Rightarrow> runError list \<times> httpAction list" where
  "shutdownHTTPServer timeout shutdownErr httpCloseErr wait =
     (let t = (if timeout \<le> 0 then 10 * second else timeout) in
      case shutdownErr of
        None \<Rightarrow> awaitServe [] [DoShutdown t] wait
      | Some e \<Rightarrow> (case httpCloseErr of
          Some c \<Rightarrow> ([ShutdownFailed e, HTTPCloseFailed c], [DoShutdown t, DoClose])
        | None \<Rightarrow> awaitServe (if e = ShutdownDeadline then [] else [ShutdownFailed e]) [DoShutdown t, DoClose] wait))"

section \<open>The program\<close>

text \<open>How serving ends: \<^verbatim>\<open>Serve\<close> returns, or a signal arrives and the shutdown runs its course.\<close>

datatype servingEnd =
    ServeEnds serveError
  | Interrupted "shutdownError option" "string option" waitOutcome

record 'w runResult =
  runErrors :: "runError list"
  finalManager :: "'w manager option"
  httpActions :: "httpAction list"

definition failsWith :: "runError \<Rightarrow> 'w runResult" where
  "failsWith e = \<lparr>runErrors = [e], finalManager = None, httpActions = []\<rparr>"

text \<open>\<open>serving\<close> is the manager when serving ends, given what \<^verbatim>\<open>run\<close> has built.\<close>

definition run ::
  "fsCalls \<Rightarrow> environment option \<Rightarrow> pionSetup \<Rightarrow> (string \<Rightarrow> string option) \<Rightarrow>
   ('w \<Rightarrow> 'w \<times> string option) \<Rightarrow> (nat \<Rightarrow> string option) \<Rightarrow>
   (Config \<Rightarrow> Server \<Rightarrow> 'w manager \<Rightarrow> 'w manager) \<Rightarrow> servingEnd \<Rightarrow> 'w runResult" where
  "run fs env pion listen writerClose peerErr serving ending =
     (case fst (Load fs env) of
        Inl e \<Rightarrow> failsWith (ConfigFailed e)
      | Inr cfg \<Rightarrow> (case NewServer pion (optionsOf cfg) of
          Inl e \<Rightarrow> failsWith (ServerFailed e)
        | Inr srv \<Rightarrow> (case listen (Addr (httpServerOf cfg)) of
            Some e \<Rightarrow> failsWith (ListenFailed e)
          | None \<Rightarrow>
              let manager = serving cfg srv NewManager;
                  (manager', closeErrs) = CloseAll (sessionConfigOf srv True) writerClose peerErr manager in
              (case ending of
                 ServeEnds e \<Rightarrow> \<lparr>runErrors = (if e = ErrServerClosed then [] else [ServeFailed e]),
                   finalManager = Some manager', httpActions = []\<rparr>
               | Interrupted shutdownErr httpCloseErr wait \<Rightarrow>
                   let (errs, actions) = shutdownHTTPServer (10 * second) shutdownErr httpCloseErr wait in
                   \<lparr>runErrors = errs @ map SessionCloseFailed closeErrs, finalManager = Some manager',
                    httpActions = actions\<rparr>))))"

definition exitCode :: "'w runResult \<Rightarrow> int" where
  "exitCode r = (if runErrors r = [] then 0 else 1)"

section \<open>Properties\<close>

lemma Load_validOptions: "fst (Load fs env) = Inr cfg \<Longrightarrow> validOptions (optionsOf cfg)"
proof -
  assume "fst (Load fs env) = Inr cfg"
  then have v: "validConfig cfg" by (rule Load_validConfig)
  then have "To4 (PublicIP cfg) \<noteq> None" by (simp add: validConfig_def publicIP_def To4_def)
  then show ?thesis using v by (auto simp: validOptions_def optionsOf_def validConfig_def)
qed

lemma Load_publicIP: "fst (Load fs (Some getenv)) = Inr cfg \<Longrightarrow> IPString (PublicIP cfg) = getenv ''PUBLIC_IP''"
  unfolding Load_Inr loadAddresses_Inr loadRest_Inr Let_def by (auto simp: parsePublicIPv4_iff)

text \<open>C27: a configuration that \<^verbatim>\<open>Load\<close> accepts never fails the checks of \<^verbatim>\<open>NewServer\<close>: only Pion itself
  can refuse it.  The server then announces the very text of \<^verbatim>\<open>PUBLIC_IP\<close>, its deadline for an answer
  leaves time to write the response, its sessions wait five seconds before they give up on a
  disconnected peer, and priming sends a positive number of frames.\<close>

theorem run_config:
  assumes "fst (Load fs (Some getenv)) = Inr cfg"
  shows "case NewServer pion (optionsOf cfg) of
     Inl e \<Rightarrow> pionRefuses pion (optionsOf cfg) = Some e
   | Inr srv \<Rightarrow> map External (rewriteRules (api srv)) = [[getenv ''PUBLIC_IP'']] \<and>
       0 < answerTimeout srv \<and> answerTimeout srv < WriteTimeout (httpServerOf cfg) \<and>
       answerTimeout srv < ReadTimeout (httpServerOf cfg) \<and>
       sessionConfigOf srv True = \<lparr>disconnectGrace = 5 * second, audioPrimeEnabled = AudioPrimeEnabled cfg,
         audioPrimeDuration = AudioPrimeDuration cfg, audioPrimeMode = AudioPrimeMode cfg,
         hasPrimeWriter = True, hasOnTerminal = True\<rparr> \<and>
       1 \<le> primeTarget (audioPrimeDuration (sessionConfigOf srv True)) \<and> 0 < SessionTTL cfg"
proof -
  have v: "validConfig cfg" by (rule Load_validConfig [OF assms])
  have d: "audioPrimeFrame \<le> AudioPrimeDuration cfg" "AudioPrimeMode cfg \<noteq> ''''" "0 < SessionTTL cfg"
    using v by (auto simp: validConfig_def)
  then have "1 \<le> primeTarget (AudioPrimeDuration cfg)"
    using zdiv_mono1 [of audioPrimeFrame "AudioPrimeDuration cfg" audioPrimeFrame] by (simp add: primeTarget_def)
  then show ?thesis
    unfolding NewServer_valid [OF Load_validOptions [OF assms]]
    using Load_publicIP [OF assms] d
    by (auto simp: sessionConfigOf_def httpServerOf_def rewriteRuleFor_def serverOf_def optionsOf_def
        withDefaults_def primeModeOf_def split: option.split)
qed

definition exSetup :: pionSetup where
  "exSetup = \<lparr>registerCodec = (\<lambda>_. None), setEphemeralUDPPortRange = (\<lambda>_ _. None), setICEAddressRewriteRules = (\<lambda>_. None)\<rparr>"

lemma exServerConfig_loaded: "fst (Load exFs (Some (environmentOf exServerConfig))) = Inr exServerConfig"
  by (rule Load_environmentOf [OF exServerConfig_valid exFs_ok])

lemma exServer_built: "NewServer exSetup (optionsOf exServerConfig) =
    Inr (serverOf (NewFactory ''/data/recordings'') (optionsOf exServerConfig))"
  unfolding NewServer_valid [OF Load_validOptions [OF exServerConfig_loaded]]
  by (simp add: pionRefuses_def exSetup_def optionsOf_def exServerConfig_def)

theorem run_config_witness:
  "case NewServer exSetup (optionsOf exServerConfig) of Inl e \<Rightarrow> False
   | Inr srv \<Rightarrow> map External (rewriteRules (api srv)) = [[''8.8.4.4'']]"
proof -
  have "environmentOf exServerConfig ''PUBLIC_IP'' = ''8.8.4.4''" by code_simp
  then show ?thesis using run_config [OF exServerConfig_loaded, of exSetup] by (simp add: exServer_built)
qed

lemma closeAll_closes:
  assumes "published m i = Some k" "k < length (heap m)"
  shows "closeOnce (heap (fst (CloseAll cfg C pe m)) ! k) = CloseDone"
proof -
  obtain e where e: "lookup m i = Some e" "entries m ! e = Some k"
    using assms(1) by (auto simp: published_def split: option.splits)
  then have "k \<in> set (snd (closeAllLocked m))"
    using map_of_SomeD [OF e(1)] by (force simp: closeAllLocked_def map_filter_def)
  then show ?thesis
    using closeEach_closed [of cfg C pe "snd (closeAllLocked m)" "fst (closeAllLocked m)"] assms(2)
    by (simp add: CloseAll_def closeAllLocked_def)
qed

lemma closeAll_empty: "sessions (fst (CloseAll cfg C pe m)) = []"
  using closeEach_closed [of cfg C pe "snd (closeAllLocked m)" "fst (closeAllLocked m)"]
  by (simp add: CloseAll_def closeAllLocked_def)

text \<open>The sessions a client can reach.\<close>

definition publishedSessions :: "'w manager \<Rightarrow> nat list" where
  "publishedSessions m = List.map_filter (\<lambda>(i, e). published m i) (sessions m)"

text \<open>C26: however \<^verbatim>\<open>run\<close> ends after it has begun to serve, it leaves an empty manager, and every
  session that was published when serving ended has been closed; before that point it has no
  manager, and the one error it returns tells which step failed.\<close>

theorem run_closes_all:
  "case finalManager (run fs env pion listen C pe serving ending) of
     None \<Rightarrow> (\<exists>e. runErrors (run fs env pion listen C pe serving ending) = [e])
   | Some m' \<Rightarrow> (\<exists>cfg srv. fst (Load fs env) = Inr cfg \<and> NewServer pion (optionsOf cfg) = Inr srv \<and>
       listen (HTTPAddr cfg) = None \<and> Len m' = 0 \<and>
       list_all (\<lambda>k. closeOnce (heap m' ! k) = CloseDone)
         (filter (\<lambda>k. k < length (heap (serving cfg srv NewManager))) (publishedSessions (serving cfg srv NewManager))))"
proof (cases "fst (Load fs env)")
  case (Inl e)
  then show ?thesis by (simp add: run_def failsWith_def)
next
  case cfg: (Inr cfg)
  show ?thesis
  proof (cases "NewServer pion (optionsOf cfg)")
    case (Inl e)
    then show ?thesis using cfg by (simp add: run_def failsWith_def)
  next
    case srv: (Inr srv)
    show ?thesis
    proof (cases "listen (HTTPAddr cfg)")
      case (Some e)
      then show ?thesis using cfg srv by (simp add: run_def failsWith_def httpServerOf_def)
    next
      case None
      let ?m = "serving cfg srv NewManager"
      let ?m' = "fst (CloseAll (sessionConfigOf srv True) C pe ?m)"
      have "finalManager (run fs env pion listen C pe serving ending) = Some ?m'"
        using cfg srv None
        by (simp add: run_def httpServerOf_def Let_def case_prod_unfold split: servingEnd.split)
      moreover have "Len ?m' = 0" by (simp add: Len_def closeAll_empty)
      moreover have "list_all (\<lambda>k. closeOnce (heap ?m' ! k) = CloseDone)
          (filter (\<lambda>k. k < length (heap ?m)) (publishedSessions ?m))"
        using closeAll_closes [of ?m] by (auto simp: list_all_iff publishedSessions_def map_filter_def)
      ultimately show ?thesis using cfg srv None by auto
    qed
  qed
qed

text \<open>C38: the shutdown of the HTTP server.  It is first asked to stop within a positive time; it is
  closed forcibly exactly if that failed or if \<^verbatim>\<open>Serve\<close> did not return in time.  A passed deadline
  is no error if the forced close succeeds; no error means that \<^verbatim>\<open>Serve\<close> returned as it should.\<close>

theorem shutdownHTTPServer_correct:
  "(\<exists>t > 0. hd (snd (shutdownHTTPServer timeout shutdownErr httpCloseErr wait)) = DoShutdown t \<and>
      (0 < timeout \<longrightarrow> t = timeout)) \<and>
   (DoClose \<in> set (snd (shutdownHTTPServer timeout shutdownErr httpCloseErr wait)) \<longleftrightarrow>
      \<not> (shutdownErr = None \<and> wait \<noteq> WaitExpired)) \<and>
   (fst (shutdownHTTPServer timeout shutdownErr httpCloseErr wait) = [] \<longleftrightarrow>
      wait = ServeReturned ErrServerClosed \<and> shutdownErr \<in> {None, Some ShutdownDeadline} \<and>
      \<not> (shutdownErr \<noteq> None \<and> httpCloseErr \<noteq> None))"
proof -
  have pos: "0 < (if timeout \<le> 0 then 10 * second else timeout)" by simp
  have "hd (snd (shutdownHTTPServer timeout shutdownErr httpCloseErr wait)) =
      DoShutdown (if timeout \<le> 0 then 10 * second else timeout)"
    by (simp add: shutdownHTTPServer_def awaitServe_def Let_def split: option.split waitOutcome.split)
  with pos have "\<exists>t > 0. hd (snd (shutdownHTTPServer timeout shutdownErr httpCloseErr wait)) = DoShutdown t \<and>
      (0 < timeout \<longrightarrow> t = timeout)" by (intro exI conjI) auto
  moreover have "DoClose \<in> set (snd (shutdownHTTPServer timeout shutdownErr httpCloseErr wait)) \<longleftrightarrow>
      \<not> (shutdownErr = None \<and> wait \<noteq> WaitExpired)"
    by (simp add: shutdownHTTPServer_def awaitServe_def Let_def split: option.split waitOutcome.split)
  moreover have "fst (shutdownHTTPServer timeout shutdownErr httpCloseErr wait) = [] \<longleftrightarrow>
      wait = ServeReturned ErrServerClosed \<and> shutdownErr \<in> {None, Some ShutdownDeadline} \<and>
      \<not> (shutdownErr \<noteq> None \<and> httpCloseErr \<noteq> None)"
    by (auto simp: shutdownHTTPServer_def awaitServe_def Let_def split: option.split waitOutcome.split)
  ultimately show ?thesis by blast
qed

theorem shutdownHTTPServer_correct_witness:
  "hd (snd (shutdownHTTPServer (3 * second) (Some ShutdownDeadline) None (ServeReturned ErrServerClosed))) =
     DoShutdown (3 * second) \<and>
   fst (shutdownHTTPServer (3 * second) (Some ShutdownDeadline) None (ServeReturned ErrServerClosed)) = []"
  using shutdownHTTPServer_correct [of "3 * second" "Some ShutdownDeadline" None "ServeReturned ErrServerClosed"] by simp

section \<open>From the request to the answer\<close>

lemma factoryOf_Inl: "factoryOf build i offer = Inl e \<longleftrightarrow> outcomeError (build i offer) = Some e"
  by (cases "build i offer") (simp_all add: factoryOf_def)

lemma createSession_passes:
  assumes "requestMethod r = ''POST''" "ParseMediaType (contentType r) = Some ''application/json''"
    "decodeJSON (requestBody r) = Inr req" "sessionIDPattern (SessionID req)" "TrimSpace (OfferSDP req) \<noteq> ''''"
  shows "createSession svc r st =
    (case serviceCreate svc (SessionID req) (OfferSDP req) st of
       (st', Inl err) \<Rightarrow> (st', writeRTCError (SessionID req) err)
     | (st', Inr answer) \<Rightarrow>
         (st', writeJSON 200 (stringObject [(''answerSdp'', answer), (''sessionId'', SessionID req)]), []))"
  using assms by (simp add: createSession_def)

text \<open>\<^verbatim>\<open>Create\<close> for a free identifier, by what \<^verbatim>\<open>NewSession\<close> returned: a session that has called back
  already is not published.\<close>

lemma Create_free:
  assumes "\<not> inUse m i" "Create cfg C pe ttl f (\<lambda>m. m) i m = (m', res)"
  shows "res = (case f of Inl e \<Rightarrow> Inl e | Inr (s, a) \<Rightarrow> if terminalCalls s = 0 then Inr a else Inl ErrSessionNotFound) \<and>
    (inUse m' i \<longleftrightarrow> is_ok res)"
proof (cases "\<exists>s a. f = Inr (s, a) \<and> terminalCalls s \<noteq> 0")
  case True
  then obtain s a where s: "f = Inr (s, a)" "terminalCalls s \<noteq> 0" by blast
  have "lookup m i = None" using assms(1) by (simp add: inUse_def)
  from Create_called [OF this s(2) assms(2) [unfolded s(1)]] show ?thesis using s by (simp add: inUse_def is_ok_iff)
next
  case False
  have none: "lookup m i = None" using assms(1) by (simp add: inUse_def)
  show ?thesis
  proof (cases f)
    case (Inl e)
    have "m' = removeEntry i (length (entries m)) (fst (the (case reserve i m of Inr x \<Rightarrow> Some x | Inl _ \<Rightarrow> None))) \<and> res = Inl e"
      using assms(2) none Inl by (simp add: Create_def reserve_def Let_def)
    then show ?thesis using none Inl by (simp add: inUse_def reserve_def removeEntry_def Let_def map_of_delete is_ok_iff)
  next
    case (Inr sa)
    then obtain s a where s: "f = Inr (s, a)" "terminalCalls s = 0" using False by (cases sa) auto
    then have r: "res = Inr a" using assms(2) none
      by (auto simp: Create_def reserve_def addSession_def calledBack_def publish_def Let_def split: if_splits)
    then have "isLive m' i" using assms(2) Create_live by blast
    then show ?thesis using r s by (auto simp: isLive_def inUse_def published_def is_ok_iff split: option.splits)
  qed
qed

lemma rtcErrorClass_status:
  "fst (rtcErrorClass e) \<noteq> 200"
  "fst (rtcErrorClass e) = 404 \<longleftrightarrow> errorsIs e ErrSessionNotFound \<and> \<not> (errorsIs e ErrInvalidSDP \<or> errorsIs e ErrOpusRequired \<or>
     errorsIs e ErrSessionExists)"
  "fst (rtcErrorClass e) = 400 \<longleftrightarrow> errorsIs e ErrInvalidSDP \<or> errorsIs e ErrOpusRequired"
  "fst (rtcErrorClass e) = 504 \<longleftrightarrow> errorsIs e ErrAnswerTimeout \<and> \<not> (errorsIs e ErrInvalidSDP \<or> errorsIs e ErrOpusRequired \<or>
     errorsIs e ErrSessionExists \<or> errorsIs e ErrSessionNotFound)"
  by (simp_all add: rtcErrorClass_def)

text \<open>The statuses 504 and 400 for the errors of \<^verbatim>\<open>NewSession\<close>.\<close>

lemma refused_status:
  assumes "outcomeError (NewSession unmarshal U W C srv pion between onTerminal i off) = Some e"
  shows "fst (rtcErrorClass e) = 504 \<longleftrightarrow> ctxErr pion \<noteq> None \<or>
      negotiated unmarshal pion off \<and> (\<exists>e. gather pion = DeadlineExceeded e)"
    "fst (rtcErrorClass e) = 400 \<longleftrightarrow> ctxErr pion = None \<and> (validateOffer unmarshal off \<noteq> None \<or>
      newPeerConnection pion = None \<and> newTrackLocal pion = None \<and> addTrack pion = None \<and>
      setRemoteDescription pion off \<noteq> None)"
    "fst (rtcErrorClass e) \<noteq> 404"
proof -
  note err = outcome_errors [OF refl, of unmarshal U W C srv pion between onTerminal i off]
  have valid: "validateOffer unmarshal off \<noteq> None" if "\<not> is_ok (unmarshal off)"
    using that by (auto simp: validateOffer_def is_ok_def split: sum.splits)
  have cls: "errorsIs e ErrAnswerTimeout \<longleftrightarrow>
       ctxErr pion \<noteq> None \<or> negotiated unmarshal pion off \<and> (\<exists>e. gather pion = DeadlineExceeded e)"
    "errorsIs e ErrInvalidSDP \<longleftrightarrow> ctxErr pion = None \<and> (\<not> is_ok (unmarshal off) \<or>
       validateOffer unmarshal off = None \<and> newPeerConnection pion = None \<and> newTrackLocal pion = None \<and>
       addTrack pion = None \<and> setRemoteDescription pion off \<noteq> None)"
    "errorsIs e ErrOpusRequired \<longleftrightarrow>
       ctxErr pion = None \<and> is_ok (unmarshal off) \<and> validateOffer unmarshal off \<noteq> None"
    "\<not> errorsIs e ErrSessionExists" "\<not> errorsIs e ErrSessionNotFound"
    using err assms by blast+
  have neg: "negotiated unmarshal pion off \<Longrightarrow> validateOffer unmarshal off = None \<and>
      setRemoteDescription pion off = None \<and> ctxErr pion = None" by (simp add: negotiated_def)
  show "fst (rtcErrorClass e) = 504 \<longleftrightarrow> ctxErr pion \<noteq> None \<or>
      negotiated unmarshal pion off \<and> (\<exists>e. gather pion = DeadlineExceeded e)"
    unfolding rtcErrorClass_status cls(1-3) using cls(4,5) neg valid
    by (cases "ctxErr pion"; cases "negotiated unmarshal pion off") auto
  show "fst (rtcErrorClass e) = 400 \<longleftrightarrow> ctxErr pion = None \<and> (validateOffer unmarshal off \<noteq> None \<or>
      newPeerConnection pion = None \<and> newTrackLocal pion = None \<and> addTrack pion = None \<and>
      setRemoteDescription pion off \<noteq> None)"
    unfolding rtcErrorClass_status cls(2,3) using valid
    by (cases "validateOffer unmarshal off"; cases "is_ok (unmarshal off)") auto
  show "fst (rtcErrorClass e) \<noteq> 404" using cls(5) by (simp add: rtcErrorClass_status)
qed

text \<open>What the handler and the manager make of the result of \<^verbatim>\<open>NewSession\<close> for a free identifier.\<close>

lemma create_served:
  assumes "h = newHandler token (managerService cfg C pe ttl factory)"
    "authorized h (authorization r)" "muxFind (requestMethod r) (escapedPath r) = MuxHandle CreateSession"
    "requestMethod r = ''POST''" "ParseMediaType (contentType r) = Some ''application/json''"
    "decodeJSON (requestBody r) = Inr req" "sessionIDPattern (SessionID req)" "TrimSpace (OfferSDP req) \<noteq> ''''"
    "\<not> inUse m (SessionID req)" "ServeHTTP h r m = (m', resp, lg)"
  shows "case factory (SessionID req) (OfferSDP req) of
      Inl e \<Rightarrow> \<not> inUse m' (SessionID req) \<and> statusCode resp = fst (rtcErrorClass e)
    | Inr (s, answer) \<Rightarrow>
        if terminalCalls s = 0 then isLive m' (SessionID req) \<and> statusCode resp = 200 \<and>
          payload resp = encodeJSON (stringObject [(''answerSdp'', answer), (''sessionId'', SessionID req)])
        else \<not> inUse m' (SessionID req) \<and> statusCode resp = 404"
proof -
  let ?i = "SessionID req" and ?f = "factory (SessionID req) (OfferSDP req)"
  obtain m1 res where c: "Create cfg C pe ttl ?f (\<lambda>m. m) ?i m = (m1, res)" by (rule prod.exhaust)
  note free = Create_free [OF assms(9) c]
  have "(m', resp, lg) = (case res of Inl err \<Rightarrow> (m1, writeRTCError ?i err)
      | Inr answer \<Rightarrow> (m1, writeJSON 200 (stringObject [(''answerSdp'', answer), (''sessionId'', ?i)]), []))"
    using assms(10) c unfolding ServeHTTP_route [OF assms(2,3)]
    by (cases res) (auto simp: serveRoute_def assms(1) newHandler_def createSession_passes [of r req, OF assms(4-8)])
  moreover have "fst (rtcErrorClass ErrSessionNotFound) = 404" by (simp add: rtcErrorClass_status)
  moreover have "is_ok res \<Longrightarrow> isLive m1 ?i" using c Create_live by (auto simp: is_ok_iff)
  ultimately show ?thesis using free
    by (auto simp: writeRTCError_def writeError_def writeJSON_def case_prod_unfold Let_def is_ok_iff split: sum.splits if_splits)
qed

text \<open>\<^verbatim>\<open>NewSession\<close> returned a session that its own goroutines have closed meanwhile, for instance
  because the peer connection failed.\<close>

definition closedMeanwhile :: "'w sessionOutcome \<Rightarrow> bool" where
  "closedMeanwhile outcome = (case outcome of Ready s answer entry \<Rightarrow> closeOnce s = CloseDone | _ \<Rightarrow> False)"

text \<open>The answer of \<^verbatim>\<open>NewSession\<close> is the normalised description that Pion gathered, and the callback has
  run exactly if the session is closed.\<close>

lemma factoryOf_Inr:
  assumes "factoryOf build i off = Inr (s, answer)" "build i off = NewSession unmarshal U W C srv pion between True i off"
  shows "negotiated unmarshal pion off \<and> (\<exists>local. gather pion = Gathered (Some local) \<and> answer = normalizeAnswer U off local) \<and>
    (terminalCalls s = 0 \<longleftrightarrow> \<not> closedMeanwhile (build i off))"
proof -
  obtain entry where b: "build i off = Ready s answer entry" using assms(1) by (cases "build i off") (auto simp: factoryOf_def)
  then have o: "sessionReachable (sessionConfigOf srv True) W C s" "negotiated unmarshal pion off"
    "\<exists>local. gather pion = Gathered (Some local) \<and> answer = normalizeAnswer U off local"
    using outcome_released [where unmarshal = unmarshal and U = U and W = W and C = C and srv = srv and pion = pion
        and between = between and onTerminal = True and sid = i and offer = off] assms(2) by auto
  have "inv_once (sessionConfigOf srv True) s" using sess.inv_reachable [OF o(1)] by (simp add: sessionInv_def)
  then have "terminalCalls s = 0 \<longleftrightarrow> closeOnce s \<noteq> CloseDone" by (auto simp: inv_once_def sessionConfigOf_def)
  then show ?thesis using o b by (simp add: closedMeanwhile_def)
qed

lemma factoryOf_Inl_open: "factoryOf build i off = Inl e \<Longrightarrow> \<not> closedMeanwhile (build i off)"
  by (cases "build i off") (simp_all add: factoryOf_def closedMeanwhile_def)

text \<open>C1: the whole way of an offer, through the handler, the manager and \<^verbatim>\<open>NewSession\<close>, whatever the new
  session's goroutines do while \<^verbatim>\<open>NewSession\<close> runs and with no other request to the manager at the
  same time.  For a well-formed and authorised request with a free identifier: the status is
  200 exactly if the negotiation succeeds, the candidates are gathered in time and the session
  has not been closed meanwhile, and then the response carries the normalised description and
  the session is live; 404 means that it was negotiated and closed before it could be
  published; 504 that the deadline passed; 400 that the offer was refused; in all these cases
  and for any other error the identifier is free again.\<close>

theorem http_create_answer:
  assumes "build = (\<lambda>i off. NewSession unmarshal U W C srv (pionFor i off) (between i) True i off)"
    "h = newHandler token (managerService cfg C pe ttl (factoryOf build))"
    "authorized h (authorization r)" "muxFind (requestMethod r) (escapedPath r) = MuxHandle CreateSession"
    "requestMethod r = ''POST''" "ParseMediaType (contentType r) = Some ''application/json''"
    "decodeJSON (requestBody r) = Inr req" "sessionIDPattern (SessionID req)" "TrimSpace (OfferSDP req) \<noteq> ''''"
    "\<not> inUse m (SessionID req)" "pion = pionFor (SessionID req) (OfferSDP req)"
    "ServeHTTP h r m = (m', resp, lg)"
  shows "(statusCode resp = 200 \<longleftrightarrow>
      negotiated unmarshal pion (OfferSDP req) \<and> (\<exists>local. gather pion = Gathered (Some local)) \<and>
      \<not> closedMeanwhile (build (SessionID req) (OfferSDP req))) \<and>
    (statusCode resp = 404 \<longleftrightarrow>
      negotiated unmarshal pion (OfferSDP req) \<and> (\<exists>local. gather pion = Gathered (Some local)) \<and>
      closedMeanwhile (build (SessionID req) (OfferSDP req))) \<and>
    (statusCode resp = 200 \<longrightarrow> isLive m' (SessionID req) \<and> (\<exists>local. gather pion = Gathered (Some local) \<and>
      payload resp = encodeJSON (stringObject
        [(''answerSdp'', normalizeAnswer U (OfferSDP req) local), (''sessionId'', SessionID req)]))) \<and>
    (statusCode resp = 504 \<longleftrightarrow> ctxErr pion \<noteq> None \<or>
      negotiated unmarshal pion (OfferSDP req) \<and> (\<exists>e. gather pion = DeadlineExceeded e)) \<and>
    (statusCode resp = 400 \<longleftrightarrow> ctxErr pion = None \<and> (validateOffer unmarshal (OfferSDP req) \<noteq> None \<or>
      newPeerConnection pion = None \<and> newTrackLocal pion = None \<and> addTrack pion = None \<and>
      setRemoteDescription pion (OfferSDP req) \<noteq> None)) \<and>
    (statusCode resp \<noteq> 200 \<longrightarrow> \<not> inUse m' (SessionID req))"
proof -
  let ?i = "SessionID req" and ?off = "OfferSDP req"
  let ?o = "build ?i ?off"
  have o: "?o = NewSession unmarshal U W C srv pion (between ?i) True ?i ?off" by (simp add: assms(1,11))
  note served = create_served [OF assms(2-10,12)]
  show ?thesis
  proof (cases "factoryOf build ?i ?off")
    case (Inl e)
    then have e: "outcomeError ?o = Some e" by (simp add: factoryOf_Inl)
    have resp: "\<not> inUse m' ?i" "statusCode resp = fst (rtcErrorClass e)" using served Inl by simp_all
    have "\<not> (negotiated unmarshal pion ?off \<and> (\<exists>local. gather pion = Gathered (Some local)))"
      using outcome_errors [OF refl, of unmarshal U W C srv pion "between ?i" True ?i ?off] e [unfolded o] by simp
    moreover have "statusCode resp \<noteq> 200" by (simp add: resp rtcErrorClass_status)
    moreover note refused_status [OF e [unfolded o], folded resp(2)]
    ultimately show ?thesis using resp(1) factoryOf_Inl_open [OF Inl] by blast
  next
    case (Inr sa)
    then obtain s answer where sa: "factoryOf build ?i ?off = Inr (s, answer)" by (cases sa) simp
    note f = factoryOf_Inr [OF sa o]
    show ?thesis
    proof (cases "closedMeanwhile ?o")
      case True
      then have "\<not> inUse m' ?i \<and> statusCode resp = 404" using served sa f by simp
      then show ?thesis using f True by (auto simp: negotiated_def)
    next
      case False
      then show ?thesis using served sa f by (auto simp: negotiated_def)
    qed
  qed
qed

text \<open>A peer connection that fails while candidates are gathered, and one on which nothing happens.\<close>

definition exFails :: "nat \<Rightarrow> (nat, nat) sessionEvent list" where
  "exFails n = (if n = 4 then [EvPeerState PeerFailed, EvStopPrime, EvCloseEnter] @ replicate 5 (EvCloseNext None) else [])"

definition exCreateStatus :: "(nat \<Rightarrow> (nat, nat) sessionEvent list) \<Rightarrow> nat" where
  "exCreateStatus between = statusCode (fst (snd (ServeHTTP
     (newHandler ''secret'' (managerService exConfig exClose (\<lambda>_. None) second
       (factoryOf (\<lambda>i off. NewSession exUnmarshal (\<lambda>_. True) exWrite exClose exServer exPion between True i off))))
     (exRequest ''POST'' ''/v1/rtc/sessions'') (NewManager :: nat manager))))"

theorem http_create_answer_witness:
  "exCreateStatus (\<lambda>_. []) = 200 \<and> exCreateStatus exFails = 404"
proof -
  let ?build = "\<lambda>between i off. NewSession exUnmarshal (\<lambda>_. True) exWrite exClose exServer exPion between True i off"
  let ?h = "\<lambda>between. newHandler ''secret'' (managerService exConfig exClose (\<lambda>_. None) second (factoryOf (?build between)))"
  let ?r = "exRequest ''POST'' ''/v1/rtc/sessions''"
  have auth: "authorized (?h between) (authorization ?r)" for between by (simp add: authorized_iff exRequest_def)
  have route: "muxFind (requestMethod ?r) (escapedPath ?r) = MuxHandle CreateSession" by code_simp
  have meth: "requestMethod ?r = ''POST''" by (simp add: exRequest_facts)
  have pat: "sessionIDPattern (SessionID \<lparr>SessionID = ''a'', OfferSDP = ''v=0''\<rparr>)"
    "TrimSpace (OfferSDP \<lparr>SessionID = ''a'', OfferSDP = ''v=0''\<rparr>) \<noteq> []" by (simp_all add: exRequest_facts)
  have free: "\<not> inUse (NewManager :: nat manager) (SessionID \<lparr>SessionID = ''a'', OfferSDP = ''v=0''\<rparr>)"
    by (simp add: inUse_def NewManager_def)
  have v: "validateOffer exUnmarshal ''v=0'' = None" by code_simp
  have n: "negotiated exUnmarshal exPion ''v=0''" "gather exPion = Gathered (Some ''v=0'')"
    using v by (simp_all add: negotiated_def exPion_def)
  have served: "exCreateStatus between = (if closedMeanwhile (?build between ''a'' ''v=0'') then 404 else 200)" for between
  proof -
    obtain m' resp lg where s: "ServeHTTP (?h between) ?r (NewManager :: nat manager) = (m', resp, lg)"
      by (rule prod_cases3)
    have "statusCode resp = (if closedMeanwhile (?build between ''a'' ''v=0'') then 404 else 200)"
      using http_create_answer [where pionFor = "\<lambda>_ _. exPion" and between = "\<lambda>_. between",
          OF refl refl auth route meth exRequest_facts(5) exBody pat free refl s] n by simp
    then show ?thesis using s by (simp add: exCreateStatus_def)
  qed
  have cfg: "sessionConfigOf exServer True = exConfig"
    by (simp add: sessionConfigOf_def exServer_def serverOf_def withDefaults_def primeModeOf_def exConfig_def)
  let ?m = "\<lambda>events. meanwhile exConfig exWrite exClose events"
  let ?s = "\<lambda>between. ?m (between 4) (?m (between 3) (?m (between 2) (?m (between 1) (?m (between 0) (newSession ''a'')))))"
  have "closedMeanwhile (?build between ''a'' ''v=0'') \<longleftrightarrow> closeOnce (?s between) = CloseDone" for between
    by (simp add: NewSession_def cfg exPion_def v Let_def answerReady_def closedMeanwhile_def)
  moreover have "closeOnce (?s (\<lambda>_. [])) \<noteq> CloseDone" "closeOnce (?s exFails) = CloseDone" by code_simp+
  ultimately show ?thesis unfolding served by simp
qed

end
