(* ===== verification/Probe.thy ===== *)
theory Probe
  imports RtcServer HttpApi
begin

text \<open>
  \<^verbatim>\<open>cmd/rtc-probe/main.go\<close>: the client that creates a session, connects to it and deletes it again.
  Pion, the HTTP client and the parser of URLs are arguments.  What the probe
  prints and which calls it makes are part of the results.
\<close>

section \<open>Errors, log lines and exit codes\<close>

datatype probeError =
    errInvalidBaseURL | errCreateRequest | errInvalidAnswer | errDeleteRequest | errOffer | errProbeConfig
  | errOfferCreate | errLocalDescription | errICEGathering | errRemoteDescription | errICEFailed
  | errPeerConnectionFailed | errConnectionTimeout

definition exitSuccess :: int where [simp]: "exitSuccess = 0"
definition exitProbeFailure :: int where [simp]: "exitProbeFailure = 1"
definition exitCleanupFailure :: int where [simp]: "exitCleanupFailure = 2"
abbreviation maxResponseBytes :: nat where "maxResponseBytes \<equiv> 1048576"

definition logLine :: "string \<Rightarrow> string" where
  "logLine name = name"

definition categoryLine :: "string \<Rightarrow> string \<Rightarrow> string" where
  "categoryLine name cat = name @ '' category='' @ cat"

definition stateLine :: "string \<Rightarrow> string \<Rightarrow> string" where
  "stateLine name st = name @ '' state='' @ st"

definition reportCleanupFailure :: "string list" where
  "reportCleanupFailure = [categoryLine ''probe_failed'' ''cleanup'', logLine ''cleanup_failed'']"

fun probeFailureCategory :: "probeError \<Rightarrow> string" where
  "probeFailureCategory errOfferCreate = ''offer_create''"
| "probeFailureCategory errLocalDescription = ''local_description''"
| "probeFailureCategory errICEGathering = ''ice_gathering''"
| "probeFailureCategory errRemoteDescription = ''remote_description''"
| "probeFailureCategory errICEFailed = ''ice_failed''"
| "probeFailureCategory errPeerConnectionFailed = ''peer_connection_failed''"
| "probeFailureCategory errConnectionTimeout = ''timeout''"
| "probeFailureCategory _ = ''''"

definition categoryOr :: "probeError \<Rightarrow> string \<Rightarrow> string" where
  "categoryOr err fallback = (if probeFailureCategory err = '''' then fallback else probeFailureCategory err)"

section \<open>The probe\<close>

text \<open>The interfaces \<^verbatim>\<open>sessionAPI\<close> and \<^verbatim>\<open>peerProbe\<close>: what their operations return, and for the peer
  which lines they print.\<close>

record sessionAPI =
  apiCreate :: "string \<Rightarrow> string \<Rightarrow> string \<times> bool \<times> probeError option"
  apiDelete :: "string \<Rightarrow> probeError option"

record peerProbe =
  peerOffer :: "string list \<times> (probeError, string) result"
  peerApply :: "string \<Rightarrow> string list \<times> probeError option"

datatype probeCall = CallOffer | CallCreate string string | CallApply string | CallDelete string | CallClosePeer

record probeResult =
  exitStatus :: int
  calls :: "probeCall list"
  outputLines :: "string list"

definition failed :: "probeCall list \<Rightarrow> string list \<Rightarrow> string \<Rightarrow> probeResult" where
  "failed cs out cat = \<lparr>exitStatus = exitProbeFailure, calls = cs, outputLines = out @ [categoryLine ''probe_failed'' cat]\<rparr>"

text \<open>\<^verbatim>\<open>cleanupSession\<close> after a failure: the deletion is tried and its failure is reported.\<close>

definition cleanupAfter :: "sessionAPI \<Rightarrow> string \<Rightarrow> probeResult \<Rightarrow> probeResult" where
  "cleanupAfter ap sessionID r =
     r\<lparr>calls := calls r @ [CallDelete sessionID],
       outputLines := outputLines r @ (if apiDelete ap sessionID \<noteq> None then reportCleanupFailure else [])\<rparr>"

definition probeBody :: "sessionAPI \<Rightarrow> peerProbe \<Rightarrow> string \<Rightarrow> probeResult" where
  "probeBody ap peer sessionID =
     (let (out1, offerResult) = peerOffer peer in
      case offerResult of
        Inl err \<Rightarrow> failed [CallOffer] out1 (categoryOr err ''offer_create'')
      | Inr offer \<Rightarrow>
          (let cs = [CallOffer, CallCreate sessionID offer]; (answer, created, createErr) = apiCreate ap sessionID offer in
           case createErr of
             Some err \<Rightarrow>
               let r = failed cs out1 (if created \<or> err = errInvalidAnswer then ''answer_invalid'' else ''request'') in
               if created then cleanupAfter ap sessionID r else r
           | None \<Rightarrow>
               (let (out2, applyErr) = peerApply peer answer; out3 = out1 @ [logLine ''answer_received''] @ out2;
                    cs3 = cs @ [CallApply answer] in
                case applyErr of
                  Some err \<Rightarrow> cleanupAfter ap sessionID (failed cs3 out3 (categoryOr err ''peer_connection_failed''))
                | None \<Rightarrow>
                    if apiDelete ap sessionID \<noteq> None then
                      \<lparr>exitStatus = exitCleanupFailure, calls = cs3 @ [CallDelete sessionID],
                       outputLines = out3 @ [logLine ''probe_connected''] @ reportCleanupFailure\<rparr>
                    else
                      \<lparr>exitStatus = exitSuccess, calls = cs3 @ [CallDelete sessionID],
                       outputLines = out3 @ [logLine ''probe_connected'', logLine ''probe_succeeded'']\<rparr>)))"

text \<open>\<^verbatim>\<open>runProbe\<close> with its deferred \<^verbatim>\<open>peer.Close()\<close>.\<close>

definition runProbe :: "sessionAPI \<Rightarrow> peerProbe \<Rightarrow> string \<Rightarrow> probeResult" where
  "runProbe ap peer sessionID =
     (let r = probeBody ap peer sessionID in r\<lparr>calls := calls r @ [CallClosePeer]\<rparr>)"

section \<open>The peer\<close>

datatype iceConnectionState =
    IceNew | IceChecking | IceConnected | IceCompleted | IceDisconnected | IceFailed | IceClosed

fun iceStateName :: "iceConnectionState \<Rightarrow> string" where
  "iceStateName IceNew = ''new''"
| "iceStateName IceChecking = ''checking''"
| "iceStateName IceConnected = ''connected''"
| "iceStateName IceCompleted = ''completed''"
| "iceStateName IceDisconnected = ''disconnected''"
| "iceStateName IceFailed = ''failed''"
| "iceStateName IceClosed = ''closed''"

fun peerStateName :: "peerConnectionState \<Rightarrow> string" where
  "peerStateName PeerUnknown = ''unknown''"
| "peerStateName PeerNew = ''new''"
| "peerStateName PeerConnecting = ''connecting''"
| "peerStateName PeerConnected = ''connected''"
| "peerStateName PeerDisconnected = ''disconnected''"
| "peerStateName PeerFailed = ''failed''"
| "peerStateName PeerClosed = ''closed''"

text \<open>The channel \<^verbatim>\<open>connection\<close> has room for one result; a second one is dropped.\<close>

record pionProbe =
  connection :: "probeError option option"
  printed :: "string list"

definition signalConnection :: "probeError option \<Rightarrow> pionProbe \<Rightarrow> pionProbe" where
  "signalConnection res p = (case connection p of None \<Rightarrow> p\<lparr>connection := Some res\<rparr> | Some _ \<Rightarrow> p)"

definition onICEConnectionStateChange :: "iceConnectionState \<Rightarrow> pionProbe \<Rightarrow> pionProbe" where
  "onICEConnectionStateChange state p =
     (let p1 = p\<lparr>printed := printed p @ [stateLine ''ice_connection_state'' (iceStateName state)]\<rparr> in
      if state = IceFailed then signalConnection (Some errICEFailed) p1 else p1)"

text \<open>\<open>iceNow\<close> is the state that \<^verbatim>\<open>peer.ICEConnectionState()\<close> reports in the callback.\<close>

definition onConnectionStateChange :: "peerConnectionState \<Rightarrow> iceConnectionState \<Rightarrow> pionProbe \<Rightarrow> pionProbe" where
  "onConnectionStateChange state iceNow p =
     (let p1 = p\<lparr>printed := printed p @ [stateLine ''peer_connection_state'' (peerStateName state)]\<rparr> in
      if state = PeerConnected then signalConnection None p1
      else if state = PeerFailed \<or> state = PeerClosed then
        signalConnection (Some (if iceNow = IceFailed then errICEFailed else errPeerConnectionFailed)) p1
      else p1)"

datatype probeEvent = IceChanged iceConnectionState | PeerChanged peerConnectionState iceConnectionState

fun probeCallback :: "probeEvent \<Rightarrow> pionProbe \<Rightarrow> pionProbe" where
  "probeCallback (IceChanged state) p = onICEConnectionStateChange state p"
| "probeCallback (PeerChanged state iceNow) p = onConnectionStateChange state iceNow p"

text \<open>\<^verbatim>\<open>Offer\<close>: the description, whether the context was done before the candidates were gathered, and
  the local description, \<open>None\<close> if it is nil.\<close>

definition Offer ::
  "(string, string) result \<Rightarrow> string option \<Rightarrow> bool \<Rightarrow> string option \<Rightarrow> string list \<times> (probeError, string) result" where
  "Offer createOffer setLocal ctxDoneFirst local =
     (case createOffer of
        Inl err \<Rightarrow> ([], Inl errOfferCreate)
      | Inr offer \<Rightarrow>
          if setLocal \<noteq> None then ([logLine ''offer_created''], Inl errLocalDescription)
          else let out = [logLine ''offer_created'', logLine ''local_description_set''] in
            if ctxDoneFirst then (out, Inl errICEGathering)
            else (case local of
                    None \<Rightarrow> (out, Inl errICEGathering)
                  | Some sdp \<Rightarrow> if sdp = '''' then (out, Inl errICEGathering)
                      else (out @ [logLine ''ice_gathering_completed''], Inr sdp)))"

text \<open>\<^verbatim>\<open>ApplyAnswerAndWait\<close>: the callbacks that run while it waits, and whether the wait ends with the
  deadline.  \<open>None\<close> means that it still waits.\<close>

definition ApplyAnswerAndWait ::
  "string option \<Rightarrow> probeEvent list \<Rightarrow> bool \<Rightarrow> pionProbe \<Rightarrow> (pionProbe \<times> probeError option) option" where
  "ApplyAnswerAndWait setRemote events deadline p =
     (if setRemote \<noteq> None then Some (p, Some errRemoteDescription)
      else let p1 = fold probeCallback events (p\<lparr>printed := printed p @ [logLine ''remote_description_applied'']\<rparr>) in
        if deadline then Some (p1, Some errConnectionTimeout)
        else (case connection p1 of None \<Rightarrow> None | Some res \<Rightarrow> Some (p1\<lparr>connection := None\<rparr>, res)))"

section \<open>Construction of the peer\<close>

record probeOptions =
  stunURL :: string
  includeVideo :: bool

datatype mediaKind = KindAudio | KindVideo

definition h264Codec :: "string \<Rightarrow> nat \<Rightarrow> codecParameters" where
  "h264Codec profile payloadNumber = \<lparr>MimeType = ''video/H264'', ClockRate = 90000, Channels = 0,
     SDPFmtpLine = ''level-asymmetry-allowed=1;packetization-mode=1;profile-level-id='' @ profile,
     PayloadType = payloadNumber\<rparr>"

definition probeCodecs :: "probeOptions \<Rightarrow> codecParameters list" where
  "probeCodecs options = opusCodec #
     (if includeVideo options then [h264Codec ''42001f'' 102, h264Codec ''64001f'' 112] else [])"

record pionClient =
  clientRegister :: "codecParameters \<Rightarrow> string option"
  clientNewPeer :: "string list \<Rightarrow> string option"
  clientAddTransceiver :: "mediaKind \<Rightarrow> string option"

text \<open>The result, and how often the peer connection was closed on the way.\<close>

definition newPionProbeWithLogger ::
  "pionClient \<Rightarrow> probeOptions \<Rightarrow> (probeError, pionProbe) result \<times> nat" where
  "newPionProbeWithLogger pion options =
     (if list_ex (\<lambda>c. clientRegister pion c \<noteq> None) (probeCodecs options) then (Inl errOffer, 0)
      else if clientNewPeer pion (if stunURL options \<noteq> '''' then [stunURL options] else []) \<noteq> None then (Inl errOffer, 0)
      else if clientAddTransceiver pion KindAudio \<noteq> None then (Inl errOffer, 1)
      else if includeVideo options \<and> clientAddTransceiver pion KindVideo \<noteq> None then (Inl errOffer, 1)
      else (Inr \<lparr>connection = None, printed = []\<rparr>, 0))"

section \<open>The client of the HTTP interface\<close>

record sessionClient =
  baseURL :: string
  clientToken :: string

record parsedURL =
  scheme :: string
  host :: string
  hasUser :: bool
  rawQuery :: string
  fragment :: string

definition newSessionClient ::
  "(string \<Rightarrow> parsedURL option) \<Rightarrow> string \<Rightarrow> string \<Rightarrow> (probeError, sessionClient) result" where
  "newSessionClient parse base token =
     (case parse base of
        None \<Rightarrow> Inl errInvalidBaseURL
      | Some u \<Rightarrow>
          if (scheme u \<noteq> ''http'' \<and> scheme u \<noteq> ''https'') \<or> host u = '''' \<or> hasUser u \<or> rawQuery u \<noteq> '''' \<or> fragment u \<noteq> ''''
          then Inl errInvalidBaseURL
          else Inr \<lparr>baseURL = TrimRight base ''/'', clientToken = token\<rparr>)"

record clientRequest =
  reqMethod :: string
  reqURL :: string
  reqAuthorization :: string
  reqContentType :: string
  reqBody :: string

text \<open>The HTTP client: whether a request can be built, and the status and body that come back.\<close>

record httpClient =
  buildable :: "clientRequest \<Rightarrow> bool"
  perform :: "clientRequest \<Rightarrow> (string, int \<times> string) result"

definition createRequest :: "sessionClient \<Rightarrow> string \<Rightarrow> string \<Rightarrow> clientRequest" where
  "createRequest c sessionID offer =
     \<lparr>reqMethod = ''POST'', reqURL = baseURL c @ ''/v1/rtc/sessions'', reqAuthorization = ''Bearer '' @ clientToken c,
      reqContentType = ''application/json'',
      reqBody = Marshal (stringObject [(''sessionId'', sessionID), (''offerSdp'', offer)])\<rparr>"

definition deleteRequest :: "sessionClient \<Rightarrow> string \<Rightarrow> clientRequest" where
  "deleteRequest c sessionID =
     \<lparr>reqMethod = ''DELETE'', reqURL = baseURL c @ ''/v1/rtc/sessions/'' @ PathEscape sessionID,
      reqAuthorization = ''Bearer '' @ clientToken c, reqContentType = '''', reqBody = ''''\<rparr>"

definition clientCreate ::
  "httpClient \<Rightarrow> sessionClient \<Rightarrow> string \<Rightarrow> string \<Rightarrow> string \<times> bool \<times> probeError option" where
  "clientCreate http c sessionID offer =
     (let req = createRequest c sessionID offer in
      if \<not> buildable http req then ('''', False, Some errCreateRequest)
      else case perform http req of
        Inl err \<Rightarrow> ('''', False, Some errCreateRequest)
      | Inr (code, content) \<Rightarrow>
          if code < 200 \<or> 300 \<le> code then ('''', False, Some errCreateRequest)
          else (case Decode False [''answerSdp''] (LimitReader maxResponseBytes content) of
                  Inl err \<Rightarrow> ('''', True, Some errInvalidAnswer)
                | Inr (vals, rest) \<Rightarrow>
                    if vals ''answerSdp'' = '''' then ('''', True, Some errInvalidAnswer)
                    else (vals ''answerSdp'', True, None)))"

definition clientDelete :: "httpClient \<Rightarrow> sessionClient \<Rightarrow> string \<Rightarrow> probeError option" where
  "clientDelete http c sessionID =
     (let req = deleteRequest c sessionID in
      if \<not> buildable http req then Some errDeleteRequest
      else case perform http req of
        Inl err \<Rightarrow> Some errDeleteRequest
      | Inr (code, content) \<Rightarrow> if code < 200 \<or> 300 \<le> code then Some errDeleteRequest else None)"

section \<open>The program\<close>

definition parseIncludeVideo :: "string \<Rightarrow> (probeError, bool) result" where
  "parseIncludeVideo val =
     (if val = '''' then Inr False
      else case ParseBool val of None \<Rightarrow> Inl errProbeConfig | Some b \<Rightarrow> Inr b)"

text \<open>\<^verbatim>\<open>%x\<close> of a byte array: two digits for each byte.\<close>

definition hexBytes :: "bytes \<Rightarrow> string" where
  "hexBytes bs = concat (map (\<lambda>b. [lowerHex (uint b div 16), lowerHex (uint b mod 16)]) bs)"

definition newSessionID :: "bytes option \<Rightarrow> (string, string) result" where
  "newSessionID random =
     (case random of None \<Rightarrow> Inl ''rand'' | Some bs \<Rightarrow> Inr (''rtc-probe-'' @ hexBytes bs))"

text \<open>\<^verbatim>\<open>run\<close>; \<open>peerOf\<close> is the behaviour of the peer that was built.\<close>

definition runMain ::
  "(string \<Rightarrow> parsedURL option) \<Rightarrow> pionClient \<Rightarrow> bytes option \<Rightarrow> (sessionClient \<Rightarrow> sessionAPI) \<Rightarrow>
   (pionProbe \<Rightarrow> peerProbe) \<Rightarrow> (string \<Rightarrow> string) \<Rightarrow> probeResult" where
  "runMain parse pion random apiOf peerOf getenv =
     (let base = getenv ''RTC_SERVER_URL''; token = getenv ''RTC_SERVER_TOKEN'' in
      if base = '''' \<or> token = '''' then failed [] [] ''configuration''
      else case parseIncludeVideo (getenv ''RTC_PROBE_INCLUDE_VIDEO'') of
        Inl err \<Rightarrow> failed [] [] ''configuration''
      | Inr video \<Rightarrow> (case newSessionClient parse base token of
          Inl err \<Rightarrow> failed [] [] ''configuration''
        | Inr client \<Rightarrow>
            (case newPionProbeWithLogger pion \<lparr>stunURL = getenv ''RTC_PROBE_STUN_URL'', includeVideo = video\<rparr> of
               (Inl err, n) \<Rightarrow> failed (replicate n CallClosePeer) [] ''peer''
             | (Inr p, n) \<Rightarrow> (case newSessionID random of
                 Inl err \<Rightarrow> failed [CallClosePeer] [] ''session''
               | Inr sessionID \<Rightarrow> runProbe (apiOf client) (peerOf p) sessionID))))"

end
