(* ===== verification/ProbeProperties.thy ===== *)
theory ProbeProperties
  imports Probe HttpApiProperties
begin

text \<open>
  The probe cleans up after itself on every path, its exit code means what it says, the first
  result of the connection counts, and the server understands what the probe sends.
\<close>

section \<open>Cleaning up\<close>

text \<open>The server has told the probe that there is a session.\<close>

definition sessionMade :: "sessionAPI \<Rightarrow> peerProbe \<Rightarrow> string \<Rightarrow> bool" where
  "sessionMade ap peer sid =
     (case snd (peerOffer peer) of Inl err \<Rightarrow> False
      | Inr offer \<Rightarrow> (case apiCreate ap sid offer of (answer, created, err) \<Rightarrow> created \<or> err = None))"

definition connectedOk :: "sessionAPI \<Rightarrow> peerProbe \<Rightarrow> string \<Rightarrow> bool" where
  "connectedOk ap peer sid =
     (case snd (peerOffer peer) of Inl err \<Rightarrow> False
      | Inr offer \<Rightarrow> (case apiCreate ap sid offer of (answer, created, err) \<Rightarrow>
          err = None \<and> snd (peerApply peer answer) = None))"

text \<open>C34: the probe always closes its peer connection, once and as the last thing it does; it asks the
  server to delete the session exactly once if the server has created one and never
  otherwise.  The exit code is 0 exactly if the connection was made and the session deleted,
  2 if only the deletion failed, and 1 otherwise; success is the last line exactly then.\<close>

theorem runProbe_cleans_up:
  "last (calls (runProbe ap peer sid)) = CallClosePeer \<and> count_list (calls (runProbe ap peer sid)) CallClosePeer = 1 \<and>
   count_list (calls (runProbe ap peer sid)) (CallDelete sid) = (if sessionMade ap peer sid then 1 else 0) \<and>
   exitStatus (runProbe ap peer sid) =
     (if connectedOk ap peer sid then (if apiDelete ap sid = None then 0 else 2) else 1) \<and>
   (last (outputLines (runProbe ap peer sid)) = ''probe_succeeded'' \<longleftrightarrow> exitStatus (runProbe ap peer sid) = 0)"
proof -
  obtain out1 res where o: "peerOffer peer = (out1, res)" by (cases "peerOffer peer")
  show ?thesis
  proof (cases res)
    case (Inl err)
    then show ?thesis using o
      by (simp add: runProbe_def probeBody_def failed_def sessionMade_def connectedOk_def categoryLine_def)
  next
    case (Inr offer)
    obtain answer created cerr where c: "apiCreate ap sid offer = (answer, created, cerr)" by (rule prod_cases3)
    show ?thesis
    proof (cases cerr)
      case (Some err)
      then show ?thesis using o Inr c
        by (simp add: runProbe_def probeBody_def failed_def cleanupAfter_def reportCleanupFailure_def sessionMade_def
            connectedOk_def categoryLine_def logLine_def)
    next
      case None
      obtain out2 aerr where a: "peerApply peer answer = (out2, aerr)" by (cases "peerApply peer answer")
      show ?thesis
        using o Inr c None a
        by (cases aerr) (simp_all add: runProbe_def probeBody_def failed_def cleanupAfter_def reportCleanupFailure_def
            sessionMade_def connectedOk_def categoryLine_def logLine_def)
    qed
  qed
qed

section \<open>The first result counts\<close>

fun eventSignal :: "probeEvent \<Rightarrow> probeError option option" where
  "eventSignal (IceChanged state) = (if state = IceFailed then Some (Some errICEFailed) else None)"
| "eventSignal (PeerChanged state iceNow) =
     (if state = PeerConnected then Some None
      else if state = PeerFailed \<or> state = PeerClosed
      then Some (Some (if iceNow = IceFailed then errICEFailed else errPeerConnectionFailed)) else None)"

lemma connection_callback:
  "connection (probeCallback e p) = (case connection p of None \<Rightarrow> eventSignal e | Some r \<Rightarrow> Some r)"
  by (cases e) (auto simp: onICEConnectionStateChange_def onConnectionStateChange_def signalConnection_def Let_def
      split: option.split)

definition firstSignal :: "probeEvent list \<Rightarrow> probeError option option" where
  "firstSignal events = (case List.map_filter eventSignal events of [] \<Rightarrow> None | r # rs \<Rightarrow> Some r)"

lemma connection_fold:
  "connection (fold probeCallback events p) = (case connection p of None \<Rightarrow> firstSignal events | Some r \<Rightarrow> Some r)"
  by (induction events arbitrary: p)
    (auto simp: connection_callback firstSignal_def map_filter_def split: option.split)

text \<open>C39: of all the state changes that the peer connection reports, the first one that decides
  counts, whatever follows: the wait succeeds exactly if it was the connection, fails with its
  error otherwise, and goes on as long as there is none.\<close>

theorem first_signal_wins:
  "connection (fold probeCallback events \<lparr>connection = None, printed = out\<rparr>) = firstSignal events \<and>
   map_option snd (ApplyAnswerAndWait None events False \<lparr>connection = None, printed = out\<rparr>) = firstSignal events \<and>
   firstSignal (events @ later) = (case firstSignal events of None \<Rightarrow> firstSignal later | Some r \<Rightarrow> Some r)"
  by (auto simp: connection_fold ApplyAnswerAndWait_def Let_def firstSignal_def map_filter_def
      split: option.split list.split)

section \<open>Routes\<close>

lemma Unescape_plain: "CHR ''%'' \<notin> set s \<Longrightarrow> Unescape s = Some s"
  by (induction s) auto

lemma upperHex_val:
  assumes "0 \<le> n" "n < 16"
  shows "hexVal (upperHex n) = Some n"
  using assms byte_char [of "48 + n"] byte_char [of "55 + n"]
  by (auto simp: upperHex_def hexVal_def is_digit_def digit_val_def)

lemma hexByte_upper: "hexByte (upperHex (byte_of c div 16)) (upperHex (byte_of c mod 16)) = Some c"
proof -
  have "0 \<le> byte_of c" "byte_of c < 256"
    using of_char_mod_256 [where ?'a = int, of c] pos_mod_sign [of 256 "byte_of c"] pos_mod_bound [of 256 "byte_of c"]
    by simp_all
  then have "0 \<le> byte_of c div 16" "byte_of c div 16 < 16" "0 \<le> byte_of c mod 16" "byte_of c mod 16 < 16" by simp_all
  moreover have "16 * (byte_of c div 16) + byte_of c mod 16 = byte_of c" by simp
  ultimately show ?thesis by (simp add: hexByte_def upperHex_val)
qed

text \<open>Escaping and then decoding a segment gives it back.\<close>

lemma Unescape_PathEscape: "Unescape (PathEscape s) = Some s"
proof (induction s)
  case (Cons c s)
  have "\<not> segmentChar CHR ''%''" by (simp add: segmentChar_def is_digit_def)
  then show ?case using Cons hexByte_upper [of c] by (auto simp: PathEscape_def)
qed (simp add: PathEscape_def)

lemma PathEscape_plain: "list_all segmentChar s \<Longrightarrow> PathEscape s = s"
  by (induction s) (simp_all add: PathEscape_def)

definition urlOf :: "string list \<Rightarrow> string" where
  "urlOf segs = CHR ''/'' # Join segs ''/''"

lemma urlOf_clean:
  assumes "list_all fileComp segs" "segs \<noteq> []"
  shows "cleanPath (urlOf segs) = urlOf segs"
proof -
  have n: "normalComps True segs" using assms(1) by (auto simp: normalComps_def intro: exI [of _ 0])
  have u: "urlOf segs = renderPath True segs" by (simp add: urlOf_def renderPath_def)
  have "Clean (urlOf segs) = urlOf segs"
    by (simp add: Clean_def u IsAbs_render [OF n] cleanComps_render [OF n])
  moreover have "last (urlOf segs) \<noteq> CHR ''/''"
  proof -
    obtain xs x where x: "segs = xs @ [x]" using assms(2) by (metis rev_exhaust)
    then have f: "fileComp x" using assms(1) by simp
    have "\<exists>pre. Join (xs @ [x]) ''/'' = pre @ x" for xs
      by (induction xs) (auto simp: Join_Cons)
    then obtain pre where "Join segs ''/'' = pre @ x" using x by blast
    then have "last (urlOf segs) = last x" using f by (auto simp: urlOf_def fileComp_def)
    then show ?thesis using f by (metis fileComp_def last_in_set)
  qed
  ultimately show ?thesis by (simp add: cleanPath_def urlOf_def)
qed

lemma urlOf_segments:
  assumes "list_all fileComp segs" "segs \<noteq> []" "list_all (\<lambda>x. CHR ''%'' \<notin> set x) segs"
  shows "pathSegments (urlOf segs) = segs"
proof -
  have "Split (Join segs ''/'') ''/'' = segs"
    using assms(1,2) by (intro Split_Join_char) (auto simp: list_all_iff fileComp_def)
  moreover have "map pathUnescape segs = segs"
    using assms(3) by (auto simp: list_all_iff pathUnescape_def Unescape_plain intro: map_idI)
  moreover have "last segs \<noteq> ''''" using assms(1,2) by (auto simp: list_all_iff fileComp_def)
  moreover have "map pathUnescape (butlast segs) @ [pathUnescape (last segs)] = map pathUnescape segs"
    using assms(2) by (metis append_butlast_last_id list.simps(8,9) map_append)
  ultimately show ?thesis by (simp add: pathSegments_def urlOf_def)
qed

lemma muxFind_urlOf:
  assumes "list_all fileComp segs" "list_all (\<lambda>x. CHR ''%'' \<notin> set x) segs" "2 \<le> length segs"
    "matchRoute segs = Some rt"
  shows "muxFind meth (urlOf segs) = MuxHandle rt"
proof -
  have ne: "segs \<noteq> []" "segs \<noteq> [''v1'']" using assms(3) by auto
  have "urlOf segs \<noteq> ''*''" by (simp add: urlOf_def)
  then show ?thesis using urlOf_clean [OF assms(1) ne(1)] urlOf_segments [OF assms(1) ne(1) assms(2)] ne assms(4)
    by (simp add: muxFind_def Let_def)
qed

lemma idChar_facts: "idChar c \<Longrightarrow> segmentChar c \<and> c \<noteq> CHR ''/'' \<and> c \<noteq> CHR ''%''"
  by (auto simp: idChar_def idHeadChar_def segmentChar_def is_digit_def)

lemma sessionIDPattern_facts:
  assumes "sessionIDPattern sid"
  shows "fileComp sid" "CHR ''%'' \<notin> set sid" "PathEscape sid = sid" "sid \<noteq> ''/''"
proof -
  obtain c cs where sid: "sid = c # cs" "idHeadChar c" "list_all idChar cs"
    using assms by (auto simp: sessionIDPattern_def split: list.splits)
  then have all: "list_all idChar sid" by (simp add: idChar_def)
  have "c \<noteq> CHR ''.''" using sid(2) by (auto simp: idHeadChar_def is_digit_def)
  then show f: "fileComp sid" using all idChar_facts sid(1) by (fastforce simp: fileComp_def list_all_iff)
  show "CHR ''%'' \<notin> set sid" using all idChar_facts by (auto simp: list_all_iff)
  have "list_all segmentChar sid" using all idChar_facts by (auto simp: list_all_iff)
  then show "PathEscape sid = sid" by (rule PathEscape_plain)
  show "sid \<noteq> ''/''" using f by (auto simp: fileComp_def)
qed

lemma fileComp_comps: "fileComp ''v1''" "fileComp ''rtc''" "fileComp ''sessions''" "fileComp ''connected''"
  by (simp_all add: fileComp_def)

lemma route_facts:
  assumes "sessionIDPattern sid"
  shows "muxFind meth (''/v1/rtc/sessions/'' @ PathEscape sid) = MuxHandle (SessionRoute sid)"
    "muxFind meth (''/v1/rtc/sessions/'' @ PathEscape sid @ ''/connected'') = MuxHandle (ConnectedRoute sid)"
proof -
  note f = sessionIDPattern_facts [OF assms]
  have "urlOf [''v1'', ''rtc'', ''sessions'', sid] = ''/v1/rtc/sessions/'' @ PathEscape sid"
    "urlOf [''v1'', ''rtc'', ''sessions'', sid, ''connected''] = ''/v1/rtc/sessions/'' @ PathEscape sid @ ''/connected''"
    using f(3) by (simp_all add: urlOf_def)
  moreover have "muxFind meth (urlOf [''v1'', ''rtc'', ''sessions'', sid]) = MuxHandle (SessionRoute sid)"
    "muxFind meth (urlOf [''v1'', ''rtc'', ''sessions'', sid, ''connected'']) = MuxHandle (ConnectedRoute sid)"
    by (rule muxFind_urlOf; use f in \<open>simp add: matchRoute_def fileComp_comps\<close>)+
  ultimately show "muxFind meth (''/v1/rtc/sessions/'' @ PathEscape sid) = MuxHandle (SessionRoute sid)"
    "muxFind meth (''/v1/rtc/sessions/'' @ PathEscape sid @ ''/connected'') = MuxHandle (ConnectedRoute sid)"
    by simp_all
qed

text \<open>C36: escaping a path segment and decoding it are inverse, and the URLs that a client builds for
  any identifier the server accepts are routed back to exactly that identifier.\<close>

theorem session_routes:
  "Unescape (PathEscape s) = Some s \<and>
   (sessionIDPattern sid \<longrightarrow>
     muxFind meth (''/v1/rtc/sessions/'' @ PathEscape sid) = MuxHandle (SessionRoute sid) \<and>
     muxFind meth (''/v1/rtc/sessions/'' @ PathEscape sid @ ''/connected'') = MuxHandle (ConnectedRoute sid))"
  using route_facts [of sid meth] Unescape_PathEscape [of s] by blast

theorem session_routes_witness:
  "sessionIDPattern ''a-1'' \<and> muxFind ''DELETE'' (''/v1/rtc/sessions/'' @ PathEscape ''a-1'') = MuxHandle (SessionRoute ''a-1'')"
proof -
  have "sessionIDPattern ''a-1''" by code_simp
  with session_routes [of "''''" "''a-1''" "''DELETE''"] show ?thesis by blast
qed

section \<open>The probe and the server\<close>

lemma hexDigit_char: "0 \<le> n \<Longrightarrow> n < 16 \<Longrightarrow> idHeadChar (lowerHex n) \<and> isASCIIAlnum (byte_of (lowerHex n))"
  using byte_char [of "48 + n"] byte_char [of "87 + n"]
  by (auto simp: lowerHex_def idHeadChar_def is_digit_def isASCIIAlnum_def)

lemma byte_halves: "0 \<le> uint (b :: 8 word) div 16" "uint b div 16 < 16" "0 \<le> uint b mod 16" "uint b mod 16 < 16"
  using uint_lt2p [of b] by (simp_all add: pos_imp_zdiv_nonneg_iff)

lemma hexBytes_chars: "c \<in> set (hexBytes bs) \<Longrightarrow> idHeadChar c \<and> isASCIIAlnum (byte_of c)"
  using hexDigit_char byte_halves by (auto simp: hexBytes_def)

lemma lowerHex_inj: "0 \<le> m \<Longrightarrow> m < 16 \<Longrightarrow> 0 \<le> n \<Longrightarrow> n < 16 \<Longrightarrow> lowerHex m = lowerHex n \<Longrightarrow> m = n"
  by (metis hexDigit option.inject)

lemma hexBytes_inj: "hexBytes bs = hexBytes bs' \<Longrightarrow> bs = bs'"
proof (induction bs arbitrary: bs')
  case Nil
  then show ?case by (cases bs') (simp_all add: hexBytes_def)
next
  case (Cons b bs)
  then obtain b' bs1 where b': "bs' = b' # bs1" by (cases bs') (simp_all add: hexBytes_def)
  have h: "lowerHex (uint b div 16) = lowerHex (uint b' div 16)" "lowerHex (uint b mod 16) = lowerHex (uint b' mod 16)"
    "hexBytes bs = hexBytes bs1" using Cons.prems b' by (simp_all add: hexBytes_def)
  then have "uint b div 16 = uint b' div 16" "uint b mod 16 = uint b' mod 16"
    using lowerHex_inj byte_halves by blast+
  then have "uint b = uint b'" by (metis div_mult_mod_eq)
  then show ?case using Cons.IH [OF h(3)] b' by (simp add: word_uint_eq_iff)
qed

lemma length_hexBytes: "length (hexBytes bs) = 2 * length bs"
  by (induction bs) (simp_all add: hexBytes_def)

text \<open>C35: the identifier that the probe makes of eight random bytes is accepted by the server,
  keeps its form in the name of the recording and determines the bytes; the requests that the
  probe builds with it reach the handlers for creating and deleting that session, and they are
  authorised by a server with the same token.\<close>

theorem probe_meets_server:
  assumes "newSessionID (Some bs) = Inr sid" "length bs = 8" "c = \<lparr>baseURL = base, clientToken = token\<rparr>"
  shows "sessionIDPattern sid \<and> sanitizeSessionID sid = sid \<and> (newSessionID (Some bs') = Inr sid \<longrightarrow> bs' = bs) \<and>
    reqURL (createRequest c sid offer) = base @ ''/v1/rtc/sessions'' \<and>
    muxFind (reqMethod (createRequest c sid offer)) ''/v1/rtc/sessions'' = MuxHandle CreateSession \<and>
    (\<exists>p. reqURL (deleteRequest c sid) = base @ p \<and>
       muxFind (reqMethod (deleteRequest c sid)) p = MuxHandle (SessionRoute sid)) \<and>
    authorized (newHandler token svc) (reqAuthorization (createRequest c sid offer)) \<and>
    authorized (newHandler token svc) (reqAuthorization (deleteRequest c sid))"
proof -
  have sid: "sid = ''rtc-probe-'' @ hexBytes bs" using assms(1) by (simp add: newSessionID_def)
  have all: "list_all (\<lambda>c. isASCIIAlnum (byte_of c) \<or> c = CHR ''-'' \<or> c = CHR ''.'') sid" "list_all idChar (tl sid)"
    using hexBytes_chars [of _ bs] unfolding sid
    by (auto simp: list_all_iff isASCIIAlnum_def idChar_def idHeadChar_def is_digit_def)
  have len: "length sid = 26" using assms(2) by (simp add: sid length_hexBytes)
  have pat: "sessionIDPattern sid"
    using all(2) len by (simp add: sid sessionIDPattern_def idHeadChar_def is_digit_def)
  have ne: "hexBytes bs \<noteq> []" using assms(2) length_hexBytes [of bs] by auto
  have "sanitizeSessionID sid = sid"
    using hexBytes_chars [OF last_in_set [OF ne]] all(1) len ne
    by (intro sanitize_fixed) (simp_all add: sid isASCIIAlnum_def)
  moreover have "bs' = bs" if "newSessionID (Some bs') = Inr sid"
    using that hexBytes_inj [of bs' bs] by (simp add: newSessionID_def sid)
  moreover have "muxFind ''POST'' ''/v1/rtc/sessions'' = MuxHandle CreateSession" by code_simp
  ultimately show ?thesis using pat route_facts(1) [OF pat, of "''DELETE''"]
    by (auto simp: createRequest_def deleteRequest_def assms(3) authorized_iff)
qed

theorem probe_meets_server_witness:
  "sessionIDPattern (''rtc-probe-'' @ hexBytes [1, 2, 3, 4, 5, 6, 7, 255])"
proof -
  let ?bs = "[1, 2, 3, 4, 5, 6, 7, 255] :: bytes"
  have "newSessionID (Some ?bs) = Inr (''rtc-probe-'' @ hexBytes ?bs)" "length ?bs = 8"
    by (simp_all add: newSessionID_def)
  from probe_meets_server [OF this refl] show ?thesis by blast
qed

end
