(* ===== verification/EndToEnd.thy ===== *)
theory EndToEnd
  imports ServerMain ProbeProperties
begin

text \<open>
  The probe and the server together: a request that the probe writes is read by the server as
  it was meant, and the probe reads the answer that the server computed.
\<close>

section \<open>What the server receives\<close>

text \<open>A request of the client as the handlers see it, for a client whose base URL is the root of
  the server.\<close>

definition received :: "sessionClient \<Rightarrow> clientRequest \<Rightarrow> httpRequest" where
  "received c req =
     (let p = drop (length (baseURL c)) (reqURL req) in
      \<lparr>requestMethod = reqMethod req, urlPath = pathUnescape p, escapedPath = p,
       authorization = reqAuthorization req, contentType = reqContentType req, requestBody = reqBody req\<rparr>)"

lemma received_create:
  "requestMethod (received c (createRequest c sid offer)) = ''POST''"
  "escapedPath (received c (createRequest c sid offer)) = ''/v1/rtc/sessions''"
  "authorization (received c (createRequest c sid offer)) = ''Bearer '' @ clientToken c"
  "contentType (received c (createRequest c sid offer)) = ''application/json''"
  "requestBody (received c (createRequest c sid offer)) = requestText \<lparr>SessionID = sid, OfferSDP = offer\<rparr>"
  by (simp_all add: received_def createRequest_def requestText_def Let_def)

lemma ToValid_sessionID:
  assumes "sessionIDPattern sid"
  shows "ToValid sid = sid"
proof -
  have "list_all (\<lambda>c. byte_of c < 0x80) sid"
    using assms by (cases sid) (auto simp: sessionIDPattern_def idHeadChar_def idChar_def is_digit_def list_all_iff)
  then show ?thesis by (intro ToValid_valid ValidString_ascii)
qed

lemma create_delivered:
  assumes "h = newHandler (clientToken c) (managerService cfg C pe ttl factory)" "sessionIDPattern sid" "ValidString offer"
    "TrimSpace offer \<noteq> ''''" "\<not> inUse m sid" "length (reqBody (createRequest c sid offer)) \<le> 1048576"
    "ServeHTTP h (received c (createRequest c sid offer)) m = (m', resp, lg)"
  shows "case factory sid offer of
      Inl e \<Rightarrow> \<not> inUse m' sid \<and> statusCode resp = fst (rtcErrorClass e)
    | Inr (s, answer) \<Rightarrow>
        if terminalCalls s = 0 then isLive m' sid \<and> statusCode resp = 200 \<and>
          payload resp = encodeJSON (stringObject [(''answerSdp'', answer), (''sessionId'', sid)])
        else \<not> inUse m' sid \<and> statusCode resp = 404"
proof -
  let ?r = "received c (createRequest c sid offer)"
  have auth: "authorized h (authorization ?r)" by (auto simp: assms(1) authorized_iff received_create)
  have mux: "muxFind (requestMethod ?r) (escapedPath ?r) = MuxHandle CreateSession"
    unfolding received_create by code_simp
  have mime: "ParseMediaType (contentType ?r) = Some ''application/json''"
    unfolding received_create by code_simp
  have "length (requestText \<lparr>SessionID = sid, OfferSDP = offer\<rparr>) \<le> maxRequestBody"
    using assms(6) by (simp add: createRequest_def requestText_def)
  then have body: "decodeJSON (requestBody ?r) = Inr \<lparr>SessionID = sid, OfferSDP = offer\<rparr>"
    unfolding received_create
    by (simp add: decodeJSON_requestText ToValid_sessionID [OF assms(2)] ToValid_valid [OF assms(3)])
  show ?thesis
    using create_served [OF assms(1) auth mux _ mime body _ _ _ assms(7)] assms(2,4,5)
    by (auto simp: received_create split: sum.splits)
qed

section \<open>What the probe reads\<close>

lemma readAnswer:
  assumes "JsonBody content = encodeJSON (stringObject [(''answerSdp'', answer), (''sessionId'', sid)])"
    "length content \<le> Suc maxResponseBytes"
  obtains vals rest where "Decode False [''answerSdp''] (LimitReader maxResponseBytes content) = Inr (vals, rest)"
    "vals ''answerSdp'' = ToValid answer"
proof -
  have v: "visible (LimitReader maxResponseBytes content) =
      Marshal (stringObject [(''answerSdp'', answer), (''sessionId'', sid)]) @
      take (maxResponseBytes - length (Marshal (stringObject [(''answerSdp'', answer), (''sessionId'', sid)]))) [NL]"
    using assms by (simp add: encodeJSON_def LimitReader_def)
  have unknown: "findField [''answerSdp''] ''sessionId'' = None" by code_simp
  show thesis
    by (rule that [of "(\<lambda>_. '''')(''answerSdp'' := ToValid answer)"])
      (simp_all add: Decode_stringObject [OF v] validMember_def ToValid_names storeMember_known storeMember_unknown [OF unknown])
qed

text \<open>An answer that is longer than the limit is cut off and cannot be decoded.\<close>

lemma readAnswer_cut:
  assumes "JsonBody content = encodeJSON (stringObject ms)" "Suc maxResponseBytes < length content"
  shows "\<exists>e. Decode d names (LimitReader maxResponseBytes content) = Inl e"
proof -
  let ?m = "Marshal (stringObject ms)" and ?b = "LimitReader maxResponseBytes content"
  have l: "maxResponseBytes < length ?m" "content = ?m @ [NL]" using assms by (simp_all add: encodeJSON_def)
  then have v: "visible ?b = take maxResponseBytes ?m" "\<not> overflows ?b" by (simp_all add: LimitReader_def)
  have "length (visible ?b) < length ?m" using l(1) unfolding v(1) by simp
  moreover have "?m = visible ?b @ drop maxResponseBytes ?m" unfolding v(1) by simp
  ultimately show ?thesis using readValue_cut v(2) by (fastforce simp: Decode_def andThen_def)
qed

lemma clientCreate_refused:
  assumes "buildable http (createRequest c sid offer)"
    "perform http (createRequest c sid offer) = Inr (int st, content)" "300 \<le> st"
  shows "clientCreate http c sid offer = ('''', False, Some errCreateRequest)"
  using assms by (simp add: clientCreate_def)

lemma clientCreate_answer:
  assumes "buildable http (createRequest c sid offer)"
    "perform http (createRequest c sid offer) = Inr (int st, content)" "st = 200"
    "JsonBody content = encodeJSON (stringObject [(''answerSdp'', answer), (''sessionId'', sid)])"
  shows "clientCreate http c sid offer =
    (let answer = ToValid answer in
     if answer = '''' \<or> 1048577 < length content then ('''', True, Some errInvalidAnswer) else (answer, True, None))"
proof -
  have create: "clientCreate http c sid offer =
      (case Decode False [''answerSdp''] (LimitReader maxResponseBytes content) of
         Inl err \<Rightarrow> ('''', True, Some errInvalidAnswer)
       | Inr (vals, rest) \<Rightarrow> if vals ''answerSdp'' = '''' then ('''', True, Some errInvalidAnswer)
           else (vals ''answerSdp'', True, None))"
    using assms(1-3) by (simp add: clientCreate_def)
  show ?thesis
  proof (cases "Suc maxResponseBytes < length content")
    case True
    then show ?thesis using readAnswer_cut [OF assms(4) True, of False "[''answerSdp'']"] create by (auto simp: Let_def)
  next
    case False
    then obtain vals rest where "Decode False [''answerSdp''] (LimitReader maxResponseBytes content) = Inr (vals, rest)"
      "vals ''answerSdp'' = ToValid answer"
      using readAnswer [OF assms(4)] by auto
    then show ?thesis using False create by (auto simp: Let_def)
  qed
qed

section \<open>The round trip\<close>

text \<open>C2: the probe gets what the server computed.  Between a probe and a server with the same
  token, over a connection that delivers the request and the response unchanged, for a valid
  identifier that is free and an offer in UTF-8 that fits the server's limit, with no other
  request to the manager at the same time: if the server negotiates and gathers in time and
  the session's own goroutines have not closed it meanwhile, then the session is live and the
  probe's \<^verbatim>\<open>Create\<close> returns the normalised answer, with U+FFFD for bytes that are not UTF-8, or
  reports an invalid answer if it is empty or the response exceeds the probe's limit of 1 MiB by
  more than its line feed; otherwise, also if the session was closed while it was built, it
  returns the error for a refused request and the identifier is free.\<close>

theorem probe_gets_answer:
  assumes "build = (\<lambda>i off. NewSession unmarshal U W C srv (pionFor i off) (between i) True i off)"
    "h = newHandler (clientToken c) (managerService cfg C pe ttl (factoryOf build))"
    "sessionIDPattern sid" "ValidString offer" "TrimSpace offer \<noteq> ''''" "\<not> inUse m sid" "pion = pionFor sid offer"
    "req = createRequest c sid offer" "length (reqBody req) \<le> 1048576" "buildable http req"
    "ServeHTTP h (received c req) m = (m', resp, lg)"
    "payload resp = JsonBody content"
    "perform http req = Inr (int (statusCode resp), content)"
  shows "(\<forall>local. negotiated unmarshal pion offer \<and> gather pion = Gathered (Some local) \<and>
      \<not> closedMeanwhile (build sid offer) \<longrightarrow>
      isLive m' sid \<and> clientCreate http c sid offer =
        (let answer = ToValid (normalizeAnswer U offer local) in
         if answer = '''' \<or> 1048577 < length content then ('''', True, Some errInvalidAnswer) else (answer, True, None))) \<and>
    (\<not> (negotiated unmarshal pion offer \<and> (\<exists>local. gather pion = Gathered (Some local)) \<and>
        \<not> closedMeanwhile (build sid offer)) \<longrightarrow>
      \<not> inUse m' sid \<and> clientCreate http c sid offer = ('''', False, Some errCreateRequest))"
proof -
  have o: "build sid offer = NewSession unmarshal U W C srv pion (between sid) True sid offer" by (simp add: assms(1,7))
  note served = create_delivered [OF assms(2-6) assms(9) [unfolded assms(8)] assms(11) [unfolded assms(8)]]
  note http = assms(10,13) [unfolded assms(8)]
  show ?thesis
  proof (cases "factoryOf build sid offer")
    case (Inl e)
    then have "outcomeError (build sid offer) = Some e" by (simp add: factoryOf_Inl)
    then have "\<not> (negotiated unmarshal pion offer \<and> (\<exists>local. gather pion = Gathered (Some local)))"
      using outcome_errors [OF refl, of unmarshal U W C srv pion "between sid" True sid offer] o by simp
    moreover have "300 \<le> statusCode resp" using served Inl by (auto simp: rtcErrorClass_def)
    ultimately show ?thesis using clientCreate_refused [OF http] served Inl by auto
  next
    case (Inr sa)
    then obtain s answer where sa: "factoryOf build sid offer = Inr (s, answer)" by (cases sa) simp
    note f = factoryOf_Inr [OF sa o]
    show ?thesis
    proof (cases "closedMeanwhile (build sid offer)")
      case True
      then have "\<not> inUse m' sid \<and> statusCode resp = 404" using served sa f by simp
      then show ?thesis using clientCreate_refused [OF http] True by simp
    next
      case False
      then have live: "isLive m' sid" "statusCode resp = 200"
        and content: "JsonBody content = encodeJSON (stringObject [(''answerSdp'', answer), (''sessionId'', sid)])"
        using served sa assms(12) f by simp_all
      show ?thesis using clientCreate_answer [OF http live(2) content] live f False by auto
    qed
  qed
qed

definition exFactory :: "string \<Rightarrow> string \<Rightarrow> nat sessionOutcome" where
  "exFactory i off = NewSession exUnmarshal (\<lambda>_. True) exWrite exClose exServer exPion (\<lambda>_. []) True i off"

definition exHandler :: "nat manager handler" where
  "exHandler = newHandler ''secret'' (managerService exConfig exClose (\<lambda>_. None) second (factoryOf exFactory))"

definition exClient :: sessionClient where
  "exClient = \<lparr>baseURL = ''http://server'', clientToken = ''secret''\<rparr>"

text \<open>A connection to a server without sessions.\<close>

definition exHttp :: httpClient where
  "exHttp = \<lparr>buildable = (\<lambda>_. True), perform = (\<lambda>req.
     case ServeHTTP exHandler (received exClient req) NewManager of
       (m, resp, lg) \<Rightarrow> Inr (int (statusCode resp), case payload resp of JsonBody t \<Rightarrow> t | NoJson \<Rightarrow> ''''))\<rparr>"

theorem probe_gets_answer_witness:
  "clientCreate exHttp exClient ''a'' ''v=0'' = (''v=0'', True, None)"
proof -
  let ?req = "createRequest exClient ''a'' ''v=0''"
  obtain m' resp lg where s: "ServeHTTP exHandler (received exClient ?req) NewManager = (m', resp, lg)"
    by (rule prod_cases3)
  have h: "exHandler = newHandler (clientToken exClient) (managerService exConfig exClose (\<lambda>_. None) second (factoryOf exFactory))"
    by (simp add: exHandler_def exClient_def)
  have free: "\<not> inUse (NewManager :: nat manager) ''a''" by (simp add: inUse_def NewManager_def)
  have valid: "ValidString ''v=0''" by (simp add: ValidString_ascii)
  have n: "negotiated exUnmarshal exPion ''v=0''" "gather exPion = Gathered (Some ''v=0'')"
  proof -
    have "validateOffer exUnmarshal ''v=0'' = None" by code_simp
    then show "negotiated exUnmarshal exPion ''v=0''" "gather exPion = Gathered (Some ''v=0'')"
      by (simp_all add: negotiated_def exPion_def)
  qed
  have norm: "normalizeAnswer (\<lambda>_. True) ''v=0'' ''v=0'' = ''v=0''" by code_simp
  have "outcomeError (exFactory ''a'' ''v=0'') = None"
    unfolding exFactory_def
    using outcome_errors [OF refl, of exUnmarshal "\<lambda>_. True" exWrite exClose exServer exPion "\<lambda>_. []" True "''a''" "''v=0''"] n
    by simp
  then obtain st answer where a: "factoryOf exFactory ''a'' ''v=0'' = Inr (st, answer)"
    by (cases "factoryOf exFactory ''a'' ''v=0''") (auto simp: factoryOf_Inl)
  have op: "\<not> closedMeanwhile (exFactory ''a'' ''v=0'')"
  proof -
    have "validateOffer exUnmarshal ''v=0'' = None" using n(1) by (simp add: negotiated_def)
    moreover have "sessionRuns (sessionConfigOf exServer True) exWrite exClose [] s = Some s" for s by simp
    ultimately show ?thesis unfolding exFactory_def
      by (simp add: NewSession_def exPion_def Let_def answerReady_def closedMeanwhile_def meanwhile_def newSession_def)
  qed
  have fact: "factoryOf exFactory ''a'' ''v=0'' = Inr (st, ''v=0'')" "terminalCalls st = 0"
    using factoryOf_Inr [OF a exFactory_def] n(2) norm op a by auto
  let ?content = "Marshal (stringObject [(''answerSdp'', ''v=0''), (''sessionId'', ''a'')]) @ [NL]"
  have len: "length (reqBody ?req) = 34" "length ?content = 36" by code_simp+
  have body: "length (reqBody ?req) \<le> 1048576" "length ?content \<le> 1048576" unfolding len by simp_all
  have resp: "statusCode resp = 200" "payload resp = JsonBody ?content"
    using create_delivered [OF h exRequest_facts(6) valid exRequest_facts(7) free body(1) s] fact
    by (simp_all add: encodeJSON_def)
  have http: "buildable exHttp ?req" "perform exHttp ?req = Inr (int (statusCode resp), ?content)"
    using s resp(2) by (simp_all add: exHttp_def)
  show ?thesis
    using probe_gets_answer [where pionFor = "\<lambda>_ _. exPion" and between = "\<lambda>_ _. []",
        OF ext [OF ext [OF exFactory_def]] h exRequest_facts(6) valid exRequest_facts(7) free refl refl body(1) http(1) s
          resp(2) http(2)] n norm body(2) op
    by (simp add: ToValid_valid [OF valid])
qed

end
