(* ===== verification/Spec2Isabelle.thy ===== *)
theory Spec2Isabelle
  imports SdpResult ManagerRegistry ManagerLiveness EndToEnd
begin

text \<open>
  A verification library for the RTC gateway of the repository \<^verbatim>\<open>homebrain\<close>: a Go server that
  answers the WebRTC offers of an Alexa device, records the audio it receives and is driven
  over HTTP, and a probe that exercises it.  All paths below are relative to \<^verbatim>\<open>src/\<close>.

  \<^bold>\<open>The program.\<close>  \<^verbatim>\<open>cmd/rtc-server/main.go\<close> reads the configuration (\<^verbatim>\<open>internal/config\<close>), builds
  the RTC server and the session manager (\<^verbatim>\<open>internal/rtc\<close>) and serves the HTTP interface
  (\<^verbatim>\<open>internal/httpapi\<close>).  A request to create a session goes from the handler to
  \<^verbatim>\<open>SessionManager.Create\<close>, which reserves the identifier, calls \<^verbatim>\<open>Server.NewSession\<close> without
  holding its lock, and publishes the session if the reservation still stands.  \<^verbatim>\<open>NewSession\<close>
  checks the offer, negotiates with Pion, waits for the candidates and sends the answer
  through three normalisers.  A session records the first audio track
  (\<^verbatim>\<open>internal/recording\<close>), primes the audio path and closes itself on failure, on a lasting
  disconnection and on expiry; its \<^verbatim>\<open>onTerminal\<close> removes it from the manager.

  \<^bold>\<open>The library of Go.\<close>  \<open>GoPrelude\<close> has the result types, the collections of rewrite rules and the
  facts on lists; \<open>GoStrings\<close>, \<open>GoNumbers\<close>, \<open>GoPath\<close>, \<open>GoNet\<close>, \<open>GoTime\<close>, \<open>GoHttp\<close>, \<open>GoJson\<close>, \<open>GoMime\<close> and
  \<open>GoSha256\<close> define what the program uses of \<^verbatim>\<open>strings\<close>, \<^verbatim>\<open>strconv\<close>, \<^verbatim>\<open>unicode/utf8\<close>,
  \<^verbatim>\<open>path/filepath\<close>, \<^verbatim>\<open>net\<close>, \<^verbatim>\<open>net/netip\<close>, \<^verbatim>\<open>time\<close>, \<^verbatim>\<open>net/url\<close>, the multiplexer of \<^verbatim>\<open>net/http\<close>,
  \<^verbatim>\<open>encoding/json\<close> (the encoder, the scanner as the automaton it is, the decoder), \<^verbatim>\<open>mime\<close> and
  \<^verbatim>\<open>crypto/sha256\<close>.  \<open>JsonRoundtrip\<close> proves that what was encoded is decoded again.  Strings are byte strings, \<^verbatim>\<open>int\<close> is unbounded where no
  overflow can occur, and ports, addresses and generations are words of their width.

  \<^bold>\<open>The answer\<close> (\<^verbatim>\<open>internal/rtc/server.go\<close> from line 186).  \<open>SdpMux\<close>, \<open>SdpMid\<close> and \<open>SdpVideo\<close> model
  \<^verbatim>\<open>normalizeAlexaRTCPMuxCandidates\<close>, \<^verbatim>\<open>normalizeAlexaRejectedMediaMIDs\<close> and
  \<^verbatim>\<open>normalizeAlexaRejectedVideoPayloads\<close> with the index arithmetic of the code and show each equal
  to a rewrite of one media section at a time.  \<open>SdpLines\<close> has the decomposition into sections
  and the locale \<open>sdp_rewriter\<close>, the contract that all three fulfil, and \<open>sdp_pipeline\<close>, which
  composes it.  \<open>SdpPipeline\<close> is the chain, \<open>SdpResult\<close> describes the answer that leaves the server
  position by position.  \<open>SdpMeta\<close> has \<^verbatim>\<open>validateOffer\<close> and \<^verbatim>\<open>extractICESDPLogMetadata\<close>.

  \<^bold>\<open>Sessions\<close> (\<^verbatim>\<open>internal/rtc/session.go\<close>).  \<open>Session\<close> has the state (the mutable fields of the Go struct
  and the timers, recorders and goroutines they refer to) and one function per operation,
  \<open>SessionMachine\<close> the same pieces as the steps of a machine in which the goroutines interleave
  between critical sections.  \<open>SessionFrames\<close>, \<open>SessionSafety\<close> and \<open>SessionTimers\<close> prove the invariant,
  \<open>SessionProperties\<close> what follows: closed sessions have released what they held, \<open>Close\<close> ends, a
  stale timer has no effect, and the session refines a life cycle of three phases.  \<open>closeSchedule\<close> is
  the schedule in which a pending \<open>Close\<close> runs to its end; it is possible from every reachable state.
  \<open>Recording\<close> (\<^verbatim>\<open>internal/recording/recorder.go\<close>) has the file names and the recorder with its
  contract, the locale \<open>recorder\<close>; \<open>AudioPrime\<close> (\<^verbatim>\<open>internal/rtc/audio_prime.go\<close> and
  \<^verbatim>\<open>audio_prime_tone.go\<close>) the frames and the loop that sends them.

  \<^bold>\<open>The manager\<close> (\<^verbatim>\<open>internal/rtc/session_manager.go\<close>).  \<open>Manager\<close> has the operations, whole and split at
  the critical sections of \<^verbatim>\<open>m.mu\<close>, over a heap of entries and sessions, so that the comparison
  of pointers in the code is a comparison of positions.  A session that its own goroutines close
  while \<^verbatim>\<open>NewSession\<close> still runs has called back before it is published (\<open>calledBack\<close> in \<open>Create\<close>, any step
  of the session in the machine), and a \<^verbatim>\<open>NewSession\<close> that fails after it has made a session is a
  path of the machine of its own.  \<open>ManagerSafety\<close> and \<open>ManagerProperties\<close>: no
  session is lost and none that has finished closing is found, whatever the interleaving.
  \<open>ManagerRegistry\<close> states what callers may rely on as a registry of identifiers (free, reserved,
  served) and shows that the concurrent manager refines it, \<open>ManagerLiveness\<close> that an expiry timer
  that fires frees the identifier in its callback and leads to the closed session.
  \<open>Machine\<close> has the locales \<open>machine\<close>, \<open>machine_invariant\<close> and \<open>machine_refinement\<close> that session and
  manager interpret.

  \<^bold>\<open>The server\<close>.  \<open>RtcServer\<close> (\<^verbatim>\<open>NewServer\<close>, \<^verbatim>\<open>NewSession\<close>), \<open>Config\<close> (\<^verbatim>\<open>internal/config/config.go\<close>),
  \<open>HttpApi\<close> (\<^verbatim>\<open>internal/httpapi/handler.go\<close>) and \<open>ServerMain\<close> (\<^verbatim>\<open>cmd/rtc-server/main.go\<close>), with
  \<open>RtcServerProperties\<close>, \<open>ConfigProperties\<close> and \<open>HttpApiProperties\<close>.  The interface \<^verbatim>\<open>SessionService\<close> between the
  handlers and the manager is the locale \<open>session_service\<close>, interpreted on the manager.
  \<open>ServerMain\<close> ends with the path of an offer through all the layers.  \<open>Probe\<close> and
  \<open>ProbeProperties\<close> do the same for \<^verbatim>\<open>cmd/rtc-probe/main.go\<close>.  \<open>EndToEnd\<close> joins the two programs: the
  bytes that the probe sends are understood by the server, and the probe reads the answer that
  the server computed from them.

  \<^bold>\<open>Arguments of the model.\<close>  Code outside the repository is an argument of the definitions that
  use it: Pion's parsers (\<open>unmarshal\<close>, \<open>unmarshalOk\<close>) and the results of its calls (the records of
  \<open>RtcServer\<close> and \<open>Probe\<close>), the OGG writer, the calls of the file system, the HTTP client and server
  of \<^verbatim>\<open>net/http\<close>, \<^verbatim>\<open>url.Parse\<close>, the clock and the random source.  Hypotheses on them are named where
  they are used; the only ones are that the path of a request is its encoded path decoded, as
  \<^verbatim>\<open>net/url\<close> provides it, that the connection between probe and server delivers requests and
  responses unchanged, and the shape of Pion's answer (\<open>answerLines\<close>: CRLF lines, a session
  part and at least one media section).

  \<^bold>\<open>Concurrency, loops and bounds.\<close>  A goroutine that runs in the middle of an operation appears
  in the sequential functions as an argument (\<open>between\<close>, \<open>meanwhile\<close>, \<open>during\<close>: the events or the change
  that happen there) and in the machines as any other step.  A critical section is one step, so
  no step waits for a mutex.  The theorems over HTTP take requests one after the other, with
  any behaviour of the session's own goroutines.  Every recursion is shown to
  terminate and no fuel is used; the loops that wait (priming, serving, the probe's
  connection) run over the list of events they observe, and a list that ends too early is
  the value \<open>None\<close>.  The counter of disconnections has 64 bits; the session machine takes
  no step that would wrap it, which would need that many state changes in one session.

  \<^bold>\<open>Not modelled.\<close>  \<^verbatim>\<open>lambda/\<close> (a JavaScript adapter), the tests and the build files;
  \<^verbatim>\<open>consumeRTCP\<close> and \<^verbatim>\<open>drainRemoteTrack\<close>, which read and drop packets; the ticker \<^verbatim>\<open>wallClock\<close>; the
  set-up of signals and of the JSON logger in the two \<^verbatim>\<open>main\<close> functions; \<^verbatim>\<open>url.Parse\<close>; response
  headers other than the media type; in \<^verbatim>\<open>run\<close>, handlers that are still under way after a forced
  close of the HTTP server, next to which \<^verbatim>\<open>CloseAll\<close> runs; and of the log everything but the events, their
  categories and the fields that the properties mention.
\<close>

end
